(* ===== verification/Prelude.thy ===== *)
theory Prelude
  imports Complex_Main "HOL-Library.Product_Lexorder" "HOL-Library.List_Lexorder" "HOL-Library.Char_ord"
begin

text \<open>
  Shared material of the development.

  \<^item> Go strings as byte lists: \<open>TrimSpace\<close>, \<open>ToUpper\<close>, \<open>ToLower\<close>, \<open>TrimRight\<close>,
    \<open>EqualFold\<close>, as the packages of \<^verbatim>\<open>strings\<close> define them on ASCII texts (every text these
    functions are applied to in the modelled code is an identifier, a currency code, a status name
    or a decimal).
  \<^item> Fallible computations as \<open>'e + 'a\<close> with \<open>Inl\<close> the error, and the sequencing of two of
    them, \<open>bindE\<close>; and computations that also change a state, \<open>'s \<Rightarrow> 'e + 'a \<times> 's\<close>, sequenced
    by \<open>bindT\<close>: a database transaction, whose state is kept only when it commits (\<open>Inr\<close>).
  \<^item> List facts used for tables: a row update by key, sums of a column over a table.
  \<^item> \<open>keeps f m\<close>: a transaction that, when it commits, leaves the part \<open>f\<close> of the state as it was;
    the rules of the collection \<open>frame\<close> prove it along the structure of the transaction.
  \<^item> The collections \<open>tx_simps\<close> (the primitive transactions, unfolded) and \<open>go_str\<close>.
\<close>

named_theorems go_str
named_theorems tx_simps
named_theorems frame

section \<open>Go strings\<close>

definition is_space :: "char \<Rightarrow> bool" where
  "is_space c = (let n = (of_char c :: nat) in n = 32 \<or> (9 \<le> n \<and> n \<le> 13))"

definition TrimSpace :: "string \<Rightarrow> string" where
  "TrimSpace s = rev (dropWhile is_space (rev (dropWhile is_space s)))"

definition to_upper_char :: "char \<Rightarrow> char" where
  "to_upper_char c = (let n = (of_char c :: nat) in if 97 \<le> n \<and> n \<le> 122 then char_of (n - 32) else c)"

definition to_lower_char :: "char \<Rightarrow> char" where
  "to_lower_char c = (let n = (of_char c :: nat) in if 65 \<le> n \<and> n \<le> 90 then char_of (n + 32) else c)"

definition ToUpper :: "string \<Rightarrow> string" where
  "ToUpper s = map to_upper_char s"

definition ToLower :: "string \<Rightarrow> string" where
  "ToLower s = map to_lower_char s"

definition EqualFold :: "string \<Rightarrow> string \<Rightarrow> bool" where
  "EqualFold s t = (ToLower s = ToLower t)"

text \<open>\<open>strings.TrimRight\<close> with a one-character cutset.\<close>

definition TrimRight :: "string \<Rightarrow> char \<Rightarrow> string" where
  "TrimRight s c = rev (dropWhile (\<lambda>x. x = c) (rev s))"

section \<open>Errors as values, and transactions\<close>

definition bindE :: "'e + 'a \<Rightarrow> ('a \<Rightarrow> 'e + 'b) \<Rightarrow> 'e + 'b" where
  "bindE m f = (case m of Inl e \<Rightarrow> Inl e | Inr x \<Rightarrow> f x)"

type_synonym ('s, 'e, 'a) tx = "'s \<Rightarrow> 'e + 'a \<times> 's"

definition returnT :: "'a \<Rightarrow> ('s, 'e, 'a) tx" where
  "returnT x s = Inr (x, s)"

definition failT :: "'e \<Rightarrow> ('s, 'e, 'a) tx" where
  "failT e s = Inl e"

definition bindT :: "('s, 'e, 'a) tx \<Rightarrow> ('a \<Rightarrow> ('s, 'e, 'b) tx) \<Rightarrow> ('s, 'e, 'b) tx" where
  "bindT m f s = (case m s of Inl e \<Rightarrow> Inl e | Inr (x, s') \<Rightarrow> f x s')"

definition thenT :: "('s, 'e, 'a) tx \<Rightarrow> ('s, 'e, 'b) tx \<Rightarrow> ('s, 'e, 'b) tx" where
  "thenT m n = bindT m (\<lambda>_. n)"

definition getT :: "('s \<Rightarrow> 'a) \<Rightarrow> ('s, 'e, 'a) tx" where
  "getT f s = Inr (f s, s)"

definition modifyT :: "('s \<Rightarrow> 's) \<Rightarrow> ('s, 'e, unit) tx" where
  "modifyT f s = Inr ((), f s)"

definition unlessT :: "bool \<Rightarrow> 'e \<Rightarrow> ('s, 'e, unit) tx" where
  "unlessT b e s = (if b then Inr ((), s) else Inl e)"

definition whenT :: "bool \<Rightarrow> ('s, 'e, unit) tx \<Rightarrow> ('s, 'e, unit) tx" where
  "whenT b m s = (if b then m s else Inr ((), s))"

definition liftT :: "'e + 'a \<Rightarrow> ('s, 'e, 'a) tx" where
  "liftT m s = (case m of Inl e \<Rightarrow> Inl e | Inr x \<Rightarrow> Inr (x, s))"

text \<open>A row that must be there: \<open>pgx.ErrNoRows\<close> becomes the given error.\<close>

definition rowT :: "'e \<Rightarrow> ('s \<Rightarrow> 'a option) \<Rightarrow> ('s, 'e, 'a) tx" where
  "rowT e q s = (case q s of None \<Rightarrow> Inl e | Some r \<Rightarrow> Inr (r, s))"

text \<open>A database constraint: the statement fails unless the state satisfies it.\<close>

definition checkT :: "('s \<Rightarrow> bool) \<Rightarrow> 'e \<Rightarrow> ('s, 'e, unit) tx" where
  "checkT p e s = (if p s then Inr ((), s) else Inl e)"

primrec forT :: "'a list \<Rightarrow> ('a \<Rightarrow> ('s, 'e, unit) tx) \<Rightarrow> ('s, 'e, unit) tx" where
  "forT [] f = returnT ()"
| "forT (x # xs) f = thenT (f x) (forT xs f)"

text \<open>The part \<open>f\<close> of the state is the same after a committed run.\<close>

definition keeps :: "('s \<Rightarrow> 'p) \<Rightarrow> ('s, 'e, 'a) tx \<Rightarrow> bool" where
  "keeps f m \<longleftrightarrow> (\<forall>s x s'. m s = Inr (x, s') \<longrightarrow> f s' = f s)"

text \<open>A committed transaction keeps its state; a failed one is rolled back.\<close>

definition commit :: "('s, 'e, 'a) tx \<Rightarrow> 's \<Rightarrow> ('e + 'a) \<times> 's" where
  "commit m s = (case m s of Inl e \<Rightarrow> (Inl e, s) | Inr (x, s') \<Rightarrow> (Inr x, s'))"

section \<open>Tables\<close>

text \<open>\<open>UPDATE table SET f WHERE p\<close>, and the rows an \<open>UPDATE\<close> reports as affected.\<close>

definition update_where :: "('r \<Rightarrow> bool) \<Rightarrow> ('r \<Rightarrow> 'r) \<Rightarrow> 'r list \<Rightarrow> 'r list" where
  "update_where p f t = map (\<lambda>r. if p r then f r else r) t"

definition rows_affected :: "('r \<Rightarrow> bool) \<Rightarrow> 'r list \<Rightarrow> nat" where
  "rows_affected p t = length (filter p t)"

definition column_sum :: "('r \<Rightarrow> bool) \<Rightarrow> ('r \<Rightarrow> int) \<Rightarrow> 'r list \<Rightarrow> int" where
  "column_sum p f t = sum_list (map (\<lambda>r. if p r then f r else 0) t)"

section \<open>Lemmas on the combinators\<close>

lemma bindE_Inr [simp]: "bindE m f = Inr y \<longleftrightarrow> (\<exists>x. m = Inr x \<and> f x = Inr y)"
  by (auto simp: bindE_def split: sum.splits)

lemma bindE_simps [simp]: "bindE (Inr x) f = f x" "bindE (Inl e) f = Inl e"
  by (simp_all add: bindE_def)

lemma bindT_InrE [elim!]:
  assumes "bindT m f s = Inr (y, s'')"
  obtains x s' where "m s = Inr (x, s')" "f x s' = Inr (y, s'')"
  using assms by (auto simp: bindT_def split: sum.splits prod.splits)

lemma thenT_InrE [elim!]:
  assumes "thenT m n s = Inr (y, s'')"
  obtains x s' where "m s = Inr (x, s')" "n s' = Inr (y, s'')"
  using assms by (auto simp: thenT_def)

lemma returnT_Inr [simp]: "returnT x s = Inr (y, s') \<longleftrightarrow> y = x \<and> s' = s"
  by (auto simp: returnT_def)

lemma failT_Inr [simp]: "failT e s \<noteq> Inr r"
  by (simp add: failT_def)

lemma getT_Inr [simp]: "getT f s = Inr (y, s') \<longleftrightarrow> y = f s \<and> s' = s"
  by (auto simp: getT_def)

lemma modifyT_Inr [simp]: "modifyT f s = Inr (y, s') \<longleftrightarrow> s' = f s"
  by (auto simp: modifyT_def)

lemma unlessT_Inr [simp]: "unlessT b e s = Inr (y, s') \<longleftrightarrow> b \<and> s' = s"
  by (auto simp: unlessT_def)

lemma whenT_Inr: "whenT b m s = Inr (y, s') \<longleftrightarrow> (if b then m s = Inr (y, s') else s' = s)"
  by (auto simp: whenT_def)

lemma liftT_Inr [simp]: "liftT m s = Inr (y, s') \<longleftrightarrow> m = Inr y \<and> s' = s"
  by (auto simp: liftT_def split: sum.splits)

lemma rowT_Inr [simp]: "rowT e q s = Inr (y, s') \<longleftrightarrow> q s = Some y \<and> s' = s"
  by (auto simp: rowT_def split: option.splits)

lemma checkT_Inr [simp]: "checkT p e s = Inr (y, s') \<longleftrightarrow> p s \<and> s' = s"
  by (auto simp: checkT_def)

lemma forT_Inr:
  "forT (x # xs) f s = Inr (y, s'') \<longleftrightarrow> (\<exists>u s'. f x s = Inr (u, s') \<and> forT xs f s' = Inr (y, s''))"
  by (auto simp: thenT_def bindT_def split: sum.splits prod.splits)

text \<open>Symbolic evaluation of a transaction on a concrete state.\<close>

lemmas tx_eval = bindT_def thenT_def returnT_def failT_def getT_def modifyT_def unlessT_def whenT_def
  liftT_def rowT_def checkT_def commit_def bindE_def

text \<open>A fact kept by the loop's body is kept by the loop.\<close>

lemma forT_invariant:
  assumes "forT xs f s = Inr (u, s')" and "P s"
    and "\<And>x s v t. x \<in> set xs \<Longrightarrow> P s \<Longrightarrow> f x s = Inr (v, t) \<Longrightarrow> P t"
  shows "P s'"
  using assms
proof (induction xs arbitrary: s)
  case (Cons x xs)
  from Cons.prems(1) obtain v t where "f x s = Inr (v, t)" "forT xs f t = Inr (u, s')"
    by (auto simp: forT_Inr simp del: forT.simps)
  moreover have "P t" using Cons.prems(2,3) calculation(1) by auto
  ultimately show ?case using Cons.IH Cons.prems(3) by auto
qed simp

section \<open>Frames\<close>

lemma keepsD: "keeps f m \<Longrightarrow> m s = Inr (x, s') \<Longrightarrow> f s' = f s"
  by (auto simp: keeps_def)

lemma keepsI: "(\<And>s x s'. m s = Inr (x, s') \<Longrightarrow> f s' = f s) \<Longrightarrow> keeps f m"
  by (auto simp: keeps_def)

lemma keeps_bindT [frame]: "keeps f m \<Longrightarrow> (\<And>x. keeps f (g x)) \<Longrightarrow> keeps f (bindT m g)"
  by (auto simp: keeps_def; metis)

lemma keeps_thenT [frame]: "keeps f m \<Longrightarrow> keeps f n \<Longrightarrow> keeps f (thenT m n)"
  by (auto simp: keeps_def; metis)

lemma keeps_pure [frame]:
  "keeps f (returnT x)" "keeps f (failT e)" "keeps f (getT q)" "keeps f (unlessT b e)"
  "keeps f (liftT r)" "keeps f (rowT e q')" "keeps f (checkT p e)"
  by (auto simp: keeps_def)

lemma keeps_modifyT [frame]: "(\<And>s. f (g s) = f s) \<Longrightarrow> keeps f (modifyT g)"
  by (auto simp: keeps_def)

lemma keeps_whenT [frame]: "keeps f m \<Longrightarrow> keeps f (whenT b m)"
  by (auto simp: keeps_def whenT_Inr)

lemma keeps_if [frame]: "keeps f m \<Longrightarrow> keeps f n \<Longrightarrow> keeps f (if b then m else n)"
  by simp

lemma keeps_case_option [frame]:
  "keeps f m \<Longrightarrow> (\<And>x. keeps f (g x)) \<Longrightarrow> keeps f (case v of None \<Rightarrow> m | Some x \<Rightarrow> g x)"
  by (cases v) auto

lemma keeps_case_prod [frame]: "(\<And>x y. keeps f (g x y)) \<Longrightarrow> keeps f (case v of (x, y) \<Rightarrow> g x y)"
  by (cases v) auto

lemma keeps_Let [frame]: "(\<And>x. keeps f (g x)) \<Longrightarrow> keeps f (let x = v in g x)"
  by (simp add: Let_def)

lemma keeps_forT [frame]: "(\<And>x. keeps f (g x)) \<Longrightarrow> keeps f (forT xs g)"
  by (induction xs) (auto intro: keeps_thenT keeps_pure)

section \<open>Lemmas on tables\<close>

lemma update_where_Nil [simp]: "update_where p f [] = []"
  by (simp add: update_where_def)

lemma update_where_Cons [simp]:
  "update_where p f (r # t) = (if p r then f r else r) # update_where p f t"
  by (simp add: update_where_def)

lemma length_update_where [simp]: "length (update_where p f t) = length t"
  by (simp add: update_where_def)

lemma update_where_append [simp]:
  "update_where p f (t @ u) = update_where p f t @ update_where p f u"
  by (simp add: update_where_def)

lemma set_update_where: "set (update_where p f t) = (\<lambda>r. if p r then f r else r) ` set t"
  by (simp add: update_where_def)

lemma in_update_where:
  "r \<in> set (update_where p f t) \<longleftrightarrow> (\<exists>q \<in> set t. r = (if p q then f q else q))"
  by (auto simp: set_update_where)

lemma map_update_where:
  assumes "\<And>r. p r \<Longrightarrow> g (f r) = g r"
  shows "map g (update_where p f t) = map g t"
  using assms by (induction t) auto

lemma image_update_where:
  assumes "\<And>r. p r \<Longrightarrow> g (f r) = g r"
  shows "g ` set (update_where p f t) = g ` set t"
  using map_update_where [of p g f t, OF assms] by (metis set_map)

lemma update_where_none: "\<not> (\<exists>r \<in> set t. p r) \<Longrightarrow> update_where p f t = t"
  by (induction t) auto

lemma column_sum_Nil [simp]: "column_sum p f [] = 0"
  by (simp add: column_sum_def)

lemma column_sum_Cons [simp]: "column_sum p f (r # t) = (if p r then f r else 0) + column_sum p f t"
  by (simp add: column_sum_def)

lemma column_sum_append [simp]: "column_sum p f (t @ u) = column_sum p f t + column_sum p f u"
  by (simp add: column_sum_def)

lemma column_sum_update_other:
  assumes "\<And>r. q r \<Longrightarrow> p (g r) = p r \<and> (p r \<longrightarrow> f (g r) = f r)"
  shows "column_sum p f (update_where q g t) = column_sum p f t"
  using assms by (induction t) auto

lemma column_sum_zero: "(\<And>r. r \<in> set t \<Longrightarrow> p r \<Longrightarrow> f r = 0) \<Longrightarrow> column_sum p f t = 0"
  by (induction t) auto

lemma column_sum_nonneg: "(\<And>r. r \<in> set t \<Longrightarrow> p r \<Longrightarrow> 0 \<le> f r) \<Longrightarrow> 0 \<le> column_sum p f t"
  by (induction t) (auto simp: add_nonneg_nonneg)

lemma column_sum_ge_member:
  assumes "\<And>r. r \<in> set t \<Longrightarrow> p r \<Longrightarrow> 0 \<le> f r" "a \<in> set t" "p a"
  shows "f a \<le> column_sum p f t"
  using assms
proof (induction t)
  case (Cons r t)
  have "0 \<le> column_sum p f t" using Cons.prems(1) by (intro column_sum_nonneg) auto
  then show ?case using Cons by fastforce
qed simp

lemma column_sum_cong:
  "(\<And>r. r \<in> set t \<Longrightarrow> p r = q r) \<Longrightarrow> (\<And>r. r \<in> set t \<Longrightarrow> p r \<Longrightarrow> f r = g r) \<Longrightarrow>
   column_sum p f t = column_sum q g t"
  by (induction t) auto

text \<open>An update that hits the one row with a given key changes a column sum by that row's change.\<close>

lemma column_sum_update_key:
  assumes "distinct (map key t)" and "r \<in> set t" and "key r = k"
  shows "column_sum p f (update_where (\<lambda>x. key x = k) g t) =
         column_sum p f t - (if p r then f r else 0) + (if p (g r) then f (g r) else 0)"
  using assms
proof (induction t)
  case (Cons a t)
  show ?case
  proof (cases "key a = k")
    case True
    then have "a = r" using Cons.prems by (auto simp: image_iff)
    moreover have "\<not> (\<exists>x \<in> set t. key x = k)" using Cons.prems(1) True by (force simp: image_iff)
    ultimately show ?thesis using True by (simp add: update_where_none)
  next
    case False
    then have "r \<in> set t" using Cons.prems by auto
    then show ?thesis using Cons False by simp
  qed
qed simp

lemma distinct_key_eq:
  "distinct (map key t) \<Longrightarrow> a \<in> set t \<Longrightarrow> b \<in> set t \<Longrightarrow> key a = key b \<Longrightarrow> a = b"
  by (induction t) (auto simp: image_iff)

lemma find_SomeD: "find p t = Some r \<Longrightarrow> r \<in> set t \<and> p r"
  by (auto simp: find_Some_iff)

lemma find_append: "find p (t @ u) = (case find p t of None \<Rightarrow> find p u | Some r \<Rightarrow> Some r)"
  by (induction t) auto

lemma find_update_where:
  assumes "\<And>r. q r \<Longrightarrow> p (g r) = p r"
  shows "find p (update_where q g t) = map_option (\<lambda>r. if q r then g r else r) (find p t)"
  using assms by (induction t) auto

lemma rows_affected_pos: "0 < rows_affected p t \<longleftrightarrow> (\<exists>r \<in> set t. p r)"
  by (auto simp: rows_affected_def filter_empty_conv)

end
