(* ===== verification/Decimal.thy ===== *)
theory Decimal
  imports Prelude
begin

text \<open>
  Exact decimals: \<^verbatim>\<open>internal/domain/domain.go\<close> lines 14-158 (\<open>Decimal\<close>, a text of a PostgreSQL
  \<open>NUMERIC(30,12)\<close> value) and the decimal helpers of \<^verbatim>\<open>internal/store/pricing.go\<close>,
  \<^verbatim>\<open>internal/store/funding.go\<close> and \<^verbatim>\<open>internal/store/decimal.go\<close>.

  The texts are modelled as they are: \<open>decimalPattern\<close> is the regular expression as an executable
  test, \<open>rat_SetString\<close> is \<open>big.Rat.SetString\<close> on decimal texts (the code validates a text before
  it is read, or reads a text it produced itself) and \<open>FloatString\<close> is \<open>big.Rat.FloatString\<close>:
  half away from zero at the given number of digits. The lemmas relate texts and values: what the
  code prints it reads back (\<open>SetString_FloatString\<close>, \<open>SetString_formatRat\<close>), the printed value is
  the nearest multiple of the unit (\<open>round12_error\<close>), and the printed text is accepted by the
  pattern exactly when the value is in the range of the column.
\<close>

section \<open>Digits\<close>

definition is_digit :: "char \<Rightarrow> bool" where
  "is_digit c = (let n = (of_char c :: nat) in 48 \<le> n \<and> n \<le> 57)"

definition digit_val :: "char \<Rightarrow> nat" where
  "digit_val c = of_char c - 48"

definition digit_char :: "nat \<Rightarrow> char" where
  "digit_char d = char_of (48 + d)"

definition nat_of_digits :: "string \<Rightarrow> nat" where
  "nat_of_digits s = foldl (\<lambda>acc c. 10 * acc + digit_val c) 0 s"

fun digits_of_nat :: "nat \<Rightarrow> string" where
  "digits_of_nat n = (if n < 10 then [digit_char n] else digits_of_nat (n div 10) @ [digit_char (n mod 10)])"

declare digits_of_nat.simps [simp del]

definition zero_pad :: "nat \<Rightarrow> string \<Rightarrow> string" where
  "zero_pad k s = replicate (k - length s) (CHR ''0'') @ s"

section \<open>The texts\<close>

text \<open>The sign of a text, and the rest.\<close>

definition split_sign :: "string \<Rightarrow> bool \<times> string" where
  "split_sign s = (case s of [] \<Rightarrow> (False, [])
     | c # r \<Rightarrow> if c = CHR ''-'' then (True, r) else if c = CHR ''+'' then (False, r) else (False, s))"

text \<open>\<^verbatim>\<open>^(0|[1-9][0-9]{0,17})(\.[0-9]{1,12})?$\<close>\<close>

definition storedDecimalPattern :: "string \<Rightarrow> bool" where
  "storedDecimalPattern s =
     (let ip = takeWhile is_digit s; rest = dropWhile is_digit s in
        (ip = ''0'' \<or> (ip \<noteq> [] \<and> hd ip \<noteq> CHR ''0'' \<and> length ip \<le> 18)) \<and>
        (rest = [] \<or>
         (hd rest = CHR ''.'' \<and> list_all is_digit (tl rest) \<and> 1 \<le> length (tl rest) \<and> length (tl rest) \<le> 12)))"

text \<open>\<^verbatim>\<open>^[+-]?(?:0|[1-9][0-9]{0,17})(?:\.[0-9]{1,12})?$\<close>\<close>

definition decimalPattern :: "string \<Rightarrow> bool" where
  "decimalPattern s = storedDecimalPattern (snd (split_sign s))"

definition rat_SetString :: "string \<Rightarrow> rat option" where
  "rat_SetString s =
     (let (neg, u) = split_sign s; ip = takeWhile is_digit u; rest = dropWhile is_digit u;
          sg = (if neg then - 1 else 1) in
        if rest = [] then (if ip = [] then None else Some (sg * of_nat (nat_of_digits ip)))
        else if hd rest = CHR ''.'' \<and> list_all is_digit (tl rest) \<and> ip @ tl rest \<noteq> []
        then Some (sg * (of_nat (nat_of_digits (ip @ tl rest)) / 10 ^ length (tl rest)))
        else None)"

text \<open>The absolute value in units of \<open>10\<^sup>-\<^sup>p\<close>, halves rounded up.\<close>

definition abs_units :: "nat \<Rightarrow> rat \<Rightarrow> nat" where
  "abs_units p x = nat \<lfloor>\<bar>x\<bar> * 10 ^ p + 1 / 2\<rfloor>"

definition signed_units :: "nat \<Rightarrow> rat \<Rightarrow> int" where
  "signed_units p x = (if x < 0 then - int (abs_units p x) else int (abs_units p x))"

definition FloatString :: "nat \<Rightarrow> rat \<Rightarrow> string" where
  "FloatString p x =
     (if x < 0 then ''-'' else []) @ digits_of_nat (abs_units p x div 10 ^ p) @
     (if p = 0 then [] else ''.'' @ zero_pad p (digits_of_nat (abs_units p x mod 10 ^ p)))"

section \<open>domain.Decimal\<close>

datatype decimal_error = ErrInvalidNumeric | ErrInvalidDecimal

definition ParseDecimal :: "string \<Rightarrow> decimal_error + string" where
  "ParseDecimal value = (let v = TrimSpace value in
     if \<not> decimalPattern v then Inl ErrInvalidNumeric
     else if rat_SetString v = None then Inl ErrInvalidDecimal
     else Inr v)"

definition decimalRat :: "string \<Rightarrow> decimal_error + rat" where
  "decimalRat value = bindE (ParseDecimal value) (\<lambda>validated.
     case rat_SetString validated of None \<Rightarrow> Inl ErrInvalidDecimal | Some r \<Rightarrow> Inr r)"

definition Decimal_Validate :: "string \<Rightarrow> decimal_error option" where
  "Decimal_Validate d = (case ParseDecimal d of Inl e \<Rightarrow> Some e | Inr _ \<Rightarrow> None)"

definition Decimal_IsZero :: "string \<Rightarrow> decimal_error + bool" where
  "Decimal_IsZero d = bindE (decimalRat d) (\<lambda>r. Inr (r = 0))"

definition Decimal_IsNegative :: "string \<Rightarrow> decimal_error + bool" where
  "Decimal_IsNegative d = bindE (decimalRat d) (\<lambda>r. Inr (r < 0))"

definition Decimal_IsPositive :: "string \<Rightarrow> decimal_error + bool" where
  "Decimal_IsPositive d = bindE (decimalRat d) (\<lambda>r. Inr (0 < r))"

definition Decimal_Add :: "string \<Rightarrow> string \<Rightarrow> decimal_error + string" where
  "Decimal_Add d other = bindE (decimalRat d) (\<lambda>a. bindE (decimalRat other) (\<lambda>b.
     ParseDecimal (FloatString 12 (a + b))))"

definition Decimal_Subtract :: "string \<Rightarrow> string \<Rightarrow> decimal_error + string" where
  "Decimal_Subtract d other = bindE (decimalRat d) (\<lambda>a. bindE (decimalRat other) (\<lambda>b.
     ParseDecimal (FloatString 12 (a - b))))"

definition Decimal_Multiply :: "string \<Rightarrow> string \<Rightarrow> decimal_error + string" where
  "Decimal_Multiply d other = bindE (decimalRat d) (\<lambda>a. bindE (decimalRat other) (\<lambda>b.
     ParseDecimal (FloatString 12 (a * b))))"

definition Decimal_Compare :: "string \<Rightarrow> string \<Rightarrow> decimal_error + int" where
  "Decimal_Compare d other = bindE (decimalRat d) (\<lambda>a. bindE (decimalRat other) (\<lambda>b.
     Inr (if a < b then - 1 else if a = b then 0 else 1)))"

section \<open>The store's helpers\<close>

text \<open>\<open>pricing.format\<close> and \<open>store.formatRat\<close> are the same function.\<close>

definition formatRat :: "rat \<Rightarrow> string" where
  "formatRat r = (let value = TrimRight (TrimRight (FloatString 12 r) (CHR ''0'')) (CHR ''.'') in
     if value = [] \<or> value = ''-0'' then ''0'' else value)"

definition zeroIfEmpty :: "string \<Rightarrow> string" where
  "zeroIfEmpty value = (if TrimSpace value = [] then ''0'' else value)"

definition oneIfEmpty :: "string \<Rightarrow> string" where
  "oneIfEmpty value = (if TrimSpace value = [] then ''1'' else value)"

text \<open>A value of a \<open>NUMERIC(30,12)\<close> column is an integer number of units of \<open>10\<^sup>-\<^sup>1\<^sup>2\<close>.\<close>

type_synonym money = int

definition round12 :: "rat \<Rightarrow> money" where
  "round12 x = (if x < 0 then - int (abs_units 12 x) else int (abs_units 12 x))"

definition rat_of_money :: "money \<Rightarrow> rat" where
  "rat_of_money m = of_int m / 10 ^ 12"

definition money_in_range :: "money \<Rightarrow> bool" where
  "money_in_range m = (\<bar>m\<bar> < 10 ^ 30)"

section \<open>Lemmas on digits\<close>

lemma of_char_digit_char [simp]: "d < 10 \<Longrightarrow> (of_char (digit_char d) :: nat) = 48 + d"
  by (simp add: digit_char_def)

lemma is_digit_digit_char [simp]: "d < 10 \<Longrightarrow> is_digit (digit_char d)"
  by (simp add: is_digit_def)

lemma digit_val_digit_char [simp]: "d < 10 \<Longrightarrow> digit_val (digit_char d) = d"
  by (simp add: digit_val_def)

lemma digit_char_0 [simp]: "digit_char 0 = CHR ''0''"
  by (simp add: digit_char_def char_of_def bit_0)

lemma digit_char_eq_0 [simp]: "d < 10 \<Longrightarrow> digit_char d = CHR ''0'' \<longleftrightarrow> d = 0"
proof -
  assume "d < 10"
  then have "digit_char d = CHR ''0'' \<longrightarrow> d = 0"
    by (metis digit_val_digit_char digit_char_0 zero_less_numeral)
  then show ?thesis by auto
qed

lemma not_digit_consts [simp]: "\<not> is_digit (CHR ''.'')" "\<not> is_digit (CHR ''-'')" "\<not> is_digit (CHR ''+'')"
  "is_digit (CHR ''0'')"
  by (simp_all add: is_digit_def)

lemma foldl_digits: "foldl (\<lambda>acc c. 10 * acc + digit_val c) a s = a * 10 ^ length s + nat_of_digits s"
proof (induction s arbitrary: a)
  case (Cons c s)
  have "foldl (\<lambda>acc c. 10 * acc + digit_val c) 0 (c # s) = digit_val c * 10 ^ length s + nat_of_digits s"
    using Cons.IH [of "digit_val c"] by simp
  then show ?case using Cons.IH [of "10 * a + digit_val c"]
    by (simp add: nat_of_digits_def algebra_simps)
qed (simp add: nat_of_digits_def)

lemma nat_of_digits_Nil [simp]: "nat_of_digits [] = 0"
  by (simp add: nat_of_digits_def)

lemma nat_of_digits_Cons: "nat_of_digits (c # s) = digit_val c * 10 ^ length s + nat_of_digits s"
  using foldl_digits [of "digit_val c" s] by (simp add: nat_of_digits_def)

lemma nat_of_digits_append: "nat_of_digits (s @ t) = nat_of_digits s * 10 ^ length t + nat_of_digits t"
  using foldl_digits [of "nat_of_digits s" t] by (simp add: nat_of_digits_def)

lemma nat_of_digits_zeros [simp]: "nat_of_digits (replicate k (CHR ''0'')) = 0"
  by (induction k) (simp_all add: nat_of_digits_Cons digit_val_def)

lemma nat_of_digits_zero_pad [simp]: "nat_of_digits (zero_pad k s) = nat_of_digits s"
  by (simp add: zero_pad_def nat_of_digits_append)

lemma nat_of_digits_of_nat [simp]: "nat_of_digits (digits_of_nat n) = n"
proof (induction n rule: digits_of_nat.induct)
  case (1 n)
  then show ?case
    by (subst digits_of_nat.simps) (simp add: nat_of_digits_append nat_of_digits_Cons)
qed

lemma digits_of_nat_digits [simp]: "list_all is_digit (digits_of_nat n)"
proof (induction n rule: digits_of_nat.induct)
  case (1 n)
  then show ?case by (subst digits_of_nat.simps) simp
qed

lemma digits_of_nat_nonempty [simp]: "digits_of_nat n \<noteq> []"
  by (subst digits_of_nat.simps) simp

lemma length_digits_of_nat: "0 < k \<Longrightarrow> length (digits_of_nat n) \<le> k \<longleftrightarrow> n < 10 ^ k"
proof (induction n arbitrary: k rule: digits_of_nat.induct)
  case (1 n)
  show ?case
  proof (cases "n < 10")
    case True
    then have "n < 10 ^ k" using "1.prems"
      by (metis One_nat_def Suc_leI less_le_trans one_le_numeral power_increasing power_one_right)
    then show ?thesis using True "1.prems" by (subst digits_of_nat.simps) simp
  next
    case False
    show ?thesis
    proof (cases k)
      case (Suc j)
      show ?thesis
      proof (cases "j = 0")
        case True
        then show ?thesis using False Suc
          by (subst digits_of_nat.simps) (simp add: Suc_le_eq)
      next
        case j: False
        have "n < 10 * 10 ^ j \<longleftrightarrow> n div 10 < 10 ^ j"
          by (auto simp: less_mult_imp_div_less mult.commute div_less_iff_less_mult)
        then show ?thesis using "1.IH" [of j] False Suc j
          by (subst digits_of_nat.simps) simp
      qed
    qed (use "1.prems" in simp)
  qed
qed

lemma hd_digits_of_nat: "0 < n \<Longrightarrow> hd (digits_of_nat n) \<noteq> CHR ''0''"
proof (induction n rule: digits_of_nat.induct)
  case (1 n)
  then show ?case by (subst digits_of_nat.simps) (auto simp: hd_append)
qed

lemma digits_of_nat_0 [simp]: "digits_of_nat 0 = ''0''"
  by (simp add: digits_of_nat.simps)

lemma length_zero_pad [simp]: "length s \<le> k \<Longrightarrow> length (zero_pad k s) = k"
  by (simp add: zero_pad_def)

lemma zero_pad_digits [simp]: "list_all is_digit (zero_pad k s) \<longleftrightarrow> list_all is_digit s"
  by (auto simp: zero_pad_def list_all_iff)

lemma takeWhile_digits: "list_all is_digit s \<Longrightarrow> \<not> is_digit c \<Longrightarrow> takeWhile is_digit (s @ c # r) = s"
  by (induction s) auto

lemma dropWhile_digits: "list_all is_digit s \<Longrightarrow> \<not> is_digit c \<Longrightarrow> dropWhile is_digit (s @ c # r) = c # r"
  by (induction s) auto

lemma takeWhile_all_digits: "list_all is_digit s \<Longrightarrow> takeWhile is_digit s = s"
  by (induction s) auto

lemma dropWhile_all_digits: "list_all is_digit s \<Longrightarrow> dropWhile is_digit s = []"
  by (induction s) auto

lemmas digit_spans = takeWhile_digits dropWhile_digits takeWhile_all_digits dropWhile_all_digits

lemma split_sign_digits: "list_all is_digit s \<Longrightarrow> s \<noteq> [] \<Longrightarrow> split_sign (s @ r) = (False, s @ r)"
  by (cases s) (auto simp: split_sign_def)

lemma split_sign_minus [simp]: "split_sign (CHR ''-'' # r) = (True, r)"
  by (simp add: split_sign_def)

section \<open>Texts and values\<close>

lemma decimal_text_value:
  assumes "list_all is_digit ip" "list_all is_digit fp" "ip \<noteq> []"
  shows "rat_SetString (ip @ CHR ''.'' # fp) = Some (of_nat (nat_of_digits (ip @ fp)) / 10 ^ length fp)"
    and "rat_SetString (CHR ''-'' # ip @ CHR ''.'' # fp) = Some (- (of_nat (nat_of_digits (ip @ fp)) / 10 ^ length fp))"
    and "rat_SetString ip = Some (of_nat (nat_of_digits ip))"
    and "rat_SetString (CHR ''-'' # ip) = Some (- of_nat (nat_of_digits ip))"
  using assms split_sign_digits [of ip "CHR ''.'' # fp"] split_sign_digits [of ip "[]"]
  by (simp_all add: rat_SetString_def digit_spans list_all_iff Let_def)

lemma frac_units_length: "0 < p \<Longrightarrow> length (digits_of_nat (u mod 10 ^ p)) \<le> p"
  by (simp add: length_digits_of_nat)

text \<open>What \<open>FloatString\<close> prints, \<open>SetString\<close> reads as the rounded value.\<close>

lemma SetString_FloatString:
  assumes "0 < p"
  shows "rat_SetString (FloatString p x) = Some (of_int (signed_units p x) / 10 ^ p)"
proof -
  let ?u = "abs_units p x"
  let ?ip = "digits_of_nat (?u div 10 ^ p)" and ?fp = "zero_pad p (digits_of_nat (?u mod 10 ^ p))"
  have len: "length ?fp = p" using frac_units_length [OF assms] by simp
  have "nat_of_digits (?ip @ ?fp) = ?u"
    by (simp add: nat_of_digits_append len div_mult_mod_eq)
  then show ?thesis
    using decimal_text_value [of ?ip ?fp] assms len by (auto simp: FloatString_def signed_units_def)
qed

lemma round12_signed_units: "round12 x = signed_units 12 x"
  by (simp add: round12_def signed_units_def)

lemma SetString_FloatString12: "rat_SetString (FloatString 12 x) = Some (rat_of_money (round12 x))"
  by (simp add: SetString_FloatString round12_signed_units rat_of_money_def)

lemma stored_pattern_text:
  assumes "list_all is_digit fp" "1 \<le> length fp" "length fp \<le> 12"
  shows "storedDecimalPattern (digits_of_nat n @ CHR ''.'' # fp) \<longleftrightarrow> n < 10 ^ 18"
    and "storedDecimalPattern (digits_of_nat n) \<longleftrightarrow> n < 10 ^ 18"
proof -
  have ip: "digits_of_nat n = ''0'' \<or> hd (digits_of_nat n) \<noteq> CHR ''0'' \<and> length (digits_of_nat n) \<le> 18 \<longleftrightarrow> n < 10 ^ 18"
    using length_digits_of_nat [of 18 n] hd_digits_of_nat [of n] nat_of_digits_of_nat [of n]
    by (cases "n = 0") (auto simp del: nat_of_digits_of_nat)
  show "storedDecimalPattern (digits_of_nat n @ CHR ''.'' # fp) \<longleftrightarrow> n < 10 ^ 18"
    using assms ip by (simp add: storedDecimalPattern_def digit_spans)
  show "storedDecimalPattern (digits_of_nat n) \<longleftrightarrow> n < 10 ^ 18"
    using ip by (simp add: storedDecimalPattern_def digit_spans)
qed

lemma decimalPattern_FloatString12: "decimalPattern (FloatString 12 x) \<longleftrightarrow> money_in_range (round12 x)"
proof -
  let ?u = "abs_units 12 x"
  let ?ip = "digits_of_nat (?u div 10 ^ 12)" and ?fp = "zero_pad 12 (digits_of_nat (?u mod 10 ^ 12))"
  have len: "length ?fp = 12" using frac_units_length [of 12 ?u] by simp
  have "storedDecimalPattern (?ip @ CHR ''.'' # ?fp) \<longleftrightarrow> ?u div 10 ^ 12 < 10 ^ 18"
    using len by (intro stored_pattern_text) simp_all
  moreover have "?u div 10 ^ 12 < 10 ^ 18 \<longleftrightarrow> ?u < 10 ^ 30"
    by (simp add: div_less_iff_less_mult)
  moreover have "decimalPattern (FloatString 12 x) = storedDecimalPattern (?ip @ CHR ''.'' # ?fp)"
    using split_sign_digits [of ?ip "CHR ''.'' # ?fp"]
    by (simp add: decimalPattern_def FloatString_def)
  moreover have "int ?u < 10 ^ 30 \<longleftrightarrow> ?u < 10 ^ 30"
    by simp
  ultimately show ?thesis by (simp add: money_in_range_def round12_def)
qed

lemma not_space_digit: "is_digit c \<Longrightarrow> \<not> is_space c"
  by (auto simp: is_digit_def is_space_def Let_def)

lemma not_space_consts [simp]: "\<not> is_space (CHR ''-'')" "\<not> is_space (CHR ''.'')" "\<not> is_space (CHR ''+'')"
  by (simp_all add: is_space_def)

lemma TrimSpace_no_space: "(\<And>c. c \<in> set s \<Longrightarrow> \<not> is_space c) \<Longrightarrow> TrimSpace s = s"
proof -
  assume a: "\<And>c. c \<in> set s \<Longrightarrow> \<not> is_space c"
  have d: "dropWhile is_space t = t" if "\<And>c. c \<in> set t \<Longrightarrow> \<not> is_space c" for t
    using that by (cases t) auto
  show ?thesis using a d [of s] d [of "rev s"] by (simp add: TrimSpace_def)
qed

lemma TrimSpace_FloatString [simp]: "TrimSpace (FloatString p x) = FloatString p x"
proof (rule TrimSpace_no_space)
  fix c assume "c \<in> set (FloatString p x)"
  then have "c = CHR ''-'' \<or> c = CHR ''.'' \<or> is_digit c"
    using digits_of_nat_digits zero_pad_digits
    by (auto simp: FloatString_def list_all_iff zero_pad_def split: if_splits)
  then show "\<not> is_space c" using not_space_digit by auto
qed

lemma ParseDecimal_FloatString12:
  "ParseDecimal (FloatString 12 x) =
     (if money_in_range (round12 x) then Inr (FloatString 12 x) else Inl ErrInvalidNumeric)"
  by (simp add: ParseDecimal_def decimalPattern_FloatString12 SetString_FloatString12)

lemma decimalRat_FloatString12:
  "decimalRat (FloatString 12 x) =
     (if money_in_range (round12 x) then Inr (rat_of_money (round12 x)) else Inl ErrInvalidNumeric)"
  by (simp add: decimalRat_def ParseDecimal_FloatString12 SetString_FloatString12)

lemma abs_units_of_units: "abs_units p (of_int m / 10 ^ p) = nat \<bar>m\<bar>"
proof -
  have "\<bar>of_int m / 10 ^ p :: rat\<bar> * 10 ^ p = of_int \<bar>m\<bar>"
    by (simp add: abs_divide)
  moreover have "\<lfloor>of_int \<bar>m\<bar> + 1 / 2 :: rat\<rfloor> = \<bar>m\<bar>"
    by linarith
  ultimately show ?thesis unfolding abs_units_def by simp
qed

lemma round12_rat_of_money [simp]: "round12 (rat_of_money m) = m"
  using abs_units_of_units [of 12 m] by (simp add: round12_def rat_of_money_def)

lemma round12_error: "\<bar>x - rat_of_money (round12 x)\<bar> \<le> 1 / (2 * 10 ^ 12)"
proof -
  let ?f = "\<lfloor>\<bar>x\<bar> * 10 ^ 12 + 1 / 2\<rfloor>"
  have "0 \<le> ?f" by simp
  moreover have "\<bar>\<bar>x\<bar> * 10 ^ 12 - of_int ?f\<bar> \<le> 1 / 2"
    by linarith
  ultimately have "\<bar>\<bar>x\<bar> * 10 ^ 12 - of_nat (abs_units 12 x)\<bar> \<le> 1 / 2"
    by (simp add: abs_units_def)
  then have "\<bar>\<bar>x\<bar> - of_nat (abs_units 12 x) / 10 ^ 12\<bar> \<le> 1 / (2 * 10 ^ 12)"
    by (simp add: abs_le_iff field_simps)
  moreover have "x - rat_of_money (round12 x) =
      (if x < 0 then - (\<bar>x\<bar> - of_nat (abs_units 12 x) / 10 ^ 12) else \<bar>x\<bar> - of_nat (abs_units 12 x) / 10 ^ 12)"
    by (simp add: round12_def rat_of_money_def)
  ultimately show ?thesis by (metis abs_minus_cancel)
qed

lemma round12_mono: "x \<le> y \<Longrightarrow> round12 x \<le> round12 y"
proof -
  assume xy: "x \<le> y"
  have m: "abs_units 12 a \<le> abs_units 12 b" if "\<bar>a\<bar> \<le> \<bar>b\<bar>" for a b
    unfolding abs_units_def using that by (intro nat_mono floor_mono) simp
  show ?thesis using m [of x y] m [of y x] xy by (auto simp: round12_def)
qed

lemma round12_0 [simp]: "round12 0 = 0"
  by (simp add: round12_def abs_units_def)

lemma round12_nonneg: "0 \<le> x \<Longrightarrow> 0 \<le> round12 x"
  using round12_mono [of 0 x] by simp

lemma rat_of_money_simps [simp]:
  "rat_of_money 0 = 0" "rat_of_money (a + b) = rat_of_money a + rat_of_money b"
  "rat_of_money (a - b) = rat_of_money a - rat_of_money b" "rat_of_money (- a) = - rat_of_money a"
  by (simp_all add: rat_of_money_def add_divide_distrib diff_divide_distrib)

lemma rat_of_money_less [simp]:
  "rat_of_money a < rat_of_money b \<longleftrightarrow> a < b" "rat_of_money a \<le> rat_of_money b \<longleftrightarrow> a \<le> b"
  "rat_of_money a = rat_of_money b \<longleftrightarrow> a = b"
  by (simp_all add: rat_of_money_def divide_less_cancel divide_le_cancel)

lemma TrimRight_snoc: "TrimRight (s @ [c]) d = (if c = d then TrimRight s d else s @ [c])"
  by (simp add: TrimRight_def)

lemma TrimRight_append_stop: "c \<noteq> d \<Longrightarrow> TrimRight (s @ c # t) d = s @ c # TrimRight t d"
proof (induction t rule: rev_induct)
  case Nil
  then show ?case using TrimRight_snoc [of s c d] by (simp add: TrimRight_def)
next
  case (snoc x t)
  then show ?case using TrimRight_snoc [of "s @ c # t" x d] TrimRight_snoc [of t x d] by simp
qed

lemma TrimRight_no_stop: "s \<noteq> [] \<Longrightarrow> last s \<noteq> d \<Longrightarrow> TrimRight s d = s"
  by (cases s rule: rev_cases) (simp_all add: TrimRight_snoc)

lemma TrimRight_decomp: "\<exists>k. s = TrimRight s d @ replicate k d"
proof (induction s rule: rev_induct)
  case (snoc x s)
  show ?case
  proof (cases "x = d")
    case True
    from snoc obtain k where "s = TrimRight s d @ replicate k d" by blast
    then have "s @ [x] = TrimRight s d @ replicate (Suc k) d"
      using True by (metis append_assoc replicate_Suc replicate_append_same)
    then show ?thesis using True by (metis TrimRight_snoc)
  next
    case False
    then show ?thesis by (intro exI [of _ 0]) (simp add: TrimRight_snoc)
  qed
qed (simp add: TrimRight_def)

lemma last_TrimRight: "TrimRight s d \<noteq> [] \<Longrightarrow> last (TrimRight s d) \<noteq> d"
  by (induction s rule: rev_induct) (auto simp: TrimRight_snoc TrimRight_def)

lemma last_digits: "list_all is_digit s \<Longrightarrow> s \<noteq> [] \<Longrightarrow> is_digit (last s)"
  by (simp add: list_all_iff)

lemma digits_of_nat_not_minus [simp]: "digits_of_nat n \<noteq> CHR ''-'' # r" "digits_of_nat n @ t \<noteq> CHR ''-'' # r"
  using digits_of_nat_digits [of n] digits_of_nat_nonempty [of n]
  by (auto simp: append_eq_Cons_conv simp del: digits_of_nat_digits digits_of_nat_nonempty)

lemma digits_dot_not_zero [simp]: "digits_of_nat n @ CHR ''.'' # t \<noteq> ''0''"
  using digits_of_nat_nonempty [of n]
  by (auto simp: append_eq_Cons_conv simp del: digits_of_nat_nonempty)

text \<open>The unsigned text after both trims: the integer digits, and the fraction without its
  trailing zeros when there is one.\<close>

lemma trimmed_text:
  assumes "list_all is_digit ip" "ip \<noteq> []" "list_all is_digit fp"
  obtains fp' k where "fp = fp' @ replicate k (CHR ''0'')" "list_all is_digit fp'"
    "TrimRight (TrimRight (sg @ ip @ CHR ''.'' # fp) (CHR ''0'')) (CHR ''.'') =
       (if fp' = [] then sg @ ip else sg @ ip @ CHR ''.'' # fp')"
proof -
  let ?f = "TrimRight fp (CHR ''0'')"
  obtain k where k: "fp = ?f @ replicate k (CHR ''0'')" using TrimRight_decomp by blast
  then have d: "list_all is_digit ?f" using assms(3) by (metis list_all_append)
  have "TrimRight (sg @ ip @ CHR ''.'' # fp) (CHR ''0'') = (sg @ ip) @ CHR ''.'' # ?f"
    using TrimRight_append_stop [of "CHR ''.''" "CHR ''0''" "sg @ ip" fp] by simp
  moreover have "TrimRight ((sg @ ip) @ CHR ''.'' # ?f) (CHR ''.'') =
      (if ?f = [] then sg @ ip else (sg @ ip) @ CHR ''.'' # ?f)"
  proof (cases "?f = []")
    case True
    have "last (sg @ ip) \<noteq> CHR ''.''" using assms last_digits [of ip] by auto
    then have "TrimRight (sg @ ip) (CHR ''.'') = sg @ ip" using assms(2) by (simp add: TrimRight_no_stop)
    then show ?thesis using True TrimRight_snoc [of "sg @ ip" "CHR ''.''" "CHR ''.''"] by simp
  next
    case False
    then have "last ((sg @ ip) @ CHR ''.'' # ?f) \<noteq> CHR ''.''" using last_digits [OF d] by auto
    then show ?thesis using False by (simp add: TrimRight_no_stop del: append_assoc)
  qed
  ultimately show ?thesis using that [of ?f k] k d by simp
qed

text \<open>\<open>formatRat\<close> changes the text and not the value.\<close>

lemma formatRat_text:
  obtains fp where "list_all is_digit fp" "length fp \<le> 12"
    "formatRat x = (let ip = digits_of_nat (abs_units 12 x div 10 ^ 12);
        t = (if fp = [] then ip else ip @ CHR ''.'' # fp) in
        if x < 0 \<and> (fp \<noteq> [] \<or> ip \<noteq> ''0'') then CHR ''-'' # t else t)"
    "of_nat (nat_of_digits (digits_of_nat (abs_units 12 x div 10 ^ 12) @ fp)) / 10 ^ length fp =
     (of_nat (abs_units 12 x) / 10 ^ 12 :: rat)"
proof -
  let ?u = "abs_units 12 x"
  let ?ip = "digits_of_nat (?u div 10 ^ 12)" and ?fp = "zero_pad 12 (digits_of_nat (?u mod 10 ^ 12))"
  let ?sg = "if x < 0 then ''-'' else []"
  have len: "length ?fp = 12" using frac_units_length [of 12 ?u] by simp
  obtain fp k where fp: "?fp = fp @ replicate k (CHR ''0'')" "list_all is_digit fp"
    "TrimRight (TrimRight (?sg @ ?ip @ CHR ''.'' # ?fp) (CHR ''0'')) (CHR ''.'') =
       (if fp = [] then ?sg @ ?ip else ?sg @ ?ip @ CHR ''.'' # fp)"
    using trimmed_text [of ?ip ?fp ?sg] by (metis digits_of_nat_digits digits_of_nat_nonempty zero_pad_digits)
  have l: "length fp + k = 12" using fp(1) len by (metis length_append length_replicate)
  have fs: "FloatString 12 x = ?sg @ ?ip @ CHR ''.'' # ?fp" by (simp add: FloatString_def)
  have "nat_of_digits (?ip @ ?fp) = ?u"
    using len by (simp only: nat_of_digits_append) simp
  moreover have "nat_of_digits (?ip @ ?fp) = nat_of_digits (?ip @ fp) * 10 ^ k"
    using fp(1) by (metis add.right_neutral append_assoc length_replicate nat_of_digits_append nat_of_digits_zeros)
  ultimately have "of_nat ?u = (of_nat (nat_of_digits (?ip @ fp)) :: rat) * 10 ^ k"
    by (metis of_nat_mult of_nat_numeral of_nat_power)
  moreover have "(10 :: rat) ^ 12 = 10 ^ length fp * 10 ^ k" using l by (metis power_add)
  ultimately have v: "of_nat (nat_of_digits (?ip @ fp)) / 10 ^ length fp = (of_nat ?u / 10 ^ 12 :: rat)"
    by (metis mult_divide_mult_cancel_right power_not_zero zero_neq_numeral)
  have "formatRat x = (let t = (if fp = [] then ?ip else ?ip @ CHR ''.'' # fp) in
        if x < 0 \<and> (fp \<noteq> [] \<or> ?ip \<noteq> ''0'') then CHR ''-'' # t else t)"
    unfolding formatRat_def fs fp(3) by (auto simp: Let_def)
  then show ?thesis using that [OF fp(2) _ _ v] l by simp
qed

lemma SetString_formatRat: "rat_SetString (formatRat x) = Some (rat_of_money (round12 x))"
proof -
  let ?ip = "digits_of_nat (abs_units 12 x div 10 ^ 12)"
  obtain fp where fp: "list_all is_digit fp" "length fp \<le> 12"
    "formatRat x = (let ip = ?ip; t = (if fp = [] then ip else ip @ CHR ''.'' # fp) in
        if x < 0 \<and> (fp \<noteq> [] \<or> ip \<noteq> ''0'') then CHR ''-'' # t else t)"
    "of_nat (nat_of_digits (?ip @ fp)) / 10 ^ length fp = (of_nat (abs_units 12 x) / 10 ^ 12 :: rat)"
    using formatRat_text by blast
  have z: "abs_units 12 x = 0" if "fp = []" "?ip = ''0''"
    using fp(4) unfolding that by (simp add: nat_of_digits_def digit_val_def)
  show ?thesis
    using fp(4) z decimal_text_value [of ?ip fp] fp(1)
    by (auto simp: fp(3) Let_def round12_def rat_of_money_def)
qed

lemma storedDecimalPattern_formatRat:
  "0 \<le> x \<Longrightarrow> storedDecimalPattern (formatRat x) \<longleftrightarrow> money_in_range (round12 x)"
proof -
  assume x: "0 \<le> x"
  let ?u = "abs_units 12 x"
  let ?ip = "digits_of_nat (?u div 10 ^ 12)"
  obtain fp where fp: "list_all is_digit fp" "length fp \<le> 12"
    "formatRat x = (if fp = [] then ?ip else ?ip @ CHR ''.'' # fp)"
  proof (rule formatRat_text [of x])
    fix fp assume "list_all is_digit fp" "length fp \<le> 12"
      "formatRat x = (let ip = ?ip; t = (if fp = [] then ip else ip @ CHR ''.'' # fp) in
        if x < 0 \<and> (fp \<noteq> [] \<or> ip \<noteq> ''0'') then CHR ''-'' # t else t)"
    with x show ?thesis using that [of fp] by (simp add: Let_def)
  qed
  have "storedDecimalPattern (formatRat x) \<longleftrightarrow> ?u div 10 ^ 12 < 10 ^ 18"
    using fp stored_pattern_text [of fp "?u div 10 ^ 12"] stored_pattern_text(2) [of "''0''" "?u div 10 ^ 12"]
    by (auto simp: Suc_le_eq)
  also have "\<dots> \<longleftrightarrow> money_in_range (round12 x)"
    using x by (simp add: money_in_range_def round12_def div_less_iff_less_mult)
  finally show ?thesis .
qed

lemma TrimSpace_formatRat [simp]: "TrimSpace (formatRat x) = formatRat x"
proof (rule TrimSpace_no_space)
  fix c assume c: "c \<in> set (formatRat x)"
  obtain fp where fp: "list_all is_digit fp"
    "formatRat x = (let ip = digits_of_nat (abs_units 12 x div 10 ^ 12);
        t = (if fp = [] then ip else ip @ CHR ''.'' # fp) in
        if x < 0 \<and> (fp \<noteq> [] \<or> ip \<noteq> ''0'') then CHR ''-'' # t else t)"
    using formatRat_text by blast
  then have "c = CHR ''-'' \<or> c = CHR ''.'' \<or> is_digit c"
    using c digits_of_nat_digits [of "abs_units 12 x div 10 ^ 12"]
    by (auto simp: Let_def list_all_iff split: if_splits)
  then show "\<not> is_space c" using not_space_digit by auto
qed

lemma nat_of_digits_less: "list_all is_digit s \<Longrightarrow> nat_of_digits s < 10 ^ length s"
proof (induction s)
  case (Cons c s)
  then have "is_digit c" by simp
  then have "digit_val c \<le> 9" unfolding is_digit_def digit_val_def Let_def by linarith
  then have "digit_val c * 10 ^ length s \<le> 9 * 10 ^ length s" by simp
  moreover have "nat_of_digits s < 10 ^ length s" using Cons by simp
  ultimately show ?case unfolding nat_of_digits_Cons list.size by (simp only: power_Suc add_0_right add_Suc_right)
qed simp

lemma scaled_money:
  assumes "list_all is_digit ip" "length ip \<le> 18" "list_all is_digit fp" "length fp \<le> 12"
  shows "\<exists>m. of_nat (nat_of_digits (ip @ fp)) / 10 ^ length fp = rat_of_money (int m) \<and> m < 10 ^ 30"
proof (intro exI conjI)
  let ?n = "nat_of_digits (ip @ fp)" and ?k = "12 - length fp"
  have h: "(10 :: rat) ^ 12 = 10 ^ length fp * 10 ^ ?k"
    using assms(4) by (simp flip: power_add)
  show "of_nat ?n / 10 ^ length fp = rat_of_money (int (?n * 10 ^ ?k))"
    unfolding rat_of_money_def h of_int_of_nat_eq of_nat_mult of_nat_power of_nat_numeral by simp
  have "?n < 10 ^ (length ip + length fp)" using assms nat_of_digits_less [of "ip @ fp"] by simp
  then have "?n * 10 ^ ?k < 10 ^ (length ip + length fp) * 10 ^ ?k" by simp
  also have "\<dots> = 10 ^ (length ip + 12)" using assms(4) by (simp flip: power_add)
  also have "\<dots> \<le> 10 ^ 30" using assms(2) by (intro power_increasing) auto
  finally show "?n * 10 ^ ?k < 10 ^ 30" .
qed

lemma stored_value:
  assumes "storedDecimalPattern u"
  defines "ip \<equiv> takeWhile is_digit u" and "fp \<equiv> tl (dropWhile is_digit u)"
  shows "list_all is_digit ip \<and> length ip \<le> 18 \<and> ip \<noteq> [] \<and> list_all is_digit fp \<and> length fp \<le> 12 \<and>
     (u = ip \<and> fp = [] \<or> u = ip @ CHR ''.'' # fp)"
proof -
  have d: "list_all is_digit ip" by (auto simp: ip_def list_all_iff dest: set_takeWhileD)
  have u: "ip @ dropWhile is_digit u = u" by (simp add: ip_def)
  have p: "ip = ''0'' \<or> (ip \<noteq> [] \<and> hd ip \<noteq> CHR ''0'' \<and> length ip \<le> 18)"
    "dropWhile is_digit u = [] \<or> (hd (dropWhile is_digit u) = CHR ''.'' \<and> list_all is_digit fp \<and> length fp \<le> 12)"
    using assms(1) unfolding storedDecimalPattern_def Let_def ip_def fp_def by blast+
  show ?thesis
  proof (cases "dropWhile is_digit u")
    case Nil
    then have "u = ip" "fp = []" using u by (simp_all add: fp_def del: dropWhile_eq_Nil_conv)
    moreover have "length ip \<le> 18" "ip \<noteq> []" using p(1) by auto
    ultimately show ?thesis using d by simp
  next
    case (Cons c r)
    then have "c = CHR ''.''" "r = fp" using p(2) by (simp_all add: fp_def)
    then have "u = ip @ CHR ''.'' # fp" using u unfolding Cons by simp
    moreover have "length ip \<le> 18" "ip \<noteq> []" using p(1) by auto
    moreover have "list_all is_digit fp" "length fp \<le> 12" using p(2) unfolding Cons by simp_all
    ultimately show ?thesis using d by blast
  qed
qed

lemma decimalPattern_value:
  assumes "decimalPattern v"
  shows "\<exists>m. rat_SetString v = Some (rat_of_money m) \<and> money_in_range m"
proof -
  obtain neg u where nu: "split_sign v = (neg, u)" by fastforce
  then have st: "storedDecimalPattern u" using assms by (simp add: decimalPattern_def)
  define ip where "ip = takeWhile is_digit u"
  define fp where "fp = tl (dropWhile is_digit u)"
  have p: "list_all is_digit ip" "length ip \<le> 18" "ip \<noteq> []" "list_all is_digit fp" "length fp \<le> 12"
    "u = ip \<and> fp = [] \<or> u = ip @ CHR ''.'' # fp"
    using stored_value [OF st] by (auto simp: ip_def fp_def)
  obtain m where m: "of_nat (nat_of_digits (ip @ fp)) / 10 ^ length fp = rat_of_money (int m)" "m < 10 ^ 30"
    using scaled_money [OF p(1,2,4,5)] by blast
  have "rat_SetString v = Some ((if neg then - 1 else 1) * rat_of_money (int m))"
    using p(6)
  proof
    assume "u = ip \<and> fp = []"
    moreover from this have "takeWhile is_digit ip = ip" "dropWhile is_digit ip = []"
      using p(1) digit_spans(3,4) by auto
    ultimately show ?thesis using p(3) m(1) nu
      by (simp add: rat_SetString_def Let_def del: takeWhile_eq_all_conv dropWhile_eq_Nil_conv)
  next
    assume "u = ip @ CHR ''.'' # fp"
    then show ?thesis using p m nu by (simp add: rat_SetString_def digit_spans)
  qed
  also have "\<dots> = Some (rat_of_money (if neg then - int m else int m))"
    by (simp add: rat_of_money_def)
  finally show ?thesis using m(2) by (auto simp: money_in_range_def)
qed

text \<open>Every text the boundary accepts is a value of the column, and is read back as it stands.\<close>

lemma decimalRat_money:
  assumes "decimalRat d = Inr a"
  obtains m where "a = rat_of_money m" "money_in_range m"
proof -
  from assms have "decimalPattern (TrimSpace d)" "rat_SetString (TrimSpace d) = Some a"
    by (auto simp: decimalRat_def ParseDecimal_def Let_def bindE_Inr split: if_splits option.splits)
  with decimalPattern_value [of "TrimSpace d"] that show ?thesis by auto
qed

lemma ParseDecimal_FloatString_exact:
  assumes "money_in_range m"
  shows "ParseDecimal (FloatString 12 (rat_of_money m)) = Inr (FloatString 12 (rat_of_money m))"
    and "decimalRat (FloatString 12 (rat_of_money m)) = Inr (rat_of_money m)"
  using assms by (simp_all add: ParseDecimal_FloatString12 decimalRat_FloatString12)

lemma money_in_range_rat: "\<bar>rat_of_money k\<bar> < 10 ^ 18 \<longleftrightarrow> money_in_range k"
proof -
  have "\<bar>rat_of_money k\<bar> = of_int \<bar>k\<bar> / 10 ^ 12" by (simp add: rat_of_money_def abs_divide)
  then have "\<bar>rat_of_money k\<bar> < 10 ^ 18 \<longleftrightarrow> (of_int \<bar>k\<bar> :: rat) < of_int (10 ^ 30)"
    unfolding \<open>\<bar>rat_of_money k\<bar> = _\<close> by (subst pos_divide_less_eq) simp_all
  then show ?thesis by (simp only: of_int_less_iff money_in_range_def)
qed

lemma Parse_print:
  assumes "x = rat_of_money k"
  shows "\<bar>x\<bar> < 10 ^ 18 \<and> (\<exists>v. ParseDecimal (FloatString 12 x) = Inr v \<and> decimalRat v = Inr x) \<or>
    10 ^ 18 \<le> \<bar>x\<bar> \<and> ParseDecimal (FloatString 12 x) = Inl ErrInvalidNumeric"
proof (cases "money_in_range k")
  case True
  then show ?thesis using money_in_range_rat [of k] ParseDecimal_FloatString_exact [of k] assms by simp
next
  case False
  then show ?thesis using money_in_range_rat [of k] assms by (simp add: ParseDecimal_FloatString12)
qed

text \<open>C16. \<open>Decimal.Add\<close> and \<open>Decimal.Subtract\<close> are exact: on two valid decimals whose sum
  (difference) fits \<open>NUMERIC(30,12)\<close> they return a valid decimal whose value is the exact sum
  (difference), and outside that range they return the format error, never a wrapped or rounded
  value.\<close>

theorem Decimal_add_sub_exact:
  assumes "decimalRat d = Inr a" "decimalRat e = Inr b"
  shows "(\<bar>a + b\<bar> < 10 ^ 18 \<and> (\<exists>v. Decimal_Add d e = Inr v \<and> decimalRat v = Inr (a + b)) \<or>
          10 ^ 18 \<le> \<bar>a + b\<bar> \<and> Decimal_Add d e = Inl ErrInvalidNumeric) \<and>
         (\<bar>a - b\<bar> < 10 ^ 18 \<and> (\<exists>v. Decimal_Subtract d e = Inr v \<and> decimalRat v = Inr (a - b)) \<or>
          10 ^ 18 \<le> \<bar>a - b\<bar> \<and> Decimal_Subtract d e = Inl ErrInvalidNumeric)"
proof -
  obtain m n where mn: "a = rat_of_money m" "b = rat_of_money n"
    using decimalRat_money assms by metis
  then have "a + b = rat_of_money (m + n)" "a - b = rat_of_money (m - n)" by simp_all
  then show ?thesis
    using Parse_print [of "a + b" "m + n"] Parse_print [of "a - b" "m - n"]
    unfolding Decimal_Add_def Decimal_Subtract_def assms bindE_simps by blast
qed

theorem Decimal_add_sub_exact_witness:
  "\<exists>v. Decimal_Add ''1.5'' ''2.25'' = Inr v \<and> decimalRat v = Inr (15 / 4)"
proof -
  have "decimalRat ''1.5'' = Inr (3 / 2)" "decimalRat ''2.25'' = Inr (9 / 4)" by code_simp+
  from Decimal_add_sub_exact [OF this] show ?thesis by simp
qed

text \<open>C17. \<open>Decimal.Multiply\<close> rounds the exact product once, to the nearest unit: on two valid decimals
  whose rounded product fits the column the result is a valid decimal at distance at most half a
  unit of the exact product, and it is the exact product when that has at most twelve fractional
  digits.\<close>

theorem Decimal_Multiply_nearest:
  assumes "decimalRat d = Inr a" "decimalRat e = Inr b" "money_in_range (round12 (a * b))"
  shows "\<exists>v r. Decimal_Multiply d e = Inr v \<and> decimalRat v = Inr r \<and>
    \<bar>r - a * b\<bar> \<le> 1 / (2 * 10 ^ 12) \<and> (\<forall>m. a * b = rat_of_money m \<longrightarrow> r = a * b)"
  using assms round12_error [of "a * b"]
  by (auto simp: Decimal_Multiply_def ParseDecimal_FloatString12 decimalRat_FloatString12
      abs_minus_commute)

theorem Decimal_Multiply_nearest_witness:
  "\<exists>v r. Decimal_Multiply ''0.000001'' ''0.0000005'' = Inr v \<and> decimalRat v = Inr r \<and>
    \<bar>r - 1 / (2 * 10 ^ 12)\<bar> \<le> 1 / (2 * 10 ^ 12)"
proof -
  have "decimalRat ''0.000001'' = Inr (1 / 1000000)" "decimalRat ''0.0000005'' = Inr (1 / 2000000)"
    "money_in_range (round12 ((1 / 1000000) * (1 / 2000000)))" by code_simp+
  from Decimal_Multiply_nearest [OF this] show ?thesis by auto
qed

end
