(* ===== verification/Pricing.thy ===== *)
theory Pricing
  imports Decimal
begin

text \<open>
  Request pricing: \<^verbatim>\<open>internal/pricing/pricing.go\<close>. A rate card prices input, cached input and
  output tokens per \<open>Unit\<close> tokens and adds a fixed fee; \<open>Calculate\<close> turns a cost card, a retail
  card and token counts into the amounts of a request and \<open>MeetsMinimumMargin\<close> is the guard an
  operator's price must pass. All arithmetic is exact (\<open>big.Rat\<close>, here \<^typ>\<open>rat\<close>); amounts are rounded
  once, when they are printed.

  Token counts are \<open>int64\<close> in the code and \<^typ>\<open>int\<close> here: the only integer operation on them is the
  difference of two non-negative counts, which cannot overflow. The predicate \<open>tokens_int64\<close> says which
  counts the code can be given; where a claim needs counts to exist, they are taken from there.
\<close>

section \<open>Data\<close>

datatype pricing_error = ErrInvalidAmount | ErrNegativeAmount | ErrInvalidUnit
  | ErrTokenCounts | ErrCurrencyCode | ErrExchangeRequired | ErrExchangeNotPositive | ErrMarginBPS
  | NilDereference
  | Wrapped string pricing_error

record Rate =
  Input :: string
  Cached :: string
  Output :: string
  Fixed :: string
  Unit :: int
  Currency :: string

record Tokens =
  InputTokens :: int
  CachedTokens :: int
  OutputTokens :: int

record Result =
  ProviderCost :: string
  RetailAmount :: string
  ExchangeRate :: string
  GrossMargin :: string
  PromotionAmount :: string
  PreTaxAmount :: string
  TaxRate :: string
  TaxAmount :: string
  FinalAmount :: string

section \<open>Validation\<close>

definition currencyPattern :: "string \<Rightarrow> bool" where
  "currencyPattern s = (length s = 3 \<and> list_all (\<lambda>c. let n = (of_char c :: nat) in 65 \<le> n \<and> n \<le> 90) s)"

definition ValidateStoredDecimal :: "string \<Rightarrow> pricing_error option" where
  "ValidateStoredDecimal value =
     (if \<not> storedDecimalPattern (TrimSpace value) then Some ErrInvalidAmount else None)"

definition mustRat :: "string \<Rightarrow> rat option" where
  "mustRat value = rat_SetString (TrimSpace value)"

definition nonNegative :: "string \<Rightarrow> pricing_error + rat" where
  "nonNegative value = (let value = TrimSpace value in
     if value = [] then Inl ErrInvalidAmount
     else case ValidateStoredDecimal value of
         Some err \<Rightarrow> Inl err
       | None \<Rightarrow> (case rat_SetString value of
             None \<Rightarrow> Inl ErrInvalidAmount
           | Some r \<Rightarrow> if r < 0 then Inl ErrNegativeAmount else Inr r))"

fun validateValues :: "string list \<Rightarrow> pricing_error + unit" where
  "validateValues [] = Inr ()"
| "validateValues (value # values) = bindE (nonNegative value) (\<lambda>_. validateValues values)"

definition validateRate :: "Rate \<Rightarrow> pricing_error + unit" where
  "validateRate rate = validateValues [Input rate, Cached rate, Output rate, Fixed rate]"

definition wrapE :: "string \<Rightarrow> pricing_error + 'a \<Rightarrow> pricing_error + 'a" where
  "wrapE what m = (case m of Inl e \<Rightarrow> Inl (Wrapped what e) | Inr x \<Rightarrow> Inr x)"

section \<open>Calculation\<close>

text \<open>\<open>mustRat\<close> returns nil on a text \<open>SetString\<close> refuses, and using it would panic: \<open>None\<close> here.\<close>

definition calculateRate :: "Rate \<Rightarrow> Tokens \<Rightarrow> rat option" where
  "calculateRate rate tokens =
     (case (mustRat (Input rate), mustRat (Cached rate), mustRat (Output rate), mustRat (Fixed rate)) of
        (Some input, Some cached, Some output, Some fixed) \<Rightarrow>
          (let nonCached = InputTokens tokens - CachedTokens tokens;
               tokensAmount = of_int nonCached * input;
               tokensAmount = tokensAmount + of_int (CachedTokens tokens) * cached;
               tokensAmount = tokensAmount + of_int (OutputTokens tokens) * output
           in Some (fixed + tokensAmount / of_int (Unit rate)))
      | _ \<Rightarrow> None)"

definition normalizeCurrency :: "Rate \<Rightarrow> Rate" where
  "normalizeCurrency rate = rate\<lparr>Currency := ToUpper (TrimSpace (Currency rate))\<rparr>"

text \<open>The second half of \<open>Calculate\<close>: the amounts, from the validated inputs.\<close>

definition calculateAmounts :: "rat \<Rightarrow> rat \<Rightarrow> rat \<Rightarrow> rat \<Rightarrow> rat \<Rightarrow> Result" where
  "calculateAmounts providerCost retailAmount promo tax rate =
     (let convertedCost = providerCost * rate;
          margin = retailAmount - convertedCost;
          promo = (if promo > retailAmount then retailAmount else promo);
          preTax = retailAmount - promo;
          preTax = (if preTax < 0 then 0 else preTax);
          taxAmount = preTax * tax;
          finalAmount = preTax + taxAmount
      in \<lparr>ProviderCost = formatRat providerCost, RetailAmount = formatRat retailAmount,
          ExchangeRate = formatRat rate, GrossMargin = formatRat margin,
          PromotionAmount = formatRat promo, PreTaxAmount = formatRat preTax,
          TaxRate = formatRat tax, TaxAmount = formatRat taxAmount, FinalAmount = formatRat finalAmount\<rparr>)"

definition Calculate ::
  "Rate \<Rightarrow> Rate \<Rightarrow> Tokens \<Rightarrow> string \<Rightarrow> string \<Rightarrow> string \<Rightarrow> pricing_error + Result" where
  "Calculate cost retail tokens promotion taxRate exchangeRate =
     (if InputTokens tokens < 0 \<or> CachedTokens tokens < 0 \<or> OutputTokens tokens < 0
         \<or> CachedTokens tokens > InputTokens tokens then Inl ErrTokenCounts
      else if Unit cost \<le> 0 \<or> Unit retail \<le> 0 then Inl ErrInvalidUnit
      else let cost = normalizeCurrency cost; retail = normalizeCurrency retail in
      if \<not> currencyPattern (Currency cost) \<or> \<not> currencyPattern (Currency retail) then Inl ErrCurrencyCode
      else if Currency cost \<noteq> Currency retail \<and> TrimSpace exchangeRate = [] then Inl ErrExchangeRequired
      else let exchangeRate = oneIfEmpty exchangeRate;
               promotion = zeroIfEmpty promotion;
               taxRate = zeroIfEmpty taxRate in
      bindE (wrapE ''cost rate'' (validateRate cost)) (\<lambda>_.
      bindE (wrapE ''retail rate'' (validateRate retail)) (\<lambda>_.
      bindE (wrapE ''promotion'' (nonNegative promotion)) (\<lambda>promo.
      bindE (wrapE ''tax rate'' (nonNegative taxRate)) (\<lambda>tax.
      bindE (wrapE ''exchange rate'' (nonNegative exchangeRate)) (\<lambda>rate.
      if rate = 0 then Inl ErrExchangeNotPositive
      else case (calculateRate cost tokens, calculateRate retail tokens) of
          (Some providerCost, Some retailAmount) \<Rightarrow> Inr (calculateAmounts providerCost retailAmount promo tax rate)
        | _ \<Rightarrow> Inl NilDereference))))))"

section \<open>The margin guard\<close>

text \<open>One iteration of the loop: the margin of one line of the two cards, and the running lowest
  margin (\<open>None\<close> before the first line) and verdict.\<close>

definition marginStep ::
  "rat \<Rightarrow> rat \<Rightarrow> int \<Rightarrow> int \<Rightarrow> rat \<Rightarrow> nat \<times> rat \<times> rat \<Rightarrow> rat option \<times> bool \<Rightarrow> rat option \<times> bool" where
  "marginStep exchange factor costUnit retailUnit minAmount line acc =
     (let (index, c, r) = line; (lowest, ok) = acc;
          c = (if index < 3 then c / of_int costUnit else c);
          r = (if index < 3 then r / of_int retailUnit else r);
          required = c * exchange;
          required = required * factor;
          required = (if index = 3 then required + minAmount else required);
          margin = r - required
      in (case lowest of None \<Rightarrow> Some margin | Some l \<Rightarrow> Some (if margin < l then margin else l),
          ok \<and> \<not> margin < 0))"

definition marginLines :: "Rate \<Rightarrow> Rate \<Rightarrow> (nat \<times> rat \<times> rat) list option" where
  "marginLines cost retail =
     (case (mustRat (Input cost), mustRat (Cached cost), mustRat (Output cost), mustRat (Fixed cost),
            mustRat (Input retail), mustRat (Cached retail), mustRat (Output retail), mustRat (Fixed retail)) of
        (Some ci, Some cc, Some co, Some cf, Some ri, Some rc, Some ro, Some rf) \<Rightarrow>
          Some [(0, ci, ri), (1, cc, rc), (2, co, ro), (3, cf, rf)]
      | _ \<Rightarrow> None)"

definition MeetsMinimumMargin ::
  "Rate \<Rightarrow> Rate \<Rightarrow> string \<Rightarrow> int \<Rightarrow> string \<Rightarrow> pricing_error + bool \<times> string" where
  "MeetsMinimumMargin cost retail minimumAmount minimumBPS exchangeRate =
     (let exchangeRate = oneIfEmpty exchangeRate in
      if Unit cost \<le> 0 \<or> Unit retail \<le> 0 then Inl ErrInvalidUnit
      else let cost = normalizeCurrency cost; retail = normalizeCurrency retail in
      if \<not> currencyPattern (Currency cost) \<or> \<not> currencyPattern (Currency retail) then Inl ErrCurrencyCode
      else if Currency cost \<noteq> Currency retail \<and> TrimSpace exchangeRate = [] then Inl ErrExchangeRequired
      else
      bindE (validateRate cost) (\<lambda>_.
      bindE (validateRate retail) (\<lambda>_.
      bindE (nonNegative minimumAmount) (\<lambda>minAmount.
      if minimumBPS < 0 then Inl ErrMarginBPS
      else bindE (nonNegative exchangeRate) (\<lambda>exchange.
      if exchange = 0 then Inl ErrExchangeNotPositive
      else let factor = 1 + of_int minimumBPS / 10000 in
        case marginLines cost retail of None \<Rightarrow> Inl NilDereference
        | Some lines \<Rightarrow>
            (let (lowest, ok) = fold (marginStep exchange factor (Unit cost) (Unit retail) minAmount) lines (None, True)
             in Inr (ok, case lowest of None \<Rightarrow> ''0'' | Some l \<Rightarrow> formatRat l)))))))"


section \<open>What a card charges\<close>

definition cardPrice :: "rat \<Rightarrow> rat \<Rightarrow> rat \<Rightarrow> rat \<Rightarrow> int \<Rightarrow> Tokens \<Rightarrow> rat" where
  "cardPrice i c out f u t = f + (of_int (InputTokens t - CachedTokens t) * i
     + of_int (CachedTokens t) * c + of_int (OutputTokens t) * out) / of_int u"

definition tokens_ok :: "Tokens \<Rightarrow> bool" where
  "tokens_ok t \<longleftrightarrow> 0 \<le> CachedTokens t \<and> CachedTokens t \<le> InputTokens t \<and> 0 \<le> OutputTokens t"

text \<open>The valid counts of the code's type.\<close>

definition tokens_int64 :: "Tokens \<Rightarrow> bool" where
  "tokens_int64 t \<longleftrightarrow> tokens_ok t \<and> InputTokens t < 2 ^ 63 \<and> OutputTokens t < 2 ^ 63"

definition noTokens :: Tokens where
  "noTokens = \<lparr>InputTokens = 0, CachedTokens = 0, OutputTokens = 0\<rparr>"

text \<open>More tokens of each class: uncached input, cached input, output.\<close>

definition tokens_le :: "Tokens \<Rightarrow> Tokens \<Rightarrow> bool" where
  "tokens_le s t \<longleftrightarrow> InputTokens s - CachedTokens s \<le> InputTokens t - CachedTokens t \<and>
     CachedTokens s \<le> CachedTokens t \<and> OutputTokens s \<le> OutputTokens t"

definition exampleCost :: Rate where
  "exampleCost = \<lparr>Input = ''1'', Cached = ''0.5'', Output = ''2'', Fixed = ''0'', Unit = 1000, Currency = ''usd''\<rparr>"

definition exampleRetail :: Rate where
  "exampleRetail = \<lparr>Input = ''3'', Cached = ''1'', Output = ''6'', Fixed = ''0.01'', Unit = 1000, Currency = ''USD ''\<rparr>"

definition exampleTokens :: Tokens where
  "exampleTokens = \<lparr>InputTokens = 1500, CachedTokens = 500, OutputTokens = 100\<rparr>"

section \<open>Lemmas\<close>

lemma TrimSpace_idem [simp]: "TrimSpace (TrimSpace s) = TrimSpace s"
proof -
  have d: "dropWhile P (rev (dropWhile P (rev (dropWhile P t)))) = rev (dropWhile P (rev (dropWhile P t)))"
    for P :: "char \<Rightarrow> bool" and t
  proof (cases "dropWhile P t")
    case (Cons c r)
    then have c: "\<not> P c" by (metis hd_dropWhile list.distinct(1) list.sel(1))
    then have "rev (dropWhile P (rev (c # r))) = c # rev (dropWhile P (rev r))"
      by (induction r rule: rev_induct) (auto simp: dropWhile_append)
    then show ?thesis using Cons c by simp
  qed (simp del: dropWhile_eq_Nil_conv)
  show ?thesis unfolding TrimSpace_def by (simp add: d)
qed

lemma storedDecimalPattern_decimalPattern: "storedDecimalPattern v \<Longrightarrow> split_sign v = (False, v)"
  by (cases v) (auto simp: storedDecimalPattern_def split_sign_def is_digit_def Let_def)

lemma unsigned_value: "split_sign v = (False, v) \<Longrightarrow> rat_SetString v = Some x \<Longrightarrow> 0 \<le> x"
  by (auto simp: rat_SetString_def Let_def split: if_splits)

lemma storedDecimalPattern_value:
  assumes "storedDecimalPattern v"
  obtains m where "rat_SetString v = Some (rat_of_money m)" "0 \<le> m" "money_in_range m"
proof -
  have s: "split_sign v = (False, v)" using storedDecimalPattern_decimalPattern [OF assms] .
  then have "decimalPattern v" using assms by (simp add: decimalPattern_def)
  then obtain m where m: "rat_SetString v = Some (rat_of_money m)" "money_in_range m"
    using decimalPattern_value by blast
  then have "0 \<le> rat_of_money m" using unsigned_value [OF s] by blast
  then have "0 \<le> m" using rat_of_money_less(2) [of 0 m] by simp
  with m show ?thesis using that by blast
qed

lemma nonNegative_Inr:
  "nonNegative v = Inr r \<longleftrightarrow> storedDecimalPattern (TrimSpace v) \<and> mustRat v = Some r"
proof (cases "storedDecimalPattern (TrimSpace v)")
  case True
  then have "TrimSpace v \<noteq> []" by (auto simp: storedDecimalPattern_def)
  moreover obtain m where "rat_SetString (TrimSpace v) = Some (rat_of_money m)" "0 \<le> m"
    using storedDecimalPattern_value [OF True] by blast
  moreover from this have "\<not> rat_of_money m < 0" using rat_of_money_less(1) [of m 0] by simp
  ultimately show ?thesis using True
    by (simp add: nonNegative_def Let_def ValidateStoredDecimal_def mustRat_def)
qed (simp add: nonNegative_def Let_def ValidateStoredDecimal_def)

lemma nonNegative_value:
  assumes "nonNegative v = Inr r"
  obtains m where "mustRat v = Some r" "r = rat_of_money m" "0 \<le> m" "money_in_range m" "0 \<le> r"
proof -
  from assms have p: "storedDecimalPattern (TrimSpace v)" "mustRat v = Some r" by (simp_all add: nonNegative_Inr)
  then obtain m where m: "r = rat_of_money m" "0 \<le> m" "money_in_range m"
    using storedDecimalPattern_value [OF p(1)] by (metis mustRat_def option.inject)
  then have "0 \<le> r" using rat_of_money_less(2) [of 0 m] by simp
  then show ?thesis using that p m by blast
qed

text \<open>The four prices of a validated card, and what it charges.\<close>

lemma validateRate_Inr:
  assumes "validateRate rate = Inr u"
  obtains i c out f where "mustRat (Input rate) = Some i" "mustRat (Cached rate) = Some c"
    "mustRat (Output rate) = Some out" "mustRat (Fixed rate) = Some f" "0 \<le> i" "0 \<le> c" "0 \<le> out" "0 \<le> f"
  using assms by (auto simp: validateRate_def elim!: nonNegative_value)

lemma calculateRate_cardPrice:
  "\<lbrakk>mustRat (Input rate) = Some i; mustRat (Cached rate) = Some c; mustRat (Output rate) = Some out;
    mustRat (Fixed rate) = Some f\<rbrakk> \<Longrightarrow> calculateRate rate t = Some (cardPrice i c out f (Unit rate) t)"
  by (simp add: calculateRate_def cardPrice_def Let_def)

lemma cardPrice_mono:
  assumes "0 \<le> i" "0 \<le> c" "0 \<le> out" "0 < u" "tokens_le s t"
  shows "cardPrice i c out f u s \<le> cardPrice i c out f u t"
  using assms unfolding cardPrice_def tokens_le_def
  by (intro add_left_mono divide_right_mono add_mono mult_right_mono) (simp_all only: of_int_le_iff of_int_0_le_iff less_imp_le)

lemma cardPrice_nonneg:
  assumes "0 \<le> i" "0 \<le> c" "0 \<le> out" "0 \<le> f" "0 < u" "tokens_ok t"
  shows "0 \<le> cardPrice i c out f u t"
  using assms unfolding cardPrice_def tokens_ok_def
  by (intro add_nonneg_nonneg divide_nonneg_nonneg mult_nonneg_nonneg) simp_all

lemma wrapE_Inr [simp]: "wrapE w m = Inr x \<longleftrightarrow> m = Inr x"
  by (auto simp: wrapE_def split: sum.splits)

lemma wrapE_Inl [simp]: "wrapE w m = Inl e \<longleftrightarrow> (\<exists>e'. m = Inl e' \<and> e = Wrapped w e')"
  by (auto simp: wrapE_def split: sum.splits)

lemma bindE_Inl: "bindE m f = Inl e \<longleftrightarrow> m = Inl e \<or> (\<exists>x. m = Inr x \<and> f x = Inl e)"
  by (auto simp: bindE_def split: sum.splits)

lemma normalizeCurrency_simps [simp]:
  "Input (normalizeCurrency r) = Input r" "Cached (normalizeCurrency r) = Cached r"
  "Output (normalizeCurrency r) = Output r" "Fixed (normalizeCurrency r) = Fixed r"
  "Unit (normalizeCurrency r) = Unit r" "validateRate (normalizeCurrency r) = validateRate r"
  "calculateRate (normalizeCurrency r) t = calculateRate r t"
  "marginLines (normalizeCurrency r) q = marginLines r q" "marginLines q (normalizeCurrency r) = marginLines q r"
  by (simp_all add: normalizeCurrency_def validateRate_def calculateRate_def marginLines_def Let_def split: option.split)

lemma Calculate_Inr:
  assumes "Calculate cost retail t promotion tax ex = Inr res"
  obtains pc ra p tx x where "tokens_ok t" "0 < Unit cost" "0 < Unit retail"
    "validateRate cost = Inr ()" "validateRate retail = Inr ()"
    "nonNegative (zeroIfEmpty promotion) = Inr p" "nonNegative (zeroIfEmpty tax) = Inr tx"
    "nonNegative (oneIfEmpty ex) = Inr x" "x \<noteq> 0"
    "calculateRate cost t = Some pc" "calculateRate retail t = Some ra"
    "res = calculateAmounts pc ra p tx x"
  using assms
  by (auto simp: Calculate_def Let_def tokens_ok_def split: if_splits option.splits)


lemma Calculate_valid:
  assumes "tokens_ok t" "0 < Unit cost" "0 < Unit retail"
    "currencyPattern (ToUpper (TrimSpace (Currency cost)))" "currencyPattern (ToUpper (TrimSpace (Currency retail)))"
    "ToUpper (TrimSpace (Currency cost)) = ToUpper (TrimSpace (Currency retail)) \<or> TrimSpace ex \<noteq> []"
    "validateRate cost = Inr ()" "validateRate retail = Inr ()"
    "nonNegative (zeroIfEmpty promotion) = Inr p" "nonNegative (zeroIfEmpty tax) = Inr tx"
    "nonNegative (oneIfEmpty ex) = Inr x" "x \<noteq> 0"
  shows "\<exists>pc ra. calculateRate cost t = Some pc \<and> calculateRate retail t = Some ra \<and>
    Calculate cost retail t promotion tax ex = Inr (calculateAmounts pc ra p tx x)"
proof -
  obtain pc where "calculateRate cost t = Some pc"
    using validateRate_Inr [OF assms(7)] calculateRate_cardPrice by metis
  moreover obtain ra where "calculateRate retail t = Some ra"
    using validateRate_Inr [OF assms(8)] calculateRate_cardPrice by metis
  moreover have "Currency (normalizeCurrency r) = ToUpper (TrimSpace (Currency r))" for r
    by (simp add: normalizeCurrency_def)
  ultimately show ?thesis using assms
    by (auto simp: Calculate_def Let_def tokens_ok_def wrapE_def)
qed

lemma Calculate_currencies:
  assumes "Calculate cost retail t promotion tax ex = Inr res"
  shows "currencyPattern (ToUpper (TrimSpace (Currency cost))) \<and> currencyPattern (ToUpper (TrimSpace (Currency retail))) \<and>
    (ToUpper (TrimSpace (Currency cost)) = ToUpper (TrimSpace (Currency retail)) \<or> TrimSpace ex \<noteq> [])"
  using assms by (auto simp: Calculate_def Let_def normalizeCurrency_def split: if_splits)

lemma calculateRate_nonneg:
  assumes "validateRate rate = Inr ()" "0 < Unit rate" "tokens_ok t" "calculateRate rate t = Some a"
  shows "0 \<le> a"
  using assms(1)
proof (rule validateRate_Inr)
  fix i c out f assume h: "mustRat (Input rate) = Some i" "mustRat (Cached rate) = Some c"
    "mustRat (Output rate) = Some out" "mustRat (Fixed rate) = Some f" "0 \<le> i" "0 \<le> c" "0 \<le> out" "0 \<le> f"
  then show ?thesis using calculateRate_cardPrice [OF h(1-4), of t] cardPrice_nonneg [of i c out f "Unit rate" t] assms by simp
qed

lemma calculateRate_mono:
  assumes "validateRate rate = Inr ()" "0 < Unit rate" "tokens_le s t"
    "calculateRate rate s = Some a" "calculateRate rate t = Some b"
  shows "a \<le> b"
  using assms(1)
proof (rule validateRate_Inr)
  fix i c out f assume h: "mustRat (Input rate) = Some i" "mustRat (Cached rate) = Some c"
    "mustRat (Output rate) = Some out" "mustRat (Fixed rate) = Some f" "0 \<le> i" "0 \<le> c" "0 \<le> out" "0 \<le> f"
  then show ?thesis
    using calculateRate_cardPrice [OF h(1-4)] cardPrice_mono [of i c out "Unit rate" s t f] assms by simp
qed

lemma calculateAmounts_values:
  assumes "0 \<le> p" "0 \<le> ra"
  shows "rat_SetString (FinalAmount (calculateAmounts pc ra p tx x)) = Some (rat_of_money (round12 ((ra - min p ra) * (1 + tx))))"
    "rat_SetString (PreTaxAmount (calculateAmounts pc ra p tx x)) = Some (rat_of_money (round12 (ra - min p ra)))"
    "rat_SetString (TaxAmount (calculateAmounts pc ra p tx x)) = Some (rat_of_money (round12 ((ra - min p ra) * tx)))"
    "rat_SetString (PromotionAmount (calculateAmounts pc ra p tx x)) = Some (rat_of_money (round12 (min p ra)))"
    "rat_SetString (GrossMargin (calculateAmounts pc ra p tx x)) = Some (rat_of_money (round12 (ra - pc * x)))"
    "rat_SetString (ProviderCost (calculateAmounts pc ra p tx x)) = Some (rat_of_money (round12 pc))"
    "rat_SetString (RetailAmount (calculateAmounts pc ra p tx x)) = Some (rat_of_money (round12 ra))"
  using assms by (simp_all add: calculateAmounts_def Let_def SetString_formatRat min_def algebra_simps)

lemma charge_mono: "a \<le> b \<Longrightarrow> 0 \<le> tx \<Longrightarrow> (a - min p a) * (1 + tx) \<le> (b - min p b) * (1 + tx)" for a b p tx :: rat
  by (intro mult_right_mono) (auto simp: min_def)

text \<open>A linear form in the three token counts of a request: it starts at or above zero and never falls
  exactly when its coefficients are not negative.\<close>

definition linear :: "rat \<Rightarrow> rat \<Rightarrow> rat \<Rightarrow> rat \<Rightarrow> Tokens \<Rightarrow> rat" where
  "linear f a b d t = f + of_int (InputTokens t - CachedTokens t) * a + of_int (CachedTokens t) * b + of_int (OutputTokens t) * d"

lemma linear_mono: "tokens_le s t \<Longrightarrow> 0 \<le> a \<Longrightarrow> 0 \<le> b \<Longrightarrow> 0 \<le> d \<Longrightarrow> linear f a b d s \<le> linear f a b d t"
  unfolding linear_def tokens_le_def by (intro add_mono mult_right_mono) (simp_all only: of_int_le_iff order_refl)

lemma linear_noTokens: "linear f a b d noTokens = f"
  by (simp add: linear_def noTokens_def)

lemma noTokens_le: "tokens_ok t \<Longrightarrow> tokens_le noTokens t"
  by (simp add: tokens_ok_def tokens_le_def noTokens_def)

lemma linear_iff: "0 \<le> f \<and> 0 \<le> a \<and> 0 \<le> b \<and> 0 \<le> d \<longleftrightarrow> 0 \<le> linear f a b d noTokens \<and>
    (\<forall>s t. tokens_int64 s \<and> tokens_int64 t \<and> tokens_le s t \<longrightarrow> linear f a b d s \<le> linear f a b d t)" (is "_ \<longleftrightarrow> _ \<and> ?mono")
proof
  assume "0 \<le> f \<and> 0 \<le> a \<and> 0 \<le> b \<and> 0 \<le> d"
  then show "0 \<le> linear f a b d noTokens \<and> ?mono" by (simp add: linear_noTokens linear_mono)
next
  assume h: "0 \<le> linear f a b d noTokens \<and> ?mono"
  have one: "f \<le> linear f a b d t" if "tokens_int64 t" for t
  proof -
    have "tokens_int64 noTokens" by (simp add: tokens_int64_def tokens_ok_def noTokens_def)
    with h noTokens_le that show ?thesis by (metis linear_noTokens tokens_int64_def)
  qed
  show "0 \<le> f \<and> 0 \<le> a \<and> 0 \<le> b \<and> 0 \<le> d"
    using h one [of "noTokens\<lparr>InputTokens := 1\<rparr>"] one [of "noTokens\<lparr>InputTokens := 1, CachedTokens := 1\<rparr>"]
      one [of "noTokens\<lparr>OutputTokens := 1\<rparr>"]
    by (simp add: linear_def noTokens_def tokens_int64_def tokens_ok_def)
qed

lemma cardPrice_margin:
  assumes "0 < cu" "0 < ru"
  shows "cardPrice ri rc ro rf ru t - (cardPrice ci cc co cf cu t * x * F + m) =
    linear (rf - (cf * x * F + m)) (ri / of_int ru - ci / of_int cu * x * F) (rc / of_int ru - cc / of_int cu * x * F)
      (ro / of_int ru - co / of_int cu * x * F) t"
  using assms by (simp add: linear_def cardPrice_def add_divide_distrib diff_divide_distrib algebra_simps)

lemma MeetsMinimumMargin_Inr:
  assumes "MeetsMinimumMargin cost retail minA bps ex = Inr (ok, low)"
  obtains m x lines where "0 < Unit cost" "0 < Unit retail" "validateRate cost = Inr ()" "validateRate retail = Inr ()"
    "nonNegative minA = Inr m" "0 \<le> bps" "nonNegative (oneIfEmpty ex) = Inr x" "x \<noteq> 0"
    "marginLines cost retail = Some lines"
    "ok = snd (fold (marginStep x (1 + of_int bps / 10000) (Unit cost) (Unit retail) m) lines (None, True))"
  using assms
  by (cases "marginLines cost retail") (auto simp: MeetsMinimumMargin_def Let_def case_prod_beta split: if_splits)

section \<open>Properties\<close>

text \<open>C2. What \<open>Calculate\<close> charges: on success the two cards were priced exactly, the promotion is capped
  at the retail amount, and every printed amount is the exact value rounded once to twelve digits:
  the final amount is (retail - promotion) (1 + tax), the margin is retail - cost times the exchange
  rate. The amounts are not negative.\<close>

theorem Calculate_amounts:
  assumes "Calculate cost retail t promotion tax ex = Inr res"
  shows "\<exists>pc ra p tx x. calculateRate cost t = Some pc \<and> calculateRate retail t = Some ra \<and>
    nonNegative (zeroIfEmpty promotion) = Inr p \<and> nonNegative (zeroIfEmpty tax) = Inr tx \<and>
    nonNegative (oneIfEmpty ex) = Inr x \<and> 0 \<le> pc \<and> 0 \<le> ra \<and> 0 < x \<and>
    rat_SetString (FinalAmount res) = Some (rat_of_money (round12 ((ra - min p ra) * (1 + tx)))) \<and>
    0 \<le> (ra - min p ra) * (1 + tx) \<and>
    rat_SetString (PreTaxAmount res) = Some (rat_of_money (round12 (ra - min p ra))) \<and>
    rat_SetString (TaxAmount res) = Some (rat_of_money (round12 ((ra - min p ra) * tx))) \<and>
    rat_SetString (PromotionAmount res) = Some (rat_of_money (round12 (min p ra))) \<and>
    rat_SetString (GrossMargin res) = Some (rat_of_money (round12 (ra - pc * x)))"
  using assms
proof (rule Calculate_Inr)
  fix pc ra p tx x
  assume h: "tokens_ok t" "0 < Unit cost" "0 < Unit retail"
    "validateRate cost = Inr ()" "validateRate retail = Inr ()"
    "nonNegative (zeroIfEmpty promotion) = Inr p" "nonNegative (zeroIfEmpty tax) = Inr tx"
    "nonNegative (oneIfEmpty ex) = Inr x" "x \<noteq> 0"
    "calculateRate cost t = Some pc" "calculateRate retail t = Some ra"
    "res = calculateAmounts pc ra p tx x"
  have n: "0 \<le> p" "0 \<le> tx" "0 \<le> x" using h(6-8) nonNegative_value by metis+
  have "0 \<le> pc" "0 \<le> ra" using h calculateRate_nonneg by blast+
  moreover have "0 \<le> (ra - min p ra) * (1 + tx)" using n by (intro mult_nonneg_nonneg) simp_all
  ultimately show ?thesis using h n calculateAmounts_values [of p ra pc tx x] by (metis order_le_less)
qed

text \<open>A pair of cards the witnesses use.\<close>

lemma exampleCards:
  "validateRate exampleCost = Inr ()" "validateRate exampleRetail = Inr ()"
  "currencyPattern (ToUpper (TrimSpace (Currency exampleCost)))"
  "currencyPattern (ToUpper (TrimSpace (Currency exampleRetail)))"
  "ToUpper (TrimSpace (Currency exampleCost)) = ToUpper (TrimSpace (Currency exampleRetail))"
  "tokens_ok exampleTokens" "0 < Unit exampleCost" "0 < Unit exampleRetail"
  "nonNegative (zeroIfEmpty ''0.11'') = Inr (11 / 100)" "nonNegative (zeroIfEmpty ''0.1'') = Inr (1 / 10)"
  "nonNegative (zeroIfEmpty []) = Inr 0" "nonNegative (oneIfEmpty []) = Inr 1"
  "calculateRate exampleCost exampleTokens = Some (29 / 20)"
  "calculateRate exampleRetail exampleTokens = Some (411 / 100)"
  by code_simp+

lemma exampleCalculate:
  assumes "tokens_ok t"
  shows "\<exists>res. Calculate exampleCost exampleRetail t ''0.11'' ''0.1'' [] = Inr res"
  using Calculate_valid [OF assms exampleCards(7,8,3,4) disjI1 [OF exampleCards(5)] exampleCards(1,2,9,10,12)] by auto

theorem Calculate_amounts_witness:
  "\<exists>res. Calculate exampleCost exampleRetail exampleTokens ''0.11'' ''0.1'' [] = Inr res \<and>
    rat_SetString (FinalAmount res) = Some (22 / 5) \<and> rat_SetString (GrossMargin res) = Some (133 / 50)"
proof -
  obtain res where r: "Calculate exampleCost exampleRetail exampleTokens ''0.11'' ''0.1'' [] = Inr res"
    using exampleCalculate exampleCards(6) by blast
  have "round12 (22 / 5) = 4400000000000" "round12 (133 / 50) = 2660000000000"
    by (simp_all add: round12_def abs_units_def floor_eq_iff)
  with Calculate_amounts [OF r, unfolded exampleCards sum.inject option.inject] r show ?thesis
    by clarify (simp add: rat_of_money_def min_def)
qed

text \<open>C15. Prices are monotone: with the same cards and policy, more tokens of every class never lower
  the final amount, and whether \<open>Calculate\<close> succeeds does not depend on the token counts once they
  are valid.\<close>

theorem Calculate_mono:
  assumes "Calculate cost retail s promotion tax ex = Inr res" "tokens_ok t" "tokens_le s t"
  shows "\<exists>res' a b. Calculate cost retail t promotion tax ex = Inr res' \<and>
    rat_SetString (FinalAmount res) = Some a \<and> rat_SetString (FinalAmount res') = Some b \<and> a \<le> b"
  using assms(1)
proof (rule Calculate_Inr)
  fix pc ra p tx x
  assume h: "tokens_ok s" "0 < Unit cost" "0 < Unit retail"
    "validateRate cost = Inr ()" "validateRate retail = Inr ()"
    "nonNegative (zeroIfEmpty promotion) = Inr p" "nonNegative (zeroIfEmpty tax) = Inr tx"
    "nonNegative (oneIfEmpty ex) = Inr x" "x \<noteq> 0"
    "calculateRate cost s = Some pc" "calculateRate retail s = Some ra"
    "res = calculateAmounts pc ra p tx x"
  have c: "currencyPattern (ToUpper (TrimSpace (Currency cost)))" "currencyPattern (ToUpper (TrimSpace (Currency retail)))"
    "ToUpper (TrimSpace (Currency cost)) = ToUpper (TrimSpace (Currency retail)) \<or> TrimSpace ex \<noteq> []"
    using Calculate_currencies [OF assms(1)] by auto
  obtain pc' ra' where v: "calculateRate retail t = Some ra'"
    "Calculate cost retail t promotion tax ex = Inr (calculateAmounts pc' ra' p tx x)"
    using Calculate_valid [OF assms(2) h(2,3) c h(4-9)] by blast
  have n: "0 \<le> p" "0 \<le> tx" using h(6,7) nonNegative_value by metis+
  have r: "0 \<le> ra" "0 \<le> ra'" using h v assms(2) calculateRate_nonneg by blast+
  have "ra \<le> ra'" using calculateRate_mono [OF h(5,3) assms(3) h(11) v(1)] .
  then have "round12 ((ra - min p ra) * (1 + tx)) \<le> round12 ((ra' - min p ra') * (1 + tx))"
    by (intro round12_mono charge_mono n)
  then show ?thesis
    using v(2) h(12) calculateAmounts_values(1) [OF n(1)] r by simp
qed

theorem Calculate_mono_witness:
  "\<exists>res res' a b. Calculate exampleCost exampleRetail exampleTokens ''0.11'' ''0.1'' [] = Inr res \<and>
    Calculate exampleCost exampleRetail (exampleTokens\<lparr>OutputTokens := 101\<rparr>) ''0.11'' ''0.1'' [] = Inr res' \<and>
    rat_SetString (FinalAmount res) = Some a \<and> rat_SetString (FinalAmount res') = Some b \<and> a \<le> b"
proof -
  obtain res where r: "Calculate exampleCost exampleRetail exampleTokens ''0.11'' ''0.1'' [] = Inr res"
    using exampleCalculate exampleCards(6) by blast
  have "tokens_ok (exampleTokens\<lparr>OutputTokens := 101\<rparr>)" "tokens_le exampleTokens (exampleTokens\<lparr>OutputTokens := 101\<rparr>)"
    by (simp_all add: tokens_ok_def tokens_le_def exampleTokens_def)
  from Calculate_mono [OF r this] r show ?thesis by blast
qed

lemma exampleMargin:
  "\<exists>low. MeetsMinimumMargin exampleCost exampleRetail ''0.01'' 2000 [] = Inr (True, low)"
  "\<exists>low. MeetsMinimumMargin (exampleCost\<lparr>Currency := ''EUR''\<rparr>) exampleRetail ''0.01'' 2000 [] = Inr (True, low)"
proof -
  have l: "marginLines exampleCost exampleRetail = Some [(0, 1, 3), (1, 1 / 2, 1), (2, 2, 6), (3, 0, 1 / 100)]"
    "nonNegative ''0.01'' = Inr (1 / 100)" "currencyPattern (ToUpper (TrimSpace ''EUR''))" by code_simp+
  have f: "snd (fold (marginStep 1 (1 + of_int 2000 / 10000) (Unit exampleCost) (Unit exampleRetail) (1 / 100))
      [(0, 1, 3), (1, 1 / 2, 1), (2, 2, 6), (3, 0, 1 / 100)] (None, True))"
    by (simp add: marginStep_def exampleCost_def exampleRetail_def)
  have c: "Currency (normalizeCurrency r) = ToUpper (TrimSpace (Currency r))" for r
    by (simp add: normalizeCurrency_def)
  have e: "marginLines (exampleCost\<lparr>Currency := ''EUR''\<rparr>) exampleRetail = marginLines exampleCost exampleRetail"
    "validateRate (exampleCost\<lparr>Currency := ''EUR''\<rparr>) = validateRate exampleCost"
    by (simp_all add: marginLines_def validateRate_def)
  have o: "TrimSpace (oneIfEmpty []) \<noteq> []" by code_simp
  show "\<exists>low. MeetsMinimumMargin exampleCost exampleRetail ''0.01'' 2000 [] = Inr (True, low)"
    unfolding MeetsMinimumMargin_def Let_def case_prod_beta normalizeCurrency_simps c
    using exampleCards(1-5,7,8,12) l f by simp
  show "\<exists>low. MeetsMinimumMargin (exampleCost\<lparr>Currency := ''EUR''\<rparr>) exampleRetail ''0.01'' 2000 [] = Inr (True, low)"
    unfolding MeetsMinimumMargin_def Let_def case_prod_beta normalizeCurrency_simps c e
    using exampleCards(1-4,7,8,12) l f o by simp
qed

text \<open>Validation fails with an amount error only.\<close>

lemma nonNegative_error: "nonNegative v \<noteq> Inl ErrExchangeRequired \<and> nonNegative v \<noteq> Inl NilDereference"
  by (auto simp: nonNegative_def Let_def ValidateStoredDecimal_def split: option.splits)

lemma validateRate_error: "validateRate r \<noteq> Inl ErrExchangeRequired \<and> validateRate r \<noteq> Inl NilDereference"
proof -
  have "validateValues vs \<noteq> Inl ErrExchangeRequired \<and> validateValues vs \<noteq> Inl NilDereference" for vs
    by (induction vs) (use nonNegative_error in \<open>auto simp: bindE_def split: sum.splits\<close>)
  then show ?thesis unfolding validateRate_def by blast
qed

text \<open>C1. What the margin guard guarantees. The surplus of a request is its retail price minus the
  converted cost raised by the percentage and minus the absolute minimum. If \<open>MeetsMinimumMargin\<close>
  accepts two cards, no request whose token counts are \<open>int64\<close> has a negative surplus. It accepts
  exactly when the request without tokens has no negative surplus and no token lowers the surplus: if
  it refuses, the former misses the margin or some request has a smaller surplus than one with fewer
  tokens. The guard only looks at the four lines of the cards.\<close>

theorem MeetsMinimumMargin_guarantee:
  assumes "MeetsMinimumMargin cost retail minA bps ex = Inr (ok, low)"
  shows "\<exists>m x surplus. nonNegative minA = Inr m \<and> nonNegative (oneIfEmpty ex) = Inr x \<and>
    (\<forall>t. tokens_int64 t \<longrightarrow> (\<exists>pc ra. calculateRate cost t = Some pc \<and> calculateRate retail t = Some ra \<and>
       surplus t = ra - (pc * x * (1 + of_int bps / 10000) + m))) \<and>
    (ok \<longrightarrow> (\<forall>t. tokens_int64 t \<longrightarrow> 0 \<le> surplus t)) \<and>
    (ok \<longleftrightarrow> 0 \<le> surplus noTokens \<and>
       (\<forall>s t. tokens_int64 s \<and> tokens_int64 t \<and> tokens_le s t \<longrightarrow> surplus s \<le> surplus t))"
  using assms
proof (rule MeetsMinimumMargin_Inr)
  fix m x lines
  let ?F = "1 + of_int bps / 10000 :: rat"
  assume h: "0 < Unit cost" "0 < Unit retail" "validateRate cost = Inr ()" "validateRate retail = Inr ()"
    "nonNegative minA = Inr m" "nonNegative (oneIfEmpty ex) = Inr x" "marginLines cost retail = Some lines"
    "ok = snd (fold (marginStep x ?F (Unit cost) (Unit retail) m) lines (None, True))"
  obtain ci cc co cf where c: "mustRat (Input cost) = Some ci" "mustRat (Cached cost) = Some cc"
    "mustRat (Output cost) = Some co" "mustRat (Fixed cost) = Some cf" using validateRate_Inr [OF h(3)] by metis
  obtain ri rc ro rf where r: "mustRat (Input retail) = Some ri" "mustRat (Cached retail) = Some rc"
    "mustRat (Output retail) = Some ro" "mustRat (Fixed retail) = Some rf" using validateRate_Inr [OF h(4)] by metis
  let ?a = "ri / of_int (Unit retail) - ci / of_int (Unit cost) * x * ?F"
    and ?b = "rc / of_int (Unit retail) - cc / of_int (Unit cost) * x * ?F"
    and ?d = "ro / of_int (Unit retail) - co / of_int (Unit cost) * x * ?F"
    and ?f = "rf - (cf * x * ?F + m)"
  have "lines = [(0, ci, ri), (1, cc, rc), (2, co, ro), (3, cf, rf)]"
    using h(7) c r by (simp add: marginLines_def)
  then have ok: "ok \<longleftrightarrow> 0 \<le> ?f \<and> 0 \<le> ?a \<and> 0 \<le> ?b \<and> 0 \<le> ?d"
    using h(8) by (auto simp: marginStep_def Let_def not_less)
  have priced: "\<exists>pc ra. calculateRate cost t = Some pc \<and> calculateRate retail t = Some ra \<and>
      linear ?f ?a ?b ?d t = ra - (pc * x * ?F + m)" for t
    using calculateRate_cardPrice [OF c] calculateRate_cardPrice [OF r] cardPrice_margin [OF h(1,2)] by metis
  have pos: "0 \<le> linear ?f ?a ?b ?d t" if "ok" "tokens_int64 t" for t
  proof -
    have n: "0 \<le> ?f" "0 \<le> ?a" "0 \<le> ?b" "0 \<le> ?d" using ok that(1) by blast+
    have "tokens_le noTokens t" using that(2) noTokens_le unfolding tokens_int64_def by blast
    from order_trans [OF n(1) linear_mono [OF this n(2-4), of ?f, unfolded linear_noTokens]] show ?thesis .
  qed
  show ?thesis
    by (intro exI [of _ m] exI [of _ x] exI [of _ "linear ?f ?a ?b ?d"] conjI allI impI priced pos h(5,6))
      (simp_all only: ok linear_iff [symmetric])
qed

theorem MeetsMinimumMargin_guarantee_witness:
  "\<exists>low m x pc ra. MeetsMinimumMargin exampleCost exampleRetail ''0.01'' 2000 [] = Inr (True, low) \<and>
    nonNegative ''0.01'' = Inr m \<and> nonNegative (oneIfEmpty []) = Inr x \<and>
    calculateRate exampleCost exampleTokens = Some pc \<and> calculateRate exampleRetail exampleTokens = Some ra \<and>
    pc * x * (1 + of_int 2000 / 10000) + m \<le> ra"
proof -
  obtain low where r: "MeetsMinimumMargin exampleCost exampleRetail ''0.01'' 2000 [] = Inr (True, low)"
    using exampleMargin(1) by blast
  have t: "tokens_int64 exampleTokens" by (simp add: tokens_int64_def tokens_ok_def exampleTokens_def)
  obtain m x surplus pc ra where "nonNegative ''0.01'' = Inr m" "nonNegative (oneIfEmpty []) = Inr x"
    "calculateRate exampleCost exampleTokens = Some pc" "calculateRate exampleRetail exampleTokens = Some ra"
    "surplus exampleTokens = ra - (pc * x * (1 + of_int 2000 / 10000) + m)" "0 \<le> surplus exampleTokens"
    using MeetsMinimumMargin_guarantee [OF r] t by metis
  moreover from this have "pc * x * (1 + of_int 2000 / 10000) + m \<le> ra" by (simp only: diff_ge_0_iff_ge)
  ultimately show ?thesis using r by blast
qed

text \<open>C18. The rule that cards in different currencies need an explicit exchange rate is enforced by
  \<open>Calculate\<close> and not by \<open>MeetsMinimumMargin\<close>, which replaces a blank rate by 1 before it tests
  for one: its test never fires, a blank rate is exactly the rate 1, and there are cards in two
  currencies that it accepts without a rate while \<open>Calculate\<close> refuses to price any request.\<close>

theorem MeetsMinimumMargin_blank_rate:
  "MeetsMinimumMargin cost retail minA bps ex \<noteq> Inl ErrExchangeRequired \<and>
   MeetsMinimumMargin cost retail minA bps [] = MeetsMinimumMargin cost retail minA bps ''1'' \<and>
   (\<exists>c r low. MeetsMinimumMargin c r ''0.01'' 2000 [] = Inr (True, low) \<and>
      Calculate c r exampleTokens ''0'' ''0'' [] = Inl ErrExchangeRequired)"
proof (intro conjI)
  have "TrimSpace (oneIfEmpty ex) \<noteq> []" by (simp add: oneIfEmpty_def TrimSpace_def is_space_def)
  then show "MeetsMinimumMargin cost retail minA bps ex \<noteq> Inl ErrExchangeRequired"
    using validateRate_error [of cost] validateRate_error [of retail]
      nonNegative_error [of minA] nonNegative_error [of "oneIfEmpty ex"]
    by (cases "marginLines cost retail")
      (auto simp: MeetsMinimumMargin_def Let_def bindE_Inl case_prod_beta split: if_splits)
  have one: "oneIfEmpty [] = ''1''" "oneIfEmpty ''1'' = ''1''" by code_simp+
  then show "MeetsMinimumMargin cost retail minA bps [] = MeetsMinimumMargin cost retail minA bps ''1''"
    by (simp add: MeetsMinimumMargin_def)
  obtain low where "MeetsMinimumMargin (exampleCost\<lparr>Currency := ''EUR''\<rparr>) exampleRetail ''0.01'' 2000 [] = Inr (True, low)"
    using exampleMargin(2) by blast
  moreover have "Calculate (exampleCost\<lparr>Currency := ''EUR''\<rparr>) exampleRetail exampleTokens ''0'' ''0'' [] = Inl ErrExchangeRequired"
    by code_simp
  ultimately show "\<exists>c r low. MeetsMinimumMargin c r ''0.01'' 2000 [] = Inr (True, low) \<and>
      Calculate c r exampleTokens ''0'' ''0'' [] = Inl ErrExchangeRequired" by blast
qed

text \<open>C19. No input makes pricing dereference a nil number: what the validation accepts, \<open>mustRat\<close> reads.\<close>

theorem pricing_no_nil:
  "Calculate cost retail t promotion tax ex \<noteq> Inl NilDereference \<and>
   MeetsMinimumMargin cost retail minA bps ex' \<noteq> Inl NilDereference"
proof -
  have v: "calculateRate r t \<noteq> None" if "validateRate r = Inr ()" for r t
    using validateRate_Inr [OF that] calculateRate_cardPrice by (metis option.distinct(1))
  have l: "marginLines c r \<noteq> None" if "validateRate c = Inr ()" "validateRate r = Inr ()" for c r
    by (rule validateRate_Inr [OF that(1)], rule validateRate_Inr [OF that(2)]) (simp add: marginLines_def)
  have "Calculate cost retail t promotion tax ex \<noteq> Inl NilDereference"
    using v [of cost t] v [of retail t]
    by (cases "calculateRate cost t"; cases "calculateRate retail t")
      (auto simp: Calculate_def Let_def bindE_Inl split: if_splits)
  moreover have "MeetsMinimumMargin cost retail minA bps ex' \<noteq> Inl NilDereference"
    using l [of cost retail] validateRate_error [of cost] validateRate_error [of retail]
      nonNegative_error [of minA] nonNegative_error [of "oneIfEmpty ex'"]
    by (cases "marginLines cost retail")
      (auto simp: MeetsMinimumMargin_def Let_def bindE_Inl case_prod_beta split: if_splits)
  ultimately show ?thesis by blast
qed

end
