(* ===== verification/Settlement.thy ===== *)
theory Settlement
  imports Decimal
begin

text \<open>
  Supplier settlement: \<^verbatim>\<open>internal/settlement/calculator.go\<close>. \<open>Split\<close> divides the gross amount of a
  supplier's sales into the platform's commission, the reserve held back and the payable rest.
  Commission and reserve are rounded to the unit and the payable amount is the remainder, so nothing
  is created or lost.
\<close>

datatype split_error = SplitInvalidAmount | SplitDecimal decimal_error | SplitNil

record SplitResult =
  Gross :: string
  Commission :: string
  Reserve :: string
  Payable :: string

text \<open>\<open>SetString\<close> of a text \<open>FloatString\<close> printed; the code ignores the flag and would hold nil.\<close>

definition reparse :: "rat \<Rightarrow> split_error + rat" where
  "reparse r = (case rat_SetString (FloatString 12 r) of None \<Rightarrow> Inl SplitNil | Some v \<Rightarrow> Inr v)"

definition splitDecimal :: "rat \<Rightarrow> split_error + string" where
  "splitDecimal r = (case ParseDecimal (FloatString 12 r) of Inl e \<Rightarrow> Inl (SplitDecimal e) | Inr d \<Rightarrow> Inr d)"

definition Split :: "string \<Rightarrow> int \<Rightarrow> int \<Rightarrow> split_error + SplitResult" where
  "Split gross commissionBPS reserveBPS =
     (case ParseDecimal gross of Inl _ \<Rightarrow> Inl SplitInvalidAmount
      | Inr validated \<Rightarrow>
     (case rat_SetString validated of None \<Rightarrow> Inl SplitInvalidAmount
      | Some amount \<Rightarrow>
        if amount < 0 \<or> commissionBPS < 0 \<or> commissionBPS > 10000 \<or> reserveBPS < 0 \<or> reserveBPS > 10000
        then Inl SplitInvalidAmount
        else bindE (reparse (amount * (of_int commissionBPS / 10000))) (\<lambda>commission.
          let afterCommission = amount - commission in
          bindE (reparse (afterCommission * (of_int reserveBPS / 10000))) (\<lambda>reserve.
          let payable = afterCommission - reserve in
          bindE (splitDecimal commission) (\<lambda>commissionDecimal.
          bindE (splitDecimal reserve) (\<lambda>reserveDecimal.
          bindE (splitDecimal payable) (\<lambda>payableDecimal.
          Inr \<lparr>Gross = validated, Commission = commissionDecimal, Reserve = reserveDecimal,
               Payable = payableDecimal\<rparr>)))))))"

section \<open>Lemmas\<close>

lemma reparse_round [simp]: "reparse r = Inr (rat_of_money (round12 r))"
  by (simp add: reparse_def SetString_FloatString12)

lemma splitDecimal_exact:
  "money_in_range m \<Longrightarrow> splitDecimal (rat_of_money m) = Inr (FloatString 12 (rat_of_money m))"
  by (simp add: splitDecimal_def ParseDecimal_FloatString_exact)

text \<open>A share of an amount, rounded to the unit, stays between nothing and the amount.\<close>

lemma share_bounds:
  assumes "0 \<le> m" "0 \<le> bps" "bps \<le> 10000"
  shows "0 \<le> round12 (rat_of_money m * (of_int bps / 10000)) \<and> round12 (rat_of_money m * (of_int bps / 10000)) \<le> m"
proof -
  have m: "0 \<le> rat_of_money m" using assms(1) rat_of_money_less(2) [of 0 m] by simp
  have b: "(of_int bps :: rat) / 10000 \<le> 1" "0 \<le> (of_int bps :: rat) / 10000" using assms by simp_all
  have "rat_of_money m * (of_int bps / 10000) \<le> rat_of_money m" using mult_left_mono [OF b(1) m] by simp
  then have "round12 (rat_of_money m * (of_int bps / 10000)) \<le> m" using round12_mono by fastforce
  moreover have "0 \<le> round12 (rat_of_money m * (of_int bps / 10000))"
    using m b by (intro round12_nonneg mult_nonneg_nonneg)
  ultimately show ?thesis by blast
qed

lemma money_in_range_between: "0 \<le> a \<Longrightarrow> a \<le> m \<Longrightarrow> money_in_range m \<Longrightarrow> money_in_range a"
  by (simp add: money_in_range_def)

lemma Split_valid:
  assumes "ParseDecimal gross = Inr v" "rat_SetString v = Some (rat_of_money m)" "0 \<le> m" "money_in_range m"
    "0 \<le> cb" "cb \<le> 10000" "0 \<le> rb" "rb \<le> 10000"
  defines "c \<equiv> round12 (rat_of_money m * (of_int cb / 10000))"
  defines "r \<equiv> round12 (rat_of_money (m - c) * (of_int rb / 10000))"
  shows "Split gross cb rb = Inr \<lparr>Gross = v, Commission = FloatString 12 (rat_of_money c),
      Reserve = FloatString 12 (rat_of_money r), Payable = FloatString 12 (rat_of_money (m - c - r))\<rparr> \<and>
    0 \<le> c \<and> 0 \<le> r \<and> 0 \<le> m - c - r"
proof -
  have c: "0 \<le> c" "c \<le> m" using share_bounds [of m cb] assms by simp_all
  then have r: "0 \<le> r" "r \<le> m - c" using share_bounds [of "m - c" rb] assms by simp_all
  have i: "money_in_range c" "money_in_range r" "money_in_range (m - c - r)"
    using c r assms(4) by (auto intro: money_in_range_between [of _ m])
  have "\<not> rat_of_money m < 0" using assms(3) rat_of_money_less(1) [of m 0] by simp
  moreover have "reparse (rat_of_money m * (of_int cb / 10000)) = Inr (rat_of_money c)"
    "reparse ((rat_of_money m - rat_of_money c) * (of_int rb / 10000)) = Inr (rat_of_money r)"
    by (simp_all add: c_def r_def)
  ultimately show ?thesis
    using assms(1,2,5-8) c r splitDecimal_exact [OF i(1)] splitDecimal_exact [OF i(2)] splitDecimal_exact [OF i(3)]
    by (simp add: Split_def Let_def del: reparse_round times_divide_eq_right)
qed

section \<open>Properties\<close>

text \<open>C3. \<open>Split\<close> conserves money: for a valid amount that is not negative and rates between 0 and 100
  percent it always succeeds, commission, reserve and payable are valid decimals that are not
  negative and sum to the gross amount exactly, and each share is within half a unit of the exact
  percentage. Every other input is the amount error.\<close>

theorem Split_conserves:
  assumes "ParseDecimal gross = Inr v" "rat_SetString v = Some g"
  shows "if 0 \<le> g \<and> 0 \<le> cb \<and> cb \<le> 10000 \<and> 0 \<le> rb \<and> rb \<le> 10000
    then \<exists>res c r p. Split gross cb rb = Inr res \<and> decimalRat (Commission res) = Inr c \<and>
      decimalRat (Reserve res) = Inr r \<and> decimalRat (Payable res) = Inr p \<and> Gross res = v \<and>
      c + r + p = g \<and> 0 \<le> c \<and> 0 \<le> r \<and> 0 \<le> p \<and>
      \<bar>c - g * of_int cb / 10000\<bar> \<le> 1 / (2 * 10 ^ 12) \<and> \<bar>r - (g - c) * of_int rb / 10000\<bar> \<le> 1 / (2 * 10 ^ 12)
    else Split gross cb rb = Inl SplitInvalidAmount"
proof (cases "0 \<le> g \<and> 0 \<le> cb \<and> cb \<le> 10000 \<and> 0 \<le> rb \<and> rb \<le> 10000")
  case True
  have "decimalPattern v" using assms(1) by (auto simp: ParseDecimal_def Let_def split: if_splits)
  then obtain m where m: "g = rat_of_money m" "money_in_range m" using decimalPattern_value assms(2) by fastforce
  then have m0: "0 \<le> m" using True rat_of_money_less(2) [of 0 m] by simp
  define c where "c = round12 (rat_of_money m * (of_int cb / 10000))"
  define r where "r = round12 (rat_of_money (m - c) * (of_int rb / 10000))"
  have s: "Split gross cb rb = Inr \<lparr>Gross = v, Commission = FloatString 12 (rat_of_money c),
      Reserve = FloatString 12 (rat_of_money r), Payable = FloatString 12 (rat_of_money (m - c - r))\<rparr>"
    "0 \<le> c" "0 \<le> r" "0 \<le> m - c - r"
    using Split_valid [OF assms(1) _ m0 m(2), of cb rb] assms(2) m True unfolding c_def r_def by blast+
  have i: "money_in_range c" "money_in_range r" "money_in_range (m - c - r)"
    using s(2-4) m(2) by (auto intro: money_in_range_between [of _ m])
  have e: "\<bar>rat_of_money c - g * of_int cb / 10000\<bar> \<le> 1 / (2 * 10 ^ 12)"
    "\<bar>rat_of_money r - (g - rat_of_money c) * of_int rb / 10000\<bar> \<le> 1 / (2 * 10 ^ 12)"
    using round12_error [of "rat_of_money m * (of_int cb / 10000)"] round12_error [of "rat_of_money (m - c) * (of_int rb / 10000)"]
    unfolding c_def [symmetric] r_def [symmetric] m(1) by (simp_all add: abs_minus_commute)
  have n: "0 \<le> rat_of_money k" if "0 \<le> k" for k using that rat_of_money_less(2) [of 0 k] by simp
  show ?thesis
    unfolding if_P [OF True]
    using s(1) ParseDecimal_FloatString_exact(2) [OF i(1)] ParseDecimal_FloatString_exact(2) [OF i(2)]
      ParseDecimal_FloatString_exact(2) [OF i(3)] e n [OF s(2)] n [OF s(3)] n [OF s(4)] m(1)
    by (intro exI conjI) (assumption | simp)+
next
  case False
  then show ?thesis using assms by (auto simp: Split_def)
qed

theorem Split_conserves_witness:
  "\<exists>res c r p. Split ''2.5'' 1250 500 = Inr res \<and> decimalRat (Commission res) = Inr c \<and>
    decimalRat (Reserve res) = Inr r \<and> decimalRat (Payable res) = Inr p \<and>
    c + r + p = 5 / 2 \<and> 0 \<le> p"
proof -
  have "ParseDecimal ''2.5'' = Inr ''2.5''"
    "rat_SetString ''2.5'' = Some (5 / 2)" by code_simp+
  from Split_conserves [OF this, of 1250 500] show ?thesis by simp blast
qed

end
