(* ===== verification/Redis.thy ===== *)
theory Redis
  imports Prelude
begin

text \<open>
  The Redis commands the gateway's Lua scripts call, on an explicit keyspace. The scripts themselves
  are in \<open>RateLimit\<close> (\<^verbatim>\<open>internal/ratelimit/ratelimit.go\<close>) and \<open>Scheduler\<close>
  (\<^verbatim>\<open>internal/scheduler/scheduler.go\<close>); a script runs atomically, so each is a function of the state.

  A state holds the server's clock in milliseconds, the integer strings and the hashes, each key with
  the time it expires, if it has one; an expired key is an absent key. \<open>INCR\<close> and \<open>DECR\<close> keep the
  expiry of a key that is there and create one without expiry; \<open>EXPIRE\<close> with no time left deletes.
\<close>

section \<open>Keyspace and commands\<close>

record redis =
  clock :: int
  strs :: "string \<Rightarrow> (int \<times> int option) option"
  hashes :: "string \<Rightarrow> ((string \<Rightarrow> int option) \<times> int option) option"

definition alive :: "int \<Rightarrow> ('v \<times> int option) option \<Rightarrow> ('v \<times> int option) option" where
  "alive now entry = (case entry of
       Some (v, Some e) \<Rightarrow> if now < e then entry else None
     | _ \<Rightarrow> entry)"

definition GET :: "string \<Rightarrow> redis \<Rightarrow> int option" where
  "GET key r = map_option fst (alive (clock r) (strs r key))"

definition INCRBY :: "string \<Rightarrow> int \<Rightarrow> redis \<Rightarrow> int \<times> redis" where
  "INCRBY key d r = (case alive (clock r) (strs r key) of
       None \<Rightarrow> (d, r\<lparr>strs := (strs r)(key := Some (d, None))\<rparr>)
     | Some (n, e) \<Rightarrow> (n + d, r\<lparr>strs := (strs r)(key := Some (n + d, e))\<rparr>))"

definition DEL :: "string \<Rightarrow> redis \<Rightarrow> redis" where
  "DEL key r = r\<lparr>strs := (strs r)(key := None), hashes := (hashes r)(key := None)\<rparr>"

definition PEXPIRE :: "string \<Rightarrow> int \<Rightarrow> redis \<Rightarrow> redis" where
  "PEXPIRE key ms r =
     (if ms \<le> 0 then DEL key r
      else r\<lparr>strs := (case alive (clock r) (strs r key) of None \<Rightarrow> strs r
                 | Some (n, _) \<Rightarrow> (strs r)(key := Some (n, Some (clock r + ms)))),
             hashes := (case alive (clock r) (hashes r key) of None \<Rightarrow> hashes r
                 | Some (h, _) \<Rightarrow> (hashes r)(key := Some (h, Some (clock r + ms))))\<rparr>)"

definition EXPIRE :: "string \<Rightarrow> int \<Rightarrow> redis \<Rightarrow> redis" where
  "EXPIRE key seconds r = PEXPIRE key (1000 * seconds) r"

definition PTTL :: "string \<Rightarrow> redis \<Rightarrow> int" where
  "PTTL key r = (case alive (clock r) (strs r key) of None \<Rightarrow> - 2
     | Some (_, None) \<Rightarrow> - 1 | Some (_, Some e) \<Rightarrow> e - clock r)"

definition TTL :: "string \<Rightarrow> redis \<Rightarrow> int" where
  "TTL key r = (let ms = PTTL key r in if ms < 0 then ms else (ms + 500) div 1000)"

definition HGET :: "string \<Rightarrow> string \<Rightarrow> redis \<Rightarrow> int option" where
  "HGET key field r = (case alive (clock r) (hashes r key) of None \<Rightarrow> None | Some (h, _) \<Rightarrow> h field)"

definition HSET :: "string \<Rightarrow> string \<Rightarrow> int \<Rightarrow> redis \<Rightarrow> redis" where
  "HSET key field v r = (case alive (clock r) (hashes r key) of
       None \<Rightarrow> r\<lparr>hashes := (hashes r)(key := Some (Map.empty(field \<mapsto> v), None))\<rparr>
     | Some (h, e) \<Rightarrow> r\<lparr>hashes := (hashes r)(key := Some (h(field \<mapsto> v), e))\<rparr>)"

definition HINCRBY :: "string \<Rightarrow> string \<Rightarrow> int \<Rightarrow> redis \<Rightarrow> redis" where
  "HINCRBY key field d r = HSET key field (case HGET key field r of None \<Rightarrow> d | Some v \<Rightarrow> v + d) r"

definition tick :: "int \<Rightarrow> redis \<Rightarrow> redis" where
  "tick d r = r\<lparr>clock := clock r + d\<rparr>"

definition empty_redis :: "int \<Rightarrow> redis" where
  "empty_redis now = \<lparr>clock = now, strs = \<lambda>_. None, hashes = \<lambda>_. None\<rparr>"

section \<open>Laws of the commands\<close>

lemma clock_simps [simp]:
  "clock (snd (INCRBY k d r)) = clock r" "clock (DEL k r) = clock r" "clock (PEXPIRE k ms r) = clock r"
  "clock (EXPIRE k ms r) = clock r" "clock (HSET k f v r) = clock r" "clock (HINCRBY k f v r) = clock r"
  by (auto simp: INCRBY_def DEL_def PEXPIRE_def EXPIRE_def HSET_def HINCRBY_def split: option.split)

lemma alive_Some: "alive now x = Some (v, e) \<longleftrightarrow> x = Some (v, e) \<and> (\<forall>t. e = Some t \<longrightarrow> now < t)"
  by (auto simp: alive_def split: option.splits prod.splits)

lemma GET_INCRBY: "GET k (snd (INCRBY j d r)) = (if k = j then Some ((case GET k r of None \<Rightarrow> 0 | Some n \<Rightarrow> n) + d) else GET k r)"
  by (auto simp: GET_def INCRBY_def alive_Some split: option.split)

lemma fst_INCRBY: "fst (INCRBY k d r) = (case GET k r of None \<Rightarrow> 0 | Some n \<Rightarrow> n) + d"
  by (auto simp: GET_def INCRBY_def split: option.split)

lemma GET_DEL: "GET k (DEL j r) = (if k = j then None else GET k r)"
  by (simp add: GET_def DEL_def alive_def)

lemma GET_PEXPIRE: "0 < ms \<Longrightarrow> GET k (PEXPIRE j ms r) = GET k r"
  by (auto simp: GET_def PEXPIRE_def alive_def split: option.split prod.split)

lemma GET_EXPIRE: "0 < sec \<Longrightarrow> GET k (EXPIRE j sec r) = GET k r"
  by (simp add: EXPIRE_def GET_PEXPIRE)

lemma strs_HSET [simp]: "strs (HSET k f v r) = strs r"
  by (auto simp: HSET_def split: option.split)

lemmas redis_get = GET_INCRBY fst_INCRBY GET_DEL GET_EXPIRE

lemma HGET_HSET: "HGET k f (HSET j g v r) = (if k = j \<and> f = g then Some v else HGET k f r)"
proof (cases "alive (clock r) (hashes r j)")
  case None
  then show ?thesis by (simp add: HGET_def HSET_def) (simp add: alive_def)
next
  case (Some he)
  then have "alive (clock r) (Some ((fst he)(g \<mapsto> v), snd he)) = Some ((fst he)(g \<mapsto> v), snd he)"
    using alive_Some [of "clock r" _ "fst he" "snd he"] alive_Some by (metis prod.collapse)
  then show ?thesis using Some by (simp add: HGET_def HSET_def case_prod_beta)
qed

lemma HGET_PEXPIRE: "0 < ms \<Longrightarrow> HGET k f (PEXPIRE j ms r) = HGET k f r"
  by (auto simp: HGET_def PEXPIRE_def alive_def split: option.split prod.split)

section \<open>Counting holders\<close>

lemma count_list_remove1: "count_list (remove1 k hs) j = (if j = k then count_list hs k - 1 else count_list hs j)"
  by (induction hs) (auto simp: count_list_0_iff)

lemma count_list_pos: "k \<in> set hs \<Longrightarrow> 1 \<le> count_list hs k"
  by (metis One_nat_def Suc_leI count_list_0_iff not_gr_zero)

end
