(* ===== verification/RateLimit.thy ===== *)
theory RateLimit
  imports Redis Decimal
begin

text \<open>
  Rate limits: \<^verbatim>\<open>internal/ratelimit/ratelimit.go\<close>. Requests and tokens per minute of an API key,
  requests per minute of an organization and of a provider, attempts of an identity, and the
  concurrency slots of an organization. Times are milliseconds since the epoch. A call reaches Redis
  through a \<open>transport\<close>: the reply arrives, or the request is lost, or the script ran and its reply is
  lost; the last two are the error of \<open>script.Run\<close>.

  Two contracts carry the limits: \<open>window_counter\<close>, a counter that grows until its window ends, and
  \<open>slot_counter\<close>, the concurrency slots that are acquired and released; \<open>slot_step\<close> is what the clients of
  the latter do, failures and expiry included.
\<close>

section \<open>Time buckets\<close>

text \<open>\<open>time.Time.UTC().Format("200601021504")\<close>: the civil date of a day number, then the digits.\<close>

definition civil :: "int \<Rightarrow> int \<times> int \<times> int" where
  "civil days =
     (let z = days + 719468; era = z div 146097; doe = z mod 146097;
          yoe = (doe - doe div 1460 + doe div 36524 - doe div 146096) div 365;
          doy = doe - (365 * yoe + yoe div 4 - yoe div 100);
          mp = (5 * doy + 2) div 153;
          d = doy - (153 * mp + 2) div 5 + 1;
          m = (if mp < 10 then mp + 3 else mp - 9);
          y = yoe + era * 400 + (if m \<le> 2 then 1 else 0)
      in (y, m, d))"

definition two :: "int \<Rightarrow> string" where
  "two n = zero_pad 2 (digits_of_nat (nat n))"

definition minuteBucket :: "int \<Rightarrow> string" where
  "minuteBucket now =
     (let minutes = now div 60000; (y, m, d) = civil (minutes div 1440); ofDay = minutes mod 1440
      in zero_pad 4 (digits_of_nat (nat y)) @ two m @ two d @ two (ofDay div 60) @ two (ofDay mod 60))"

section \<open>Running a script\<close>

datatype transport = Reply | LostRequest | LostReply

definition runScript :: "transport \<Rightarrow> (redis \<Rightarrow> 'a \<times> redis) \<Rightarrow> redis \<Rightarrow> 'a option \<times> redis" where
  "runScript t script r = (case t of
       LostRequest \<Rightarrow> (None, r)
     | LostReply \<Rightarrow> (None, snd (script r))
     | Reply \<Rightarrow> (case script r of (v, r') \<Rightarrow> (Some v, r')))"

text \<open>The opening of every counting script: increment, and start the window on the first increment.\<close>

definition bump :: "string \<Rightarrow> int \<Rightarrow> int \<Rightarrow> redis \<Rightarrow> int \<times> redis" where
  "bump key d ms r = (let (n, r) = INCRBY key d r in (n, if n = d then PEXPIRE key ms r else r))"

datatype limit_error = ErrUnavailable

record LimitResult =
  Allowed :: bool
  Requests :: int
  TokensUsed :: int
  RetryAfter :: int

section \<open>Requests and tokens of an API key\<close>

definition allowScript :: "string \<Rightarrow> string \<Rightarrow> int \<Rightarrow> int \<Rightarrow> int \<Rightarrow> int \<Rightarrow> redis \<Rightarrow> (int \<times> int \<times> int \<times> int) \<times> redis" where
  "allowScript rkey tkey tokens maxRpm seconds maxTpm r =
     (let (rpm, r) = bump rkey 1 (1000 * seconds) r;
          (tpm, r) = bump tkey tokens (1000 * seconds) r
      in (if rpm > maxRpm \<or> tpm > maxTpm then (0, rpm, tpm, TTL rkey r) else (1, rpm, tpm, TTL rkey r), r))"

definition Allow ::
  "transport \<Rightarrow> int \<Rightarrow> string \<Rightarrow> int \<Rightarrow> int \<Rightarrow> int \<Rightarrow> redis \<Rightarrow> (limit_error + LimitResult) \<times> redis" where
  "Allow t now keyID rpm tpm estimatedTokens r =
     (let rpm = (if rpm \<le> 0 then 60 else rpm);
          tpm = (if tpm \<le> 0 then 100000 else tpm);
          estimatedTokens = (if estimatedTokens < 1 then 1 else estimatedTokens);
          bucket = minuteBucket now;
          (v, r) = runScript t (allowScript (''rdk:rl:r:'' @ keyID @ '':'' @ bucket)
                     (''rdk:rl:t:'' @ keyID @ '':'' @ bucket) estimatedTokens rpm 70 tpm) r
      in (case v of None \<Rightarrow> Inl ErrUnavailable
          | Some (allowed, requests, tokens, ttl) \<Rightarrow>
              Inr \<lparr>Allowed = (allowed = 1), Requests = requests, TokensUsed = tokens,
                   RetryAfter = 1000 * (if ttl < 1 then 60 else ttl)\<rparr>, r))"

section \<open>Requests of an organization and of a provider\<close>

definition requestOnlyScript :: "string \<Rightarrow> int \<Rightarrow> redis \<Rightarrow> (int \<times> int \<times> int) \<times> redis" where
  "requestOnlyScript key maxRpm r =
     (let (n, r) = bump key 1 70000 r; ttl = TTL key r
      in (if n > maxRpm then (0, n, ttl) else (1, n, ttl), r))"

definition requestResult :: "(int \<times> int \<times> int) option \<Rightarrow> limit_error + LimitResult" where
  "requestResult v = (case v of None \<Rightarrow> Inl ErrUnavailable
     | Some (allowed, requests, ttl) \<Rightarrow>
         Inr \<lparr>Allowed = (allowed = 1), Requests = requests, TokensUsed = 0,
              RetryAfter = 1000 * (if ttl < 1 then 60 else ttl)\<rparr>)"

definition AllowOrganization ::
  "bool \<Rightarrow> transport \<Rightarrow> int \<Rightarrow> string \<Rightarrow> int \<Rightarrow> redis \<Rightarrow> (limit_error + LimitResult) \<times> redis" where
  "AllowOrganization noClient t now organizationID rpm r =
     (if noClient \<or> rpm \<le> 0 then (Inl ErrUnavailable, r)
      else let (v, r) = runScript t (requestOnlyScript (''rdk:subscription:r:'' @ organizationID @ '':'' @ minuteBucket now) rpm) r
        in (requestResult v, r))"

definition AllowProvider ::
  "bool \<Rightarrow> transport \<Rightarrow> int \<Rightarrow> string \<Rightarrow> int \<Rightarrow> redis \<Rightarrow> (limit_error + LimitResult) \<times> redis" where
  "AllowProvider noClient t now providerID rpm r =
     (if noClient \<or> rpm \<le> 0 then (Inr \<lparr>Allowed = True, Requests = 0, TokensUsed = 0, RetryAfter = 0\<rparr>, r)
      else let (v, r) = runScript t (requestOnlyScript (''rdk:provider:r:'' @ providerID @ '':'' @ minuteBucket now) rpm) r
        in (requestResult v, r))"

section \<open>Attempts of an identity\<close>

definition identityScript :: "string \<Rightarrow> int \<Rightarrow> int \<Rightarrow> redis \<Rightarrow> (int \<times> int \<times> int) \<times> redis" where
  "identityScript key maxN windowMs r =
     (let (n, r) = bump key 1 windowMs r; ttl = PTTL key r
      in (if n > maxN then (0, n, ttl) else (1, n, ttl), r))"

text \<open>The argument \<open>digest\<close> is the hexadecimal text of the first 16 bytes of the SHA-256 of the
  identity. The window is a \<open>time.Duration\<close>, in nanoseconds: \<open>Milliseconds\<close> cuts it down to whole
  milliseconds, for the script as for the answer.\<close>

definition Milliseconds :: "int \<Rightarrow> int" where
  "Milliseconds d = (if 0 \<le> d then d div 1000000 else - (- d div 1000000))"

definition identityKey :: "(string \<Rightarrow> string) \<Rightarrow> string \<Rightarrow> string \<Rightarrow> string" where
  "identityKey digest action identity = ''rdk:identity:'' @ action @ '':'' @ digest identity"

definition AllowIdentity ::
  "(string \<Rightarrow> string) \<Rightarrow> bool \<Rightarrow> transport \<Rightarrow> string \<Rightarrow> string \<Rightarrow> int \<Rightarrow> int \<Rightarrow> redis \<Rightarrow> (limit_error + LimitResult) \<times> redis" where
  "AllowIdentity digest noClient t action identity limit window r =
     (if noClient then (Inl ErrUnavailable, r)
      else let limit = (if limit \<le> 0 then 5 else limit);
               window = (if window \<le> 0 then 15 * 60000000000 else window);
               key = identityKey digest action identity;
               (v, r) = runScript t (identityScript key limit (Milliseconds window)) r
        in (case v of None \<Rightarrow> Inl ErrUnavailable
            | Some (allowed, requests, ttlMS) \<Rightarrow>
                Inr \<lparr>Allowed = (allowed = 1), Requests = requests, TokensUsed = 0,
                     RetryAfter = (if ttlMS < 1 then Milliseconds window else ttlMS)\<rparr>, r))"

section \<open>Concurrency of an organization\<close>

definition concurrencyAcquireScript :: "string \<Rightarrow> int \<Rightarrow> redis \<Rightarrow> (int \<times> int) \<times> redis" where
  "concurrencyAcquireScript key maxN r =
     (let (n, r) = bump key 1 7200000 r
      in if n > maxN then ((0, n - 1), snd (INCRBY key (- 1) r)) else ((1, n), r))"

definition concurrencyReleaseScript :: "string \<Rightarrow> redis \<Rightarrow> int \<times> redis" where
  "concurrencyReleaseScript key r =
     (let n = (case GET key r of None \<Rightarrow> 0 | Some n \<Rightarrow> n)
      in if n \<le> 1 then (0, DEL key r) else INCRBY key (- 1) r)"

definition organizationKey :: "string \<Rightarrow> string" where
  "organizationKey organizationID = ''rdk:subscription:active:'' @ organizationID"

text \<open>The release function a successful call returns: its key, and whether it already ran.\<close>

record Release =
  ReleaseKey :: string
  Released :: bool

definition AcquireOrganizationConcurrency ::
  "bool \<Rightarrow> transport \<Rightarrow> string \<Rightarrow> int \<Rightarrow> redis \<Rightarrow> (limit_error + Release option \<times> int) \<times> redis" where
  "AcquireOrganizationConcurrency noClient t organizationID limit r =
     (if noClient \<or> limit \<le> 0 then (Inl ErrUnavailable, r)
      else let key = organizationKey organizationID;
               (v, r) = runScript t (concurrencyAcquireScript key limit) r
        in (case v of None \<Rightarrow> Inl ErrUnavailable
            | Some (allowed, active) \<Rightarrow>
                if allowed \<noteq> 1 then Inr (None, active)
                else Inr (Some \<lparr>ReleaseKey = key, Released = False\<rparr>, active), r))"

definition callRelease :: "transport \<Rightarrow> Release \<Rightarrow> redis \<Rightarrow> limit_error option \<times> Release \<times> redis" where
  "callRelease t rel r =
     (if Released rel then (None, rel, r)
      else let (v, r) = runScript t (concurrencyReleaseScript (ReleaseKey rel)) r
        in (case v of None \<Rightarrow> Some ErrUnavailable | Some _ \<Rightarrow> None, rel\<lparr>Released := True\<rparr>, r))"

section \<open>Runs of calls\<close>

text \<open>A sequence of calls, with the time that passes before each; the result says which were granted.\<close>

fun run :: "('c \<Rightarrow> int) \<Rightarrow> ('c \<Rightarrow> redis \<Rightarrow> bool \<times> redis) \<Rightarrow> 'c list \<Rightarrow> redis \<Rightarrow> bool list \<times> redis" where
  "run wait step [] r = ([], r)"
| "run wait step (c # cs) r =
     (let (g, r) = step c (tick (wait c) r); (gs, r) = run wait step cs r in (g # gs, r))"

definition granted :: "('c \<Rightarrow> bool) \<Rightarrow> 'c list \<Rightarrow> bool list \<Rightarrow> 'c list" where
  "granted mine cs gs = map fst (filter (\<lambda>(c, g). g \<and> mine c) (zip cs gs))"

definition isAllowed :: "limit_error + LimitResult \<Rightarrow> bool" where
  "isAllowed v = (case v of Inl _ \<Rightarrow> False | Inr x \<Rightarrow> Allowed x)"

text \<open>A call: how it reaches Redis, the caller's clock, the time since the previous call, the key,
  organization, provider or identity it is about, and its tokens.\<close>

record Call =
  cTransport :: transport
  cNow :: int
  cWait :: int
  cKey :: string
  cTokens :: int

definition allowStep :: "(string \<Rightarrow> int) \<Rightarrow> (string \<Rightarrow> int) \<Rightarrow> Call \<Rightarrow> redis \<Rightarrow> bool \<times> redis" where
  "allowStep rpm tpm c r =
     (case Allow (cTransport c) (cNow c) (cKey c) (rpm (cKey c)) (tpm (cKey c)) (cTokens c) r of (v, r) \<Rightarrow> (isAllowed v, r))"

definition organizationStep :: "(string \<Rightarrow> int) \<Rightarrow> Call \<Rightarrow> redis \<Rightarrow> bool \<times> redis" where
  "organizationStep rpm c r =
     (case AllowOrganization False (cTransport c) (cNow c) (cKey c) (rpm (cKey c)) r of (v, r) \<Rightarrow> (isAllowed v, r))"

definition providerStep :: "(string \<Rightarrow> int) \<Rightarrow> Call \<Rightarrow> redis \<Rightarrow> bool \<times> redis" where
  "providerStep rpm c r =
     (case AllowProvider False (cTransport c) (cNow c) (cKey c) (rpm (cKey c)) r of (v, r) \<Rightarrow> (isAllowed v, r))"

definition identityStep :: "(string \<Rightarrow> string) \<Rightarrow> string \<Rightarrow> int \<Rightarrow> int \<Rightarrow> Call \<Rightarrow> redis \<Rightarrow> bool \<times> redis" where
  "identityStep digest action limit window c r =
     (case AllowIdentity digest False (cTransport c) action (cKey c) limit window r of (v, r) \<Rightarrow> (isAllowed v, r))"

definition effectiveWindow :: "int \<Rightarrow> int" where
  "effectiveWindow window = (if window \<le> 0 then 900000 else window div 1000000)"

definition effectiveRpm :: "int \<Rightarrow> int" where
  "effectiveRpm n = (if n \<le> 0 then 60 else n)"

definition effectiveTpm :: "int \<Rightarrow> int" where
  "effectiveTpm n = (if n \<le> 0 then 100000 else n)"

definition requestKey :: "string \<Rightarrow> string \<Rightarrow> string" where
  "requestKey k b = ''rdk:rl:r:'' @ k @ '':'' @ b"

definition tokenKey :: "string \<Rightarrow> string \<Rightarrow> string" where
  "tokenKey k b = ''rdk:rl:t:'' @ k @ '':'' @ b"

definition organizationRequestKey :: "string \<Rightarrow> string \<Rightarrow> string" where
  "organizationRequestKey k b = ''rdk:subscription:r:'' @ k @ '':'' @ b"

definition providerRequestKey :: "string \<Rightarrow> string \<Rightarrow> string" where
  "providerRequestKey k b = ''rdk:provider:r:'' @ k @ '':'' @ b"

text \<open>The value of a key, and that it does not expire before \<open>u\<close>.\<close>

definition val :: "string \<Rightarrow> redis \<Rightarrow> int" where
  "val k r = (case strs r k of None \<Rightarrow> 0 | Some (n, _) \<Rightarrow> n)"

definition held :: "int \<Rightarrow> string \<Rightarrow> redis \<Rightarrow> bool" where
  "held u k r \<longleftrightarrow> (\<forall>n t. strs r k = Some (n, Some t) \<longrightarrow> u \<le> t)"

text \<open>Acquiring and releasing a slot of an organization as its clients see it: whether the call returned
  a release function, and the first call of that function.\<close>

definition organizationAcquire :: "transport \<Rightarrow> string \<Rightarrow> int \<Rightarrow> redis \<Rightarrow> bool \<times> redis" where
  "organizationAcquire t k limit r =
     (case AcquireOrganizationConcurrency False t k limit r of
        (Inr (Some _, _), r) \<Rightarrow> (True, r)
      | (_, r) \<Rightarrow> (False, r))"

definition organizationRelease :: "transport \<Rightarrow> string \<Rightarrow> redis \<Rightarrow> redis" where
  "organizationRelease t k r = snd (snd (callRelease t \<lparr>ReleaseKey = organizationKey k, Released = False\<rparr> r))"

definition organizationActive :: "string \<Rightarrow> redis \<Rightarrow> int" where
  "organizationActive k r = (case GET (organizationKey k) r of None \<Rightarrow> 0 | Some n \<Rightarrow> n)"

text \<open>The clients of concurrency counters. The state is the keyspace, the holders of slots and the calls
  that failed, both by the key they are about. A call may fail on its way to Redis or on its way back;
  a client that gets no reply to an acquisition holds nothing, and a holder calls its release once,
  whatever becomes of it. The limit a caller asks for may vary below \<open>limit\<close>. Between calls time
  passes, with it the keys expire, and other commands change other keys.\<close>

inductive slot_step ::
  "(string \<Rightarrow> string) \<Rightarrow> (transport \<Rightarrow> string \<Rightarrow> int \<Rightarrow> redis \<Rightarrow> bool \<times> redis) \<Rightarrow> (transport \<Rightarrow> string \<Rightarrow> redis \<Rightarrow> redis) \<Rightarrow>
   (string \<Rightarrow> int) \<Rightarrow> redis \<times> string list \<times> string list \<Rightarrow> redis \<times> string list \<times> string list \<Rightarrow> bool"
  for key acquire release limit where
  acquired: "acquire t k l r = (True, r') \<Longrightarrow> l \<le> limit k \<Longrightarrow>
    slot_step key acquire release limit (r, hs, lost) (r', k # hs, lost)"
| refused: "acquire Reply k l r = (False, r') \<Longrightarrow> l \<le> limit k \<Longrightarrow>
    slot_step key acquire release limit (r, hs, lost) (r', hs, lost)"
| acquire_failed: "acquire t k l r = (False, r') \<Longrightarrow> t \<noteq> Reply \<Longrightarrow> l \<le> limit k \<Longrightarrow>
    slot_step key acquire release limit (r, hs, lost) (r', hs, k # lost)"
| released: "k \<in> set hs \<Longrightarrow>
    slot_step key acquire release limit (r, hs, lost) (release Reply k r, remove1 k hs, lost)"
| release_failed: "k \<in> set hs \<Longrightarrow> t \<noteq> Reply \<Longrightarrow>
    slot_step key acquire release limit (r, hs, lost) (release t k r, remove1 k hs, k # lost)"
| waits: "0 \<le> d \<Longrightarrow> slot_step key acquire release limit (r, hs, lost) (tick d r, hs, lost)"
| other: "(\<And>k. strs r' (key k) = strs r (key k)) \<Longrightarrow> clock r' = clock r \<Longrightarrow>
    slot_step key acquire release limit (r, hs, lost) (r', hs, lost)"

definition executes :: "transport \<Rightarrow> bool" where
  "executes t \<longleftrightarrow> t \<noteq> LostRequest"

section \<open>Lemmas\<close>

lemma alive_held: "held u k r \<Longrightarrow> clock r < u \<Longrightarrow> alive (clock r) (strs r k) = strs r k"
  by (auto simp: held_def alive_def split: option.splits)

lemma bump_held:
  assumes "held u k r" "clock r < u" "u \<le> clock r + ms"
  shows "fst (bump k d ms r) = val k r + d \<and> val k (snd (bump k d ms r)) = val k r + d \<and>
    held u k (snd (bump k d ms r)) \<and> clock (snd (bump k d ms r)) = clock r \<and>
    (\<forall>j. j \<noteq> k \<longrightarrow> strs (snd (bump k d ms r)) j = strs r j)"
  using assms alive_held [OF assms(1,2)]
  by (auto simp: bump_def INCRBY_def PEXPIRE_def val_def held_def alive_Some Let_def split: option.splits)

lemma bump_other: "j \<noteq> k \<Longrightarrow> strs (snd (bump k d ms r)) j = strs r j"
  "clock (snd (bump k d ms r)) = clock r"
  by (auto simp: bump_def INCRBY_def PEXPIRE_def DEL_def Let_def split: option.splits prod.splits)

lemma val_frame: "strs r k = strs r' k \<Longrightarrow> val k r = val k r'" "strs r k = strs r' k \<Longrightarrow> held u k r = held u k r'"
  by (simp_all add: val_def held_def)

lemma tick_simps [simp]: "strs (tick d r) = strs r" "clock (tick d r) = clock r + d" "val k (tick d r) = val k r"
  "held u k (tick d r) = held u k r"
  by (simp_all add: tick_def val_def held_def)

lemma keys_distinct [simp]: "requestKey k b \<noteq> tokenKey j b" "tokenKey k b \<noteq> requestKey j b"
  "requestKey k b = requestKey j b \<longleftrightarrow> k = j" "tokenKey k b = tokenKey j b \<longleftrightarrow> k = j"
  by (simp_all add: requestKey_def tokenKey_def)

lemma runScript_state: "snd (runScript t f r) = (if executes t then snd (f r) else r)"
  by (auto simp: runScript_def executes_def split: transport.splits prod.splits)

lemma runScript_value: "fst (runScript t f r) = (if t = Reply then Some (fst (f r)) else None)"
  by (auto simp: runScript_def split: transport.splits prod.splits)

lemma Allow_state: "snd (Allow t now k rpm tpm est r) =
    (if executes t then snd (bump (tokenKey k (minuteBucket now)) (max 1 est) 70000
        (snd (bump (requestKey k (minuteBucket now)) 1 70000 r))) else r)"
  by (simp add: Allow_def Let_def runScript_state allowScript_def case_prod_beta requestKey_def tokenKey_def max_def)

lemma est_max: "(if est < 1 then 1 else est) = max 1 (est :: int)"
  by simp

lemma Allow_granted: "(\<exists>x. fst (Allow t now k rpm tpm est r) = Inr x \<and> Allowed x) \<longleftrightarrow> t = Reply \<and>
    fst (bump (requestKey k (minuteBucket now)) 1 70000 r) \<le> effectiveRpm rpm \<and>
    fst (bump (tokenKey k (minuteBucket now)) (max 1 est) 70000
        (snd (bump (requestKey k (minuteBucket now)) 1 70000 r))) \<le> effectiveTpm tpm"
proof -
  let ?v = "fst (allowScript (requestKey k (minuteBucket now)) (tokenKey k (minuteBucket now)) (max 1 est)
      (effectiveRpm rpm) 70 (effectiveTpm tpm) r)"
  have "(\<exists>x. fst (Allow t now k rpm tpm est r) = Inr x \<and> Allowed x) \<longleftrightarrow> t = Reply \<and> fst ?v = 1"
    unfolding Allow_def Let_def est_max effectiveRpm_def [symmetric] effectiveTpm_def [symmetric]
      requestKey_def [symmetric] tokenKey_def [symmetric]
    by (simp add: runScript_value case_prod_beta)
  also have "fst ?v = 1 \<longleftrightarrow> fst (bump (requestKey k (minuteBucket now)) 1 70000 r) \<le> effectiveRpm rpm \<and>
    fst (bump (tokenKey k (minuteBucket now)) (max 1 est) 70000
        (snd (bump (requestKey k (minuteBucket now)) 1 70000 r))) \<le> effectiveTpm tpm"
    by (simp add: allowScript_def Let_def case_prod_beta not_less)
  finally show ?thesis .
qed

lemma Allow_other:
  assumes "j \<noteq> k"
  shows "strs (snd (Allow t now k rpm tpm est r)) (requestKey j (minuteBucket now)) = strs r (requestKey j (minuteBucket now))"
    "strs (snd (Allow t now k rpm tpm est r)) (tokenKey j (minuteBucket now)) = strs r (tokenKey j (minuteBucket now))"
    "clock (snd (Allow t now k rpm tpm est r)) = clock r"
  using assms by (simp_all add: Allow_state bump_other)

section \<open>The contract of a window counter\<close>

text \<open>A counter that only grows while its window is open and grants a call only when the count,
  with the call's cost added, is within the limit. Calls about other keys leave it alone.\<close>

locale window_counter =
  fixes key :: string and ms :: int and limit :: int
    and step :: "'c \<Rightarrow> redis \<Rightarrow> bool \<times> redis"
    and valid :: "'c \<Rightarrow> bool" and mine :: "'c \<Rightarrow> bool" and cost :: "'c \<Rightarrow> int"
  assumes mine_step: "\<lbrakk>valid c; mine c; held u key r; clock r < u; u \<le> clock r + ms\<rbrakk> \<Longrightarrow>
      held u key (snd (step c r)) \<and> val key r \<le> val key (snd (step c r)) \<and>
      (fst (step c r) \<longrightarrow> val key r + cost c \<le> val key (snd (step c r)) \<and> val key (snd (step c r)) \<le> limit)"
    and other_step: "valid c \<Longrightarrow> \<not> mine c \<Longrightarrow> strs (snd (step c r)) key = strs r key"
    and clock_step: "valid c \<Longrightarrow> clock (snd (step c r)) = clock r"
begin

lemma step_count:
  assumes "valid c" "held u key r" "clock r < u" "u \<le> clock r + ms" "n \<le> val key r" "n \<le> limit"
  defines "n' \<equiv> n + (if fst (step c r) \<and> mine c then cost c else 0)"
  shows "held u key (snd (step c r)) \<and> n' \<le> val key (snd (step c r)) \<and> n' \<le> limit"
proof (cases "mine c")
  case True
  then show ?thesis using mine_step [OF assms(1) True assms(2-4)] assms(5,6) by (auto simp: n'_def)
next
  case False
  then have "strs (snd (step c r)) key = strs r key" using other_step assms(1) by blast
  from val_frame [OF this] show ?thesis using assms False by (simp add: n'_def)
qed

lemma run_bounded:
  assumes "\<And>c. c \<in> set cs \<Longrightarrow> valid c \<and> 0 \<le> wait c" "clock r + sum_list (map wait cs) < u"
    "u \<le> clock r + ms" "held u key r" "n \<le> val key r" "n \<le> limit"
  shows "n + sum_list (map cost (granted mine cs (fst (run wait step cs r)))) \<le> limit"
  using assms
proof (induction cs arbitrary: r n)
  case Nil
  then show ?case by (simp add: granted_def)
next
  case (Cons c cs)
  let ?r = "tick (wait c) r"
  let ?r' = "snd (step c ?r)" and ?g = "fst (step c ?r)"
  let ?n = "n + (if ?g \<and> mine c then cost c else 0)"
  have c: "valid c" "0 \<le> wait c" "\<And>c. c \<in> set cs \<Longrightarrow> valid c \<and> 0 \<le> wait c" using Cons.prems(1) by auto
  then have w: "0 \<le> sum_list (map wait cs)" by (auto intro!: sum_list_nonneg)
  have u: "clock ?r < u" "u \<le> clock ?r + ms" using Cons.prems(2,3) c(2) w by auto
  have h: "held u key ?r'" "?n \<le> val key ?r'" "?n \<le> limit"
    using step_count [OF c(1) _ u] Cons.prems(4-6) by simp_all
  have "?n + sum_list (map cost (granted mine cs (fst (run wait step cs ?r')))) \<le> limit"
    using Cons.IH [OF c(3) _ _ h] Cons.prems(2) u(2) by (simp add: clock_step [OF c(1)])
  then show ?case by (auto simp: granted_def case_prod_beta)
qed

end

section \<open>The contract of a slot counter\<close>

text \<open>A counter of slots whose key lives for \<open>ms\<close> milliseconds after it was last created. An acquisition
  that is granted counts one more, within the limit; one that is refused counts nothing; one that
  fails may have been counted. A release that reaches the server counts one less.\<close>

locale slot_counter =
  fixes key :: "string \<Rightarrow> string" and ms :: int
    and acquire :: "transport \<Rightarrow> string \<Rightarrow> int \<Rightarrow> redis \<Rightarrow> bool \<times> redis"
    and release :: "transport \<Rightarrow> string \<Rightarrow> redis \<Rightarrow> redis"
  assumes acquire_counts: "\<lbrakk>held u (key k) r; clock r < u; u \<le> clock r + ms; acquire t k l r = (g, r')\<rbrakk> \<Longrightarrow>
      held u (key k) r' \<and> val (key k) r' = val (key k) r + (if val (key k) r' = val (key k) r then 0 else 1) \<and>
      (val (key k) r' \<noteq> val (key k) r \<longrightarrow> val (key k) r' \<le> l) \<and> (t = Reply \<or> g \<longrightarrow> g = (val (key k) r' \<noteq> val (key k) r))"
    and acquire_other: "acquire t k l r = (g, r') \<Longrightarrow> clock r' = clock r \<and> (j \<noteq> k \<longrightarrow> strs r' (key j) = strs r (key j))"
    and release_counts: "\<lbrakk>held u (key k) r; clock r < u; u \<le> clock r + ms\<rbrakk> \<Longrightarrow>
      held u (key k) (release t k r) \<and>
      val (key k) (release t k r) = (if t = LostRequest then val (key k) r else max 0 (val (key k) r - 1))"
    and release_other: "clock (release t k r) = clock r \<and> (j \<noteq> k \<longrightarrow> strs (release t k r) (key j) = strs r (key j))"
begin

text \<open>What holds of a key while its window is open.\<close>

definition slots_ok :: "(string \<Rightarrow> int) \<Rightarrow> int \<Rightarrow> string \<Rightarrow> redis \<times> string list \<times> string list \<Rightarrow> bool" where
  "slots_ok limit u k st \<longleftrightarrow> (case st of (r, hs, lost) \<Rightarrow> u \<le> clock r + ms \<and> (clock r < u \<longrightarrow>
     held u (key k) r \<and> int (count_list hs k) \<le> val (key k) r \<and>
     val (key k) r \<le> int (count_list hs k) + int (count_list lost k) \<and> val (key k) r \<le> max 0 (limit k)))"

lemma slots_ok_other:
  assumes "slots_ok limit u k (r, hs, lost)" "clock r' = clock r" "strs r' (key k) = strs r (key k)"
    "count_list hs' k = count_list hs k" "count_list lost' k = count_list lost k"
  shows "slots_ok limit u k (r', hs', lost')"
  using assms val_frame [OF assms(3)] by (simp add: slots_ok_def)

lemma slot_acquire_ok:
  assumes "acquire t k l r = (g, r')" "l \<le> limit k" "slots_ok limit u j (r, hs, lost)"
  shows "slots_ok limit u j (r', if g then k # hs else hs, if t = Reply \<or> g then lost else k # lost)"
proof (cases "j = k")
  case True
  have c: "clock r' = clock r" using acquire_other [OF assms(1)] by blast
  show ?thesis
  proof (cases "clock r < u")
    case t: True
    with assms(3) True have h: "held u (key k) r" "u \<le> clock r + ms" by (auto simp: slots_ok_def)
    show ?thesis using acquire_counts [OF h(1) t h(2) assms(1)] assms(2,3) t c True
      by (auto simp: slots_ok_def split: if_splits)
  next
    case False
    then show ?thesis using assms(3) c by (simp add: slots_ok_def)
  qed
next
  case False
  with acquire_other [OF assms(1), of j] show ?thesis
    by (intro slots_ok_other [OF assms(3)]) auto
qed

lemma slot_release_ok:
  assumes "k \<in> set hs" "slots_ok limit u j (r, hs, lost)"
  shows "slots_ok limit u j (release t k r, remove1 k hs, if t = Reply then lost else k # lost)"
proof (cases "j = k")
  case True
  have c: "clock (release t k r) = clock r" using release_other by blast
  show ?thesis
  proof (cases "clock r < u")
    case t: True
    with assms(2) True have h: "held u (key k) r" "u \<le> clock r + ms" by (auto simp: slots_ok_def)
    show ?thesis using release_counts [OF h(1) t h(2), of t] count_list_pos [OF assms(1)] assms(2) t c True
      by (auto simp: slots_ok_def count_list_remove1 of_nat_diff)
  next
    case False
    then show ?thesis using assms(2) c by (simp add: slots_ok_def)
  qed
next
  case False
  with release_other [of t k r j] show ?thesis
    by (intro slots_ok_other [OF assms(2)]) (auto simp: count_list_remove1)
qed

lemma slot_step_ok:
  "slot_step key acquire release limit st st' \<Longrightarrow> slots_ok limit u j st \<Longrightarrow> slots_ok limit u j st'"
proof (induction rule: slot_step.induct)
  case (acquired t k l r r' hs lost)
  from slot_acquire_ok [OF acquired] show ?case by simp
next
  case (refused k l r r' hs lost)
  from slot_acquire_ok [OF refused] show ?case by simp
next
  case (acquire_failed t k l r r' hs lost)
  from slot_acquire_ok [OF acquire_failed(1,3,4)] acquire_failed(2) show ?case by simp
next
  case (released k hs r lost)
  from slot_release_ok [OF released, of Reply] show ?case by simp
next
  case (release_failed k hs t r lost)
  from slot_release_ok [OF release_failed(1,3), of t] release_failed(2) show ?case by simp
next
  case (waits d r hs lost)
  then show ?case by (auto simp: slots_ok_def)
next
  case (other r' r hs lost)
  then show ?case by (intro slots_ok_other [OF other(3)]) auto
qed

lemma slots_bounded:
  assumes "(slot_step key acquire release limit)\<^sup>*\<^sup>* (r0, hs0, lost0) (r, hs, lost)" "strs r0 (key k) = None"
    "k \<notin> set hs0" "k \<notin> set lost0" "clock r < clock r0 + ms"
  shows "int (count_list hs k) \<le> (case GET (key k) r of None \<Rightarrow> 0 | Some n \<Rightarrow> n) \<and>
    (case GET (key k) r of None \<Rightarrow> 0 | Some n \<Rightarrow> n) \<le> int (count_list hs k) + int (count_list lost k) \<and>
    (case GET (key k) r of None \<Rightarrow> 0 | Some n \<Rightarrow> n) \<le> max 0 (limit k)"
proof -
  have "slots_ok limit (clock r0 + ms) k (r0, hs0, lost0)"
    using assms(2-4) by (simp add: slots_ok_def held_def val_def count_list_0_iff)
  with assms(1) have s: "slots_ok limit (clock r0 + ms) k (r, hs, lost)"
    by (induction rule: rtranclp_induct) (blast intro: slot_step_ok)+
  then have "held (clock r0 + ms) (key k) r" using assms(5) by (simp add: slots_ok_def)
  from alive_held [OF this assms(5)] have "(case GET (key k) r of None \<Rightarrow> 0 | Some n \<Rightarrow> n) = val (key k) r"
    by (simp add: GET_def val_def split: option.split)
  with s assms(5) show ?thesis by (simp add: slots_ok_def)
qed

end

section \<open>The limiter keeps the contract\<close>

lemma isAllowed_iff: "isAllowed v \<longleftrightarrow> (\<exists>x. v = Inr x \<and> Allowed x)"
  by (auto simp: isAllowed_def split: sum.splits)

lemma allowStep_eq: "allowStep rpm tpm c r =
    (\<exists>x. fst (Allow (cTransport c) (cNow c) (cKey c) (rpm (cKey c)) (tpm (cKey c)) (cTokens c) r) = Inr x \<and> Allowed x,
     snd (Allow (cTransport c) (cNow c) (cKey c) (rpm (cKey c)) (tpm (cKey c)) (cTokens c) r))"
  by (simp add: allowStep_def case_prod_beta isAllowed_iff)

lemma allowStep_requests:
  assumes "held u (requestKey k b) r" "clock r < u" "u \<le> clock r + 70000" "minuteBucket (cNow c) = b" "cKey c = k"
  shows "held u (requestKey k b) (snd (allowStep rpm tpm c r)) \<and>
    val (requestKey k b) r \<le> val (requestKey k b) (snd (allowStep rpm tpm c r)) \<and>
    (fst (allowStep rpm tpm c r) \<longrightarrow> val (requestKey k b) r + 1 \<le> val (requestKey k b) (snd (allowStep rpm tpm c r)) \<and>
       val (requestKey k b) (snd (allowStep rpm tpm c r)) \<le> effectiveRpm (rpm k))"
proof -
  let ?r1 = "snd (bump (requestKey k b) 1 70000 r)"
  let ?r2 = "snd (bump (tokenKey k b) (max 1 (cTokens c)) 70000 ?r1)"
  have e: "strs ?r2 (requestKey k b) = strs ?r1 (requestKey k b)" by (simp add: bump_other)
  show ?thesis
    using bump_held [OF assms(1-3), of 1] val_frame [OF e] assms(4,5)
    by (auto simp: allowStep_eq Allow_granted Allow_state executes_def assms(1))
qed

lemma allowStep_tokens:
  assumes "held u (tokenKey k b) r" "clock r < u" "u \<le> clock r + 70000" "minuteBucket (cNow c) = b" "cKey c = k"
  shows "held u (tokenKey k b) (snd (allowStep rpm tpm c r)) \<and>
    val (tokenKey k b) r \<le> val (tokenKey k b) (snd (allowStep rpm tpm c r)) \<and>
    (fst (allowStep rpm tpm c r) \<longrightarrow> val (tokenKey k b) r + max 1 (cTokens c) \<le> val (tokenKey k b) (snd (allowStep rpm tpm c r)) \<and>
       val (tokenKey k b) (snd (allowStep rpm tpm c r)) \<le> effectiveTpm (tpm k))"
proof -
  let ?r1 = "snd (bump (requestKey k b) 1 70000 r)"
  have e: "strs ?r1 (tokenKey k b) = strs r (tokenKey k b)" "clock ?r1 = clock r" by (simp_all add: bump_other)
  have h: "held u (tokenKey k b) ?r1" "clock ?r1 < u" "u \<le> clock ?r1 + 70000"
    using assms(1-3) val_frame(2) [OF e(1)] e(2) by simp_all
  show ?thesis
    using bump_held [OF h, of "max 1 (cTokens c)"] val_frame(1) [OF e(1)] assms(4,5)
    by (auto simp: allowStep_eq Allow_granted Allow_state executes_def assms(1))
qed

interpretation allow_requests: window_counter "requestKey k b" 70000 "effectiveRpm (rpm k)" "allowStep rpm tpm"
  "\<lambda>c. minuteBucket (cNow c) = b" "\<lambda>c. cKey c = k" "\<lambda>_. 1" for k b rpm tpm
proof
  fix c :: Call and u r assume "minuteBucket (cNow c) = b" "cKey c = k" "held u (requestKey k b) r" "clock r < u" "u \<le> clock r + 70000"
  then show "held u (requestKey k b) (snd (allowStep rpm tpm c r)) \<and>
      val (requestKey k b) r \<le> val (requestKey k b) (snd (allowStep rpm tpm c r)) \<and>
      (fst (allowStep rpm tpm c r) \<longrightarrow> val (requestKey k b) r + 1 \<le> val (requestKey k b) (snd (allowStep rpm tpm c r)) \<and>
         val (requestKey k b) (snd (allowStep rpm tpm c r)) \<le> effectiveRpm (rpm k))"
    using allowStep_requests by blast
qed (simp_all add: allowStep_eq Allow_state bump_other)

interpretation allow_tokens: window_counter "tokenKey k b" 70000 "effectiveTpm (tpm k)" "allowStep rpm tpm"
  "\<lambda>c. minuteBucket (cNow c) = b" "\<lambda>c. cKey c = k" "\<lambda>c. max 1 (cTokens c)" for k b rpm tpm
proof
  fix c :: Call and u r assume "minuteBucket (cNow c) = b" "cKey c = k" "held u (tokenKey k b) r" "clock r < u" "u \<le> clock r + 70000"
  then show "held u (tokenKey k b) (snd (allowStep rpm tpm c r)) \<and>
      val (tokenKey k b) r \<le> val (tokenKey k b) (snd (allowStep rpm tpm c r)) \<and>
      (fst (allowStep rpm tpm c r) \<longrightarrow> val (tokenKey k b) r + max 1 (cTokens c) \<le> val (tokenKey k b) (snd (allowStep rpm tpm c r)) \<and>
         val (tokenKey k b) (snd (allowStep rpm tpm c r)) \<le> effectiveTpm (tpm k))"
    using allowStep_tokens by blast
qed (simp_all add: allowStep_eq Allow_state bump_other)

text \<open>The limits that count one key only.\<close>

lemma single_window:
  assumes "held u k r" "clock r < u" "u \<le> clock r + ms"
    "fst st \<longrightarrow> snd st = snd (bump k 1 ms r) \<and> fst (bump k 1 ms r) \<le> limit" "snd st \<in> {r, snd (bump k 1 ms r)}"
  shows "held u k (snd st) \<and> val k r \<le> val k (snd st) \<and> (fst st \<longrightarrow> val k r + 1 \<le> val k (snd st) \<and> val k (snd st) \<le> limit)"
  using bump_held [OF assms(1-3), of 1] assms(1,4,5) by auto

lemma requestOnly_step:
  "isAllowed (requestResult (fst (runScript t (requestOnlyScript k l) r))) \<longleftrightarrow> t = Reply \<and> fst (bump k 1 70000 r) \<le> l"
  "snd (runScript t (requestOnlyScript k l) r) = (if executes t then snd (bump k 1 70000 r) else r)"
  by (simp_all add: runScript_value runScript_state requestOnlyScript_def requestResult_def isAllowed_def
      Let_def case_prod_beta not_less)

lemma identity_step:
  "isAllowed (fst (AllowIdentity digest False t action i limit window r)) \<longleftrightarrow> t = Reply \<and>
     fst (bump (identityKey digest action i) 1 (effectiveWindow window) r) \<le> (if limit \<le> 0 then 5 else limit)"
  "snd (AllowIdentity digest False t action i limit window r) = (if executes t then
     snd (bump (identityKey digest action i) 1 (effectiveWindow window) r) else r)"
proof -
  let ?k = "identityKey digest action i" and ?w = "effectiveWindow window" and ?l = "if limit \<le> 0 then 5 else limit"
  have w: "Milliseconds (if window \<le> 0 then 15 * 60000000000 else window) = ?w"
    by (simp add: Milliseconds_def effectiveWindow_def)
  have s: "fst (fst (identityScript ?k ?l ?w r)) = 1 \<longleftrightarrow> fst (bump ?k 1 ?w r) \<le> ?l"
    "snd (identityScript ?k ?l ?w r) = snd (bump ?k 1 ?w r)"
    by (simp_all only: identityScript_def Let_def case_prod_beta fst_conv snd_conv not_less) auto
  show "isAllowed (fst (AllowIdentity digest False t action i limit window r)) \<longleftrightarrow> t = Reply \<and> fst (bump ?k 1 ?w r) \<le> ?l"
    unfolding AllowIdentity_def Let_def w by (cases "t = Reply") (simp_all only: runScript_value runScript_state case_prod_beta if_True if_False
        fst_conv snd_conv option.case sum.case isAllowed_def LimitResult.simps s simp_thms)
  show "snd (AllowIdentity digest False t action i limit window r) = (if executes t then snd (bump ?k 1 ?w r) else r)"
    unfolding AllowIdentity_def Let_def w by (simp only: runScript_state case_prod_beta s snd_conv if_False)
qed

interpretation organization_requests: window_counter "organizationRequestKey k b" 70000 "rpm k" "organizationStep rpm"
  "\<lambda>c. minuteBucket (cNow c) = b" "\<lambda>c. cKey c = k" "\<lambda>_. 1" for k b rpm
proof
  fix c :: Call and u r assume h: "minuteBucket (cNow c) = b" "cKey c = k" "held u (organizationRequestKey k b) r" "clock r < u" "u \<le> clock r + 70000"
  show "held u (organizationRequestKey k b) (snd (organizationStep rpm c r)) \<and>
      val (organizationRequestKey k b) r \<le> val (organizationRequestKey k b) (snd (organizationStep rpm c r)) \<and>
      (fst (organizationStep rpm c r) \<longrightarrow>
         val (organizationRequestKey k b) r + 1 \<le> val (organizationRequestKey k b) (snd (organizationStep rpm c r)) \<and>
         val (organizationRequestKey k b) (snd (organizationStep rpm c r)) \<le> rpm k)"
    by (rule single_window [OF h(3-5)])
      (auto simp: organizationStep_def AllowOrganization_def organizationRequestKey_def case_prod_beta
        requestOnly_step h executes_def isAllowed_def [of "Inl _"])
qed (auto simp: organizationStep_def AllowOrganization_def organizationRequestKey_def case_prod_beta
    requestOnly_step bump_other)

interpretation provider_requests: window_counter "providerRequestKey k b" 70000 "rpm k" "providerStep rpm"
  "\<lambda>c. minuteBucket (cNow c) = b \<and> 0 < rpm (cKey c)" "\<lambda>c. cKey c = k" "\<lambda>_. 1" for k b rpm
proof
  fix c :: Call and u r assume h: "minuteBucket (cNow c) = b \<and> 0 < rpm (cKey c)" "cKey c = k"
    "held u (providerRequestKey k b) r" "clock r < u" "u \<le> clock r + 70000"
  show "held u (providerRequestKey k b) (snd (providerStep rpm c r)) \<and>
      val (providerRequestKey k b) r \<le> val (providerRequestKey k b) (snd (providerStep rpm c r)) \<and>
      (fst (providerStep rpm c r) \<longrightarrow>
         val (providerRequestKey k b) r + 1 \<le> val (providerRequestKey k b) (snd (providerStep rpm c r)) \<and>
         val (providerRequestKey k b) (snd (providerStep rpm c r)) \<le> rpm k)"
    by (rule single_window [OF h(3-5)])
      (use h in \<open>auto simp: providerStep_def AllowProvider_def providerRequestKey_def case_prod_beta
        requestOnly_step executes_def\<close>)
qed (auto simp: providerStep_def AllowProvider_def providerRequestKey_def case_prod_beta requestOnly_step bump_other)

interpretation identity_attempts: window_counter "identityKey digest action i"
  "effectiveWindow window" "if limit \<le> 0 then 5 else limit" "identityStep digest action limit window"
  "\<lambda>_. True" "\<lambda>c. digest (cKey c) = digest i" "\<lambda>_. 1" for digest action i window limit
proof
  fix c :: Call and u r assume h: "digest (cKey c) = digest i" "held u (identityKey digest action i) r" "clock r < u"
    "u \<le> clock r + (effectiveWindow window)"
  let ?k = "identityKey digest action i" and ?s = "identityStep digest action limit window c r"
  show "held u ?k (snd ?s) \<and> val ?k r \<le> val ?k (snd ?s) \<and>
      (fst ?s \<longrightarrow> val ?k r + 1 \<le> val ?k (snd ?s) \<and> val ?k (snd ?s) \<le> (if limit \<le> 0 then 5 else limit))"
    by (rule single_window [OF h(2-4)])
      (auto simp: identityStep_def case_prod_beta identity_step identityKey_def h(1) executes_def)
qed (auto simp: identityStep_def case_prod_beta identity_step identityKey_def bump_other)

lemma bump_GET: "0 < ms \<Longrightarrow> GET j (snd (bump k d ms r)) = (if j = k then Some ((case GET k r of None \<Rightarrow> 0 | Some n \<Rightarrow> n) + d) else GET j r)"
  by (simp add: bump_def Let_def case_prod_beta GET_PEXPIRE GET_INCRBY)

lemma bump_fst: "fst (bump k d ms r) = (case GET k r of None \<Rightarrow> 0 | Some n \<Rightarrow> n) + d"
  by (simp add: bump_def Let_def case_prod_beta fst_INCRBY)

lemma organizationKey_eq [simp]: "organizationKey j = organizationKey k \<longleftrightarrow> j = k"
  by (simp add: organizationKey_def)

text \<open>Both slot counters run the same commands: \<open>bump\<close>, undone when the limit is exceeded, and a release
  that deletes the key at one.\<close>

lemma slot_acquire_script:
  assumes "held u k r" "clock r < u" "u \<le> clock r + ms"
  defines "r1 \<equiv> snd (bump k 1 ms r)"
  shows "held u k (if fst (bump k 1 ms r) > l then snd (INCRBY k (- 1) r1) else r1) \<and>
    val k (if fst (bump k 1 ms r) > l then snd (INCRBY k (- 1) r1) else r1) = val k r + (if val k r + 1 > l then 0 else 1)"
proof -
  have b: "fst (bump k 1 ms r) = val k r + 1" "val k r1 = val k r + 1" "held u k r1" "clock r1 = clock r"
    using bump_held [OF assms(1-3), of 1] by (simp_all add: r1_def)
  have "alive (clock r1) (strs r1 k) = strs r1 k" using alive_held [OF b(3)] b(4) assms(2) by simp
  then have "held u k (snd (INCRBY k (- 1) r1)) \<and> val k (snd (INCRBY k (- 1) r1)) = val k r"
    using b(2,3) by (auto simp: INCRBY_def held_def val_def split: option.splits)
  then show ?thesis using b by simp
qed

lemma slot_release_script:
  assumes "held u k r" "clock r < u"
  shows "held u k (snd (concurrencyReleaseScript k r)) \<and> val k (snd (concurrencyReleaseScript k r)) = max 0 (val k r - 1)"
  using assms alive_held [OF assms]
  by (auto simp: concurrencyReleaseScript_def GET_def INCRBY_def DEL_def held_def val_def Let_def split: option.splits)

lemma INCRBY_other: "j \<noteq> k \<Longrightarrow> strs (snd (INCRBY k d r)) j = strs r j"
  by (auto simp: INCRBY_def split: option.splits)

lemma release_script_other: "clock (snd (concurrencyReleaseScript k r)) = clock r"
  "j \<noteq> k \<Longrightarrow> strs (snd (concurrencyReleaseScript k r)) j = strs r j"
  by (auto simp: concurrencyReleaseScript_def Let_def INCRBY_other) (auto simp: DEL_def)

lemma concurrencyAcquire_eq: "concurrencyAcquireScript k l r =
    (let n = fst (bump k 1 7200000 r); r1 = snd (bump k 1 7200000 r)
     in (if n > l then (0, n - 1) else (1, n), if n > l then snd (INCRBY k (- 1) r1) else r1))"
  by (simp add: concurrencyAcquireScript_def Let_def case_prod_beta)

lemma organizationAcquire_eq: "organizationAcquire t k l r =
    (if l \<le> 0 \<or> t = LostRequest then (False, r)
     else (t = Reply \<and> fst (bump (organizationKey k) 1 7200000 r) \<le> l, snd (concurrencyAcquireScript (organizationKey k) l r)))"
  by (cases t) (auto simp: organizationAcquire_def AcquireOrganizationConcurrency_def runScript_def concurrencyAcquire_eq Let_def)

lemma organizationRelease_eq: "organizationRelease t k r =
    (if t = LostRequest then r else snd (concurrencyReleaseScript (organizationKey k) r))"
  by (cases t) (simp_all add: organizationRelease_def callRelease_def runScript_def case_prod_beta)

interpretation organization_slots: slot_counter organizationKey 7200000 organizationAcquire organizationRelease
proof
  fix u k r t l g r'
  assume h: "held u (organizationKey k) r" "clock r < u" "u \<le> clock r + 7200000" "organizationAcquire t k l r = (g, r')"
  show "held u (organizationKey k) r' \<and>
      val (organizationKey k) r' = val (organizationKey k) r + (if val (organizationKey k) r' = val (organizationKey k) r then 0 else 1) \<and>
      (val (organizationKey k) r' \<noteq> val (organizationKey k) r \<longrightarrow> val (organizationKey k) r' \<le> l) \<and>
      (t = Reply \<or> g \<longrightarrow> g = (val (organizationKey k) r' \<noteq> val (organizationKey k) r))"
    using slot_acquire_script [OF h(1-3), of l] bump_held [OF h(1-3), of 1] h(1,4)
    by (auto simp: organizationAcquire_eq concurrencyAcquire_eq Let_def split: if_splits)
next
  fix t k l r g r' j assume "organizationAcquire t k l r = (g, r')"
  then show "clock r' = clock r \<and> (j \<noteq> k \<longrightarrow> strs r' (organizationKey j) = strs r (organizationKey j))"
    by (auto simp: organizationAcquire_eq concurrencyAcquire_eq Let_def INCRBY_other bump_other split: if_splits)
next
  fix u k r t assume "held u (organizationKey k) r" "clock r < u" "u \<le> clock r + 7200000"
  then show "held u (organizationKey k) (organizationRelease t k r) \<and> val (organizationKey k) (organizationRelease t k r) =
      (if t = LostRequest then val (organizationKey k) r else max 0 (val (organizationKey k) r - 1))"
    using slot_release_script by (simp add: organizationRelease_eq)
next
  fix t k r j
  show "clock (organizationRelease t k r) = clock r \<and>
      (j \<noteq> k \<longrightarrow> strs (organizationRelease t k r) (organizationKey j) = strs r (organizationKey j))"
    by (simp add: organizationRelease_eq release_script_other)
qed

section \<open>Properties\<close>

lemma fresh_held: "strs r k = None \<Longrightarrow> held u k r \<and> val k r = 0"
  by (simp add: held_def val_def)

lemma sum_ones: "sum_list (map (\<lambda>_. 1) xs) = int (length xs)"
  by (induction xs) simp_all

text \<open>C9. The limits of an API key hold: over any sequence of calls of \<open>Allow\<close> in one minute bucket, for
  any mixture of keys, lost requests and lost replies, the requests granted to a key are at most its
  requests per minute and the tokens granted (at least one per request) are at most its tokens per
  minute, the defaults standing for limits that are not positive.\<close>

theorem Allow_within_limits:
  fixes rpm tpm :: "string \<Rightarrow> int"
  assumes "\<And>c. c \<in> set cs \<Longrightarrow> minuteBucket (cNow c) = b \<and> 0 \<le> cWait c" "sum_list (map cWait cs) < 70000"
    "strs r (requestKey k b) = None" "strs r (tokenKey k b) = None"
  defines "g \<equiv> granted (\<lambda>c. cKey c = k) cs (fst (run cWait (allowStep rpm tpm) cs r))"
  shows "int (length g) \<le> (if rpm k \<le> 0 then 60 else rpm k) \<and>
    sum_list (map (\<lambda>c. max 1 (cTokens c)) g) \<le> (if tpm k \<le> 0 then 100000 else tpm k)"
  using allow_requests.run_bounded [of cs b cWait r "clock r + 70000" k 0 rpm tpm]
    allow_tokens.run_bounded [of cs b cWait r "clock r + 70000" k 0 tpm rpm]
    assms(1,2) fresh_held [OF assms(3)] fresh_held [OF assms(4)]
  by (simp add: g_def sum_ones effectiveRpm_def effectiveTpm_def)

theorem Allow_within_limits_witness:
  "let c = \<lparr>cTransport = Reply, cNow = 1700000000000, cWait = 20000, cKey = ''k1'', cTokens = 40\<rparr>;
       cs = [c, c\<lparr>cKey := ''k2''\<rparr>, c];
       g = granted (\<lambda>c. cKey c = ''k1'') cs (fst (run cWait (allowStep (\<lambda>_. 5) (\<lambda>_. 60)) cs (empty_redis 0)))
   in int (length g) \<le> 5 \<and> sum_list (map (\<lambda>c. max 1 (cTokens c)) g) \<le> 60"
proof -
  let ?c = "\<lparr>cTransport = Reply, cNow = 1700000000000, cWait = 20000, cKey = ''k1'', cTokens = 40\<rparr>"
  have 1: "\<And>c. c \<in> set [?c, ?c\<lparr>cKey := ''k2''\<rparr>, ?c] \<Longrightarrow> minuteBucket (cNow c) = minuteBucket 1700000000000 \<and> 0 \<le> cWait c"
    by auto
  have 2: "sum_list (map cWait [?c, ?c\<lparr>cKey := ''k2''\<rparr>, ?c]) < 70000" by simp
  have 3: "strs (empty_redis 0) x = None" for x by (simp add: empty_redis_def)
  show ?thesis
    using Allow_within_limits [OF 1 2 3 3, where k = "''k1''" and rpm = "\<lambda>_. 5" and tpm = "\<lambda>_. 60"]
    unfolding Let_def by simp
qed

text \<open>C11. Brute force is bounded: within the window that the first attempt opens, its length cut down to whole
  milliseconds, at most \<open>limit\<close> attempts of an identity (five by default) are allowed, whatever other
  identities do and however calls fail. The window is in nanoseconds, fifteen minutes by default; of a
  window below a millisecond nothing is left.\<close>

theorem AllowIdentity_within_limit:
  assumes "\<And>c. c \<in> set cs \<Longrightarrow> 0 \<le> cWait c"
    "sum_list (map cWait cs) < (if window \<le> 0 then 900000 else window div 1000000)"
    "strs r (identityKey digest action i) = None"
  shows "int (length (granted (\<lambda>c. digest (cKey c) = digest i) cs
      (fst (run cWait (identityStep digest action limit window) cs r)))) \<le> (if limit \<le> 0 then 5 else limit)"
  using identity_attempts.run_bounded [of cs cWait r "clock r + effectiveWindow window" window digest action i 0 limit]
    assms(1,2) fresh_held [OF assms(3)]
  by (simp add: sum_ones effectiveWindow_def)

theorem AllowIdentity_within_limit_witness:
  "let c = \<lparr>cTransport = Reply, cNow = 0, cWait = 1000, cKey = ''a@b'', cTokens = 0\<rparr>; cs = replicate 9 c
   in int (length (granted (\<lambda>c. cKey c = ''a@b'') cs (fst (run cWait (identityStep id ''login'' 3 60000000000) cs (empty_redis 0))))) \<le> 3"
proof -
  let ?c = "\<lparr>cTransport = Reply, cNow = 0, cWait = 1000, cKey = ''a@b'', cTokens = 0\<rparr>"
  have 1: "\<And>c. c \<in> set (replicate 9 ?c) \<Longrightarrow> 0 \<le> cWait c" by auto
  have 2: "sum_list (map cWait (replicate 9 ?c)) < (if (60000000000 :: int) \<le> 0 then 900000 else 60000000000 div 1000000)"
    by (simp add: sum_list_replicate)
  have 3: "strs (empty_redis 0) x = None" for x by (simp add: empty_redis_def)
  show ?thesis
    using AllowIdentity_within_limit [OF 1 2 3, where digest = id and action = "''login''" and i = "''a@b''" and limit = 3] unfolding Let_def by simp
qed

text \<open>C12. A window below a millisecond turns the limit off: \<open>PEXPIRE\<close> with no time left deletes the counter
  that the script has just created, so every attempt that gets a reply is allowed, at any rate.\<close>

theorem AllowIdentity_submillisecond:
  assumes "0 < window" "window < 1000000" "\<And>c. c \<in> set cs \<Longrightarrow> cTransport c = Reply \<and> cKey c = i"
    "strs r (identityKey digest action i) = None"
  shows "fst (run cWait (identityStep digest action limit window) cs r) = replicate (length cs) True"
  using assms(3,4)
proof (induction cs arbitrary: r)
  case (Cons c cs)
  let ?k = "identityKey digest action i" and ?r = "tick (cWait c) r"
  have w: "effectiveWindow window = 0" using assms(1,2) by (simp add: effectiveWindow_def)
  have b: "fst (bump ?k 1 0 ?r) = 1" "strs (snd (bump ?k 1 0 ?r)) ?k = None"
    using Cons.prems(2) by (simp_all add: bump_def INCRBY_def PEXPIRE_def DEL_def alive_def Let_def)
  have "identityStep digest action limit window c ?r = (True, snd (bump ?k 1 0 ?r))"
    using Cons.prems(1) [of c] b(1) by (simp add: identityStep_def case_prod_beta identity_step w executes_def)
  then show ?case using Cons.IH [OF Cons.prems(1) b(2)] by (simp add: case_prod_beta)
qed simp

theorem AllowIdentity_submillisecond_witness:
  "let c = \<lparr>cTransport = Reply, cNow = 0, cWait = 0, cKey = ''a@b'', cTokens = 0\<rparr>
   in fst (run cWait (identityStep id ''login'' 3 999999) (replicate 9 c) (empty_redis 0)) = replicate 9 True"
proof -
  let ?c = "\<lparr>cTransport = Reply, cNow = 0, cWait = 0, cKey = ''a@b'', cTokens = 0\<rparr>"
  have 1: "\<And>c. c \<in> set (replicate 9 ?c) \<Longrightarrow> cTransport c = Reply \<and> cKey c = ''a@b''" by auto
  have 2: "strs (empty_redis 0) x = None" for x by (simp add: empty_redis_def)
  have "fst (run cWait (identityStep id ''login'' 3 999999) (replicate 9 ?c) (empty_redis 0)) = replicate (length (replicate 9 ?c)) True"
    by (rule AllowIdentity_submillisecond [OF _ _ 1 2]) simp_all
  then show ?thesis by (simp only: Let_def length_replicate)
qed

text \<open>C13. The organization's and the provider's requests per minute hold in the same way, over
  every sequence of calls in one minute bucket, for keys whose limit is positive.\<close>

theorem AllowOrganization_within_limit:
  assumes "\<And>c. c \<in> set cs \<Longrightarrow> minuteBucket (cNow c) = b \<and> 0 < rpm (cKey c) \<and> 0 \<le> cWait c" "sum_list (map cWait cs) < 70000"
    "strs r (organizationRequestKey k b) = None" "strs r (providerRequestKey k b) = None" "0 < rpm k"
  shows "int (length (granted (\<lambda>c. cKey c = k) cs (fst (run cWait (organizationStep rpm) cs r)))) \<le> rpm k \<and>
    int (length (granted (\<lambda>c. cKey c = k) cs (fst (run cWait (providerStep rpm) cs r)))) \<le> rpm k"
  using organization_requests.run_bounded [of cs b cWait r "clock r + 70000" k 0 rpm]
    provider_requests.run_bounded [of cs b rpm cWait r "clock r + 70000" k 0]
    assms(1,2,5) fresh_held [OF assms(3)] fresh_held [OF assms(4)]
  by (simp add: sum_ones)

theorem AllowOrganization_within_limit_witness:
  "let c = \<lparr>cTransport = Reply, cNow = 1700000000000, cWait = 1, cKey = ''org'', cTokens = 0\<rparr>; cs = [c, c, c]
   in int (length (granted (\<lambda>c. cKey c = ''org'') cs (fst (run cWait (organizationStep (\<lambda>_. 2)) cs (empty_redis 0))))) \<le> 2"
proof -
  let ?c = "\<lparr>cTransport = Reply, cNow = 1700000000000, cWait = 1, cKey = ''org'', cTokens = 0\<rparr>"
  have 1: "\<And>c. c \<in> set [?c, ?c, ?c] \<Longrightarrow> minuteBucket (cNow c) = minuteBucket 1700000000000 \<and>
      0 < (\<lambda>_ :: string. 2 :: int) (cKey c) \<and> 0 \<le> cWait c"
    by auto
  have 2: "sum_list (map cWait [?c, ?c, ?c]) < 70000" by simp
  have 3: "strs (empty_redis 0) x = None" for x by (simp add: empty_redis_def)
  show ?thesis
    using AllowOrganization_within_limit [OF 1 2 3 3, of "''org''"] unfolding Let_def by simp
qed

text \<open>C10. The concurrency limit of an organization holds for two hours from any moment when its counter is
  absent and it holds no slot, over every interleaving of acquisitions, refusals, releases, lost
  requests, lost replies and passing time: the slots held are at most what the counter says, and that
  is at most the limit. The counter exceeds the slots held by no more than the calls that failed, so
  it is exact when none did. Each call is carried out at most once.\<close>

theorem organization_slots_bounded:
  assumes "(slot_step organizationKey organizationAcquire organizationRelease limit)\<^sup>*\<^sup>* (r0, hs0, lost0) (r, holders, lost)"
    "strs r0 (organizationKey k) = None" "k \<notin> set hs0" "k \<notin> set lost0" "clock r < clock r0 + 2 * 3600 * 1000"
  shows "int (count_list holders k) \<le> organizationActive k r \<and> organizationActive k r \<le> max 0 (limit k) \<and>
    organizationActive k r \<le> int (count_list holders k) + int (count_list lost k)"
  using organization_slots.slots_bounded [OF assms(1-4)] assms(5) by (simp add: organizationActive_def)

text \<open>A run: a slot is granted, a second acquisition loses its reply, an hour passes, a third is refused.\<close>

lemma organization_slots_run:
  "\<exists>r. (slot_step organizationKey organizationAcquire organizationRelease (\<lambda>_. 2))\<^sup>*\<^sup>* (empty_redis 0, [], []) (r, [''org''], [''org'']) \<and>
     clock r = 3600000"
proof -
  let ?step = "slot_step organizationKey organizationAcquire organizationRelease (\<lambda>_. 2)"
  let ?k = "organizationKey ''org''"
  define r1 where "r1 = (empty_redis 0)\<lparr>strs := Map.empty(?k \<mapsto> (1, Some 7200000))\<rparr>"
  define r2 where "r2 = (empty_redis 0)\<lparr>strs := Map.empty(?k \<mapsto> (2, Some 7200000))\<rparr>"
  define r3 where "r3 = tick 3600000 r2"
  note eval = organizationAcquire_eq concurrencyAcquire_eq bump_def INCRBY_def PEXPIRE_def DEL_def alive_def Let_def
    empty_redis_def tick_def r1_def r2_def r3_def
  have a: "organizationAcquire Reply ''org'' 2 (empty_redis 0) = (True, r1)"
    "organizationAcquire LostReply ''org'' 2 r1 = (False, r2)"
    "organizationAcquire Reply ''org'' 2 r3 = (False, r3)"
    by (simp_all add: eval)
  have 1: "?step (empty_redis 0, [], []) (r1, [''org''], [])" by (rule slot_step.acquired [where t = Reply and l = 2]) (simp_all add: a)
  have 2: "?step (r1, [''org''], []) (r2, [''org''], [''org''])" by (rule slot_step.acquire_failed [where t = LostReply and l = 2]) (simp_all add: a)
  have 3: "?step (r2, [''org''], [''org'']) (r3, [''org''], [''org''])" unfolding r3_def by (rule slot_step.waits) simp
  have 4: "?step (r3, [''org''], [''org'']) (r3, [''org''], [''org''])" by (rule slot_step.refused [where k = "''org''" and l = 2]) (simp_all add: a)
  have "?step\<^sup>*\<^sup>* (empty_redis 0, [], []) (r3, [''org''], [''org''])"
    by (rule converse_rtranclp_into_rtranclp [OF 1 converse_rtranclp_into_rtranclp [OF 2
        converse_rtranclp_into_rtranclp [OF 3 r_into_rtranclp [of ?step, OF 4]]]])
  moreover have "clock r3 = 3600000" by (simp add: eval)
  ultimately show ?thesis by blast
qed

theorem organization_slots_bounded_witness:
  "\<exists>r. (slot_step organizationKey organizationAcquire organizationRelease (\<lambda>_. 2))\<^sup>*\<^sup>* (empty_redis 0, [], []) (r, [''org''], [''org'']) \<and>
     1 \<le> organizationActive ''org'' r \<and> organizationActive ''org'' r \<le> 2"
proof -
  obtain r where r: "(slot_step organizationKey organizationAcquire organizationRelease (\<lambda>_. 2))\<^sup>*\<^sup>*
      (empty_redis 0, [], []) (r, [''org''], [''org''])" "clock r = 3600000" using organization_slots_run by blast
  from organization_slots_bounded [OF r(1), of "''org''"] r show ?thesis by (auto simp: empty_redis_def)
qed

text \<open>C14. The counter does not live as long as its holders: its expiry is set by the first acquisition
  only and never renewed, so two hours after it an organization with a limit of one gets a second
  slot while the first is still held, and releasing the first then frees the second one's slot too.\<close>

theorem organization_slot_expires:
  "\<exists>rel1 rel2 rel3 r1 r2 r3.
     AcquireOrganizationConcurrency False Reply org 1 (empty_redis now) = (Inr (Some rel1, 1), r1) \<and>
     AcquireOrganizationConcurrency False Reply org 1 (tick 7199999 r1) = (Inr (None, 1), r2) \<and>
     AcquireOrganizationConcurrency False Reply org 1 (tick 1 r2) = (Inr (Some rel2, 1), r3) \<and>
     fst (AcquireOrganizationConcurrency False Reply org 1 (snd (snd (callRelease Reply rel1 r3)))) = Inr (Some rel3, 1)"
  by (simp add: AcquireOrganizationConcurrency_def callRelease_def runScript_def concurrencyAcquireScript_def
      concurrencyReleaseScript_def bump_def INCRBY_def PEXPIRE_def GET_def DEL_def empty_redis_def alive_def tick_def Let_def)

end
