(* ===== verification/Scheduler.thy ===== *)
theory Scheduler
  imports RateLimit "HOL-Library.Log_Nat"
begin

text \<open>
  Credential scheduling: \<^verbatim>\<open>internal/scheduler/scheduler.go\<close>, \<^verbatim>\<open>internal/scheduler/lifecycle.go\<close>
  and the query \<open>Candidates\<close> of \<^verbatim>\<open>internal/store/resources.go\<close>. A request to a credential group filters
  the group's credentials (tenant, owner, filters, tags, free capacity), ranks them and acquires a
  concurrency slot of the first that has one.

  The Go interfaces \<open>Counter\<close> and \<open>WeightedChooser\<close> are the record \<open>CounterOps\<close>, an argument of the
  scheduler; \<open>RedisCounter\<close> is the implementation, on the keyspace of \<open>Redis\<close>. Scores and loads are
  \<open>float64\<close> quotients: \<open>fl64\<close> is the rounding to 53 bits, half to even, on rationals; the operands are
  integers far inside the exact range, so no overflow or subnormal case arises. A credential record
  keeps the fields the scheduler reads or writes.
\<close>

section \<open>Floating point quotients\<close>

definition pow2 :: "int \<Rightarrow> rat" where
  "pow2 e = (if 0 \<le> e then 2 ^ nat e else 1 / 2 ^ nat (- e))"

definition round_even :: "rat \<Rightarrow> int" where
  "round_even q = (let f = \<lfloor>q\<rfloor>; r = q - of_int f in
     if r < 1 / 2 then f else if r > 1 / 2 then f + 1 else if even f then f else f + 1)"

definition fl64 :: "rat \<Rightarrow> rat" where
  "fl64 x = (if x = 0 then 0 else
     let (n, d) = quotient_of \<bar>x\<bar>;
         e0 = int (floorlog 2 (nat n)) - int (floorlog 2 (nat d)) - 53;
         e = (if \<bar>x\<bar> / pow2 e0 < 2 ^ 53 then e0 else e0 + 1);
         m = of_int (round_even (\<bar>x\<bar> / pow2 e)) * pow2 e
     in if x < 0 then - m else m)"

section \<open>Credentials\<close>

record Credential =
  ID :: string
  OrganizationID :: "string option"
  Status :: string
  Priority :: int
  Weight :: int
  MaxConcurrency :: int
  CurrentHealth :: string
  CooldownUntil :: "int option"
  ActiveRequests :: int
  EffectiveWeight :: int
  EffectivePriority :: int
  Tags :: "string list"
  CredentialOwner :: string
  OwnerOrganizationID :: "string option"
  BYOKPrioritySection :: string
  SharedCapacityFallback :: string
  ModelFilters :: "string list"
  APIKeyFilters :: "string list"
  MemberFilters :: "string list"
  ProviderOf :: string

record CredentialConstraints =
  RequiredTags :: "string list"
  ExcludedTags :: "string list"
  ConstraintModel :: string
  APIKeyID :: string
  MemberID :: string
  UseSharedCapacity :: "bool option"

text \<open>The query behind \<open>Candidates\<close>: the members of the group whose provider is enabled, in an open
  status and out of cooldown, with the member's weight and priority, in the order of the query.\<close>

record GroupMember =
  memberGroup :: string
  memberCredential :: string
  memberWeight :: int
  memberPriority :: int

definition Candidates ::
  "int \<Rightarrow> GroupMember list \<Rightarrow> Credential list \<Rightarrow> (string \<Rightarrow> bool) \<Rightarrow> string \<Rightarrow> Credential list" where
  "Candidates now members credentials providerEnabled groupID =
     sort_key (\<lambda>c. (- EffectivePriority c, - Priority c, ID c))
       [c\<lparr>EffectiveWeight := memberWeight m, EffectivePriority := memberPriority m\<rparr>.
          m \<leftarrow> members, c \<leftarrow> credentials,
          memberGroup m = groupID \<and> ID c = memberCredential m \<and> providerEnabled (ProviderOf c) \<and>
          Status c \<in> {''ACTIVE'', ''RATE_LIMITED'', ''COOLDOWN''} \<and>
          (case CooldownUntil c of None \<Rightarrow> True | Some t \<Rightarrow> t \<le> now)]"

section \<open>Filters\<close>

definition stringFilterMatches :: "string list \<Rightarrow> string \<Rightarrow> bool" where
  "stringFilterMatches filters value =
     (if filters = [] then True
      else let value = ToLower (TrimSpace value) in list_ex (\<lambda>f. ToLower (TrimSpace f) = value) filters)"

definition credentialActorFiltersMatch :: "Credential \<Rightarrow> CredentialConstraints \<Rightarrow> bool" where
  "credentialActorFiltersMatch c cons =
     (stringFilterMatches (APIKeyFilters c) (APIKeyID cons) \<and> stringFilterMatches (MemberFilters c) (MemberID cons))"

definition credentialFiltersMatch :: "Credential \<Rightarrow> CredentialConstraints \<Rightarrow> bool" where
  "credentialFiltersMatch c cons =
     (credentialActorFiltersMatch c cons \<and> stringFilterMatches (ModelFilters c) (ConstraintModel cons))"

definition matchesCredentialTags :: "string list \<Rightarrow> CredentialConstraints \<Rightarrow> bool" where
  "matchesCredentialTags tags cons =
     (list_all (\<lambda>required. required \<in> set tags) (RequiredTags cons) \<and>
      list_all (\<lambda>excluded. excluded \<notin> set tags) (ExcludedTags cons))"

section \<open>The counter\<close>

record 's CounterOps =
  TryAcquire :: "string \<Rightarrow> int \<Rightarrow> 's \<Rightarrow> (bool \<times> int) option \<times> 's"
  ReleaseSlot :: "string \<Rightarrow> 's \<Rightarrow> 's"
  Active :: "string \<Rightarrow> 's \<Rightarrow> int option"
  ChooseWeighted :: "(string \<Rightarrow> (string \<times> int) list \<Rightarrow> 's \<Rightarrow> string option \<times> 's) option"

definition activeKey :: "string \<Rightarrow> string" where
  "activeKey i = ''rdk:active:'' @ i"

definition acquireScript :: "string \<Rightarrow> int \<Rightarrow> int \<Rightarrow> redis \<Rightarrow> (int \<times> int) \<times> redis" where
  "acquireScript key maxN seconds r =
     (let (n, r) = INCRBY key 1 r;
          r = (if n = 1 then EXPIRE key seconds r else r)
      in if n > maxN then ((- 1, n - 1), snd (INCRBY key (- 1) r)) else ((1, n), r))"

definition releaseScript :: "string \<Rightarrow> redis \<Rightarrow> int \<times> redis" where
  "releaseScript key r =
     (let n = (case GET key r of None \<Rightarrow> 0 | Some n \<Rightarrow> n)
      in if n \<le> 1 then (0, DEL key r) else INCRBY key (- 1) r)"

text \<open>The loop of the weighted round robin script: total weight, best so far, state.\<close>

fun wrrLoop :: "string \<Rightarrow> (string \<times> int) list \<Rightarrow> int \<times> (string \<times> int) option \<times> redis \<Rightarrow> int \<times> (string \<times> int) option \<times> redis" where
  "wrrLoop key [] acc = acc"
| "wrrLoop key ((i, weight) # rest) (tot, best, r) =
     (let tot = tot + weight;
          score = (case HGET key i r of None \<Rightarrow> 0 | Some v \<Rightarrow> v) + weight;
          r = HSET key i score r;
          best = (case best of None \<Rightarrow> Some (i, score)
            | Some (b, bestScore) \<Rightarrow> if score > bestScore \<or> (score = bestScore \<and> i < b) then Some (i, score) else best)
      in wrrLoop key rest (tot, best, r))"

definition weightedRoundRobinScript :: "string \<Rightarrow> (string \<times> int) list \<Rightarrow> redis \<Rightarrow> string \<times> redis" where
  "weightedRoundRobinScript key args r =
     (case wrrLoop key args (0, None, r) of
        (tot, None, r) \<Rightarrow> ([], r)
      | (tot, Some (best, _), r) \<Rightarrow> (best, EXPIRE key 86400 (HINCRBY key best (- tot) r)))"

definition wrrKey :: "string \<Rightarrow> string" where
  "wrrKey groupID = ''rdk:wrr:'' @ groupID"

definition RedisCounter :: "transport \<Rightarrow> redis CounterOps" where
  "RedisCounter t = \<lparr>
     TryAcquire = (\<lambda>i maxN r. let (v, r) = runScript t (acquireScript (activeKey i) maxN 7200) r
        in (map_option (\<lambda>(ok, active). (ok = 1, active)) v, r)),
     ReleaseSlot = (\<lambda>i r. snd (runScript t (releaseScript (activeKey i)) r)),
     Active = (\<lambda>i r. if t = Reply then Some (case GET (activeKey i) r of None \<Rightarrow> 0 | Some n \<Rightarrow> n) else None),
     ChooseWeighted = Some (\<lambda>groupID candidates r.
        runScript t (weightedRoundRobinScript (wrrKey groupID) (map (\<lambda>(i, w). (i, max w 1)) candidates)) r)\<rparr>"

section \<open>Selection\<close>

datatype sched_error = ErrNoCredential | ErrStateUnavailable | SourceError string

datatype policy = PriorityWeighted | LeastLoaded | WeightedRoundRobin

definition policyOf :: "string \<Rightarrow> policy" where
  "policyOf requested =
     (if requested = ''least_loaded'' then LeastLoaded
      else if requested = ''weighted_round_robin'' then WeightedRoundRobin
      else PriorityWeighted)"

record Ranked =
  rc :: Credential
  rActive :: int
  rScore :: rat
  rTier :: int

record Selection =
  Selected :: Credential
  Healthy :: bool
  SelScore :: rat
  SelPolicy :: policy
  SharedBlocked :: bool
  ReleaseID :: "string option"

text \<open>A customer's own credential may forbid falling back to the platform's.\<close>

definition blocksShared :: "CredentialConstraints \<Rightarrow> string \<Rightarrow> Credential \<Rightarrow> bool" where
  "blocksShared cons organizationID c =
     (if CredentialOwner c \<noteq> ''CUSTOMER'' \<or> OwnerOrganizationID c = None \<or>
         OwnerOrganizationID c \<noteq> Some organizationID \<or> \<not> credentialActorFiltersMatch c cons then False
      else SharedCapacityFallback c = ''NEVER'' \<or>
           (SharedCapacityFallback c = ''OUTSIDE_FILTERS'' \<and> stringFilterMatches (ModelFilters c) (ConstraintModel cons)))"

definition blockShared :: "CredentialConstraints \<Rightarrow> string \<Rightarrow> Credential list \<Rightarrow> bool" where
  "blockShared cons organizationID candidates =
     (UseSharedCapacity cons = Some False \<or> list_ex (blocksShared cons organizationID) candidates)"

text \<open>The tests that skip a candidate before its counter is read.\<close>

definition admissible :: "bool \<Rightarrow> CredentialConstraints \<Rightarrow> string \<Rightarrow> Credential \<Rightarrow> bool" where
  "admissible blocked cons organizationID c =
     (if OrganizationID c \<noteq> None \<and> OrganizationID c \<noteq> Some organizationID then False
      else if CredentialOwner c = ''CUSTOMER'' \<and> (OwnerOrganizationID c = None \<or> OwnerOrganizationID c \<noteq> Some organizationID) then False
      else if CredentialOwner c = ''PLATFORM'' \<and> blocked then False
      else if \<not> credentialFiltersMatch c cons then False
      else if \<not> matchesCredentialTags (Tags c) cons then False
      else True)"

definition rankOne :: "Credential \<Rightarrow> int \<Rightarrow> Ranked" where
  "rankOne c active =
     (let weight = (if EffectiveWeight c \<le> 0 then Weight c else EffectiveWeight c);
          priority = (if EffectivePriority c = 0 then Priority c else EffectivePriority c);
          score = fl64 (of_int weight / of_int (active + 1));
          tier = (if CredentialOwner c = ''CUSTOMER''
                  then (if BYOKPrioritySection c = ''FALLBACK'' then 1 else 3) else 2)
      in \<lparr>rc = c\<lparr>ActiveRequests := active, EffectiveWeight := weight, EffectivePriority := priority\<rparr>,
          rActive = active, rScore = score, rTier = tier\<rparr>)"

fun rankAll :: "'s CounterOps \<Rightarrow> bool \<Rightarrow> CredentialConstraints \<Rightarrow> string \<Rightarrow> 's \<Rightarrow> Credential list \<Rightarrow> sched_error + Ranked list" where
  "rankAll ops blocked cons organizationID s [] = Inr []"
| "rankAll ops blocked cons organizationID s (c # cs) =
     (if \<not> admissible blocked cons organizationID c then rankAll ops blocked cons organizationID s cs
      else case Active ops (ID c) s of None \<Rightarrow> Inl ErrStateUnavailable
        | Some active \<Rightarrow>
            if active \<ge> MaxConcurrency c then rankAll ops blocked cons organizationID s cs
            else bindE (rankAll ops blocked cons organizationID s cs) (\<lambda>l. Inr (rankOne c active # l)))"

definition lessLoaded :: "Ranked \<Rightarrow> Ranked \<Rightarrow> bool" where
  "lessLoaded i j =
     (if rTier i \<noteq> rTier j then rTier i > rTier j
      else let iLoad = fl64 (of_int (rActive i) / of_int (max (MaxConcurrency (rc i)) 1));
               jLoad = fl64 (of_int (rActive j) / of_int (max (MaxConcurrency (rc j)) 1)) in
      if iLoad \<noteq> jLoad then iLoad < jLoad
      else if EffectivePriority (rc i) \<noteq> EffectivePriority (rc j) then EffectivePriority (rc i) > EffectivePriority (rc j)
      else ID (rc i) < ID (rc j))"

definition lessPriority :: "Ranked \<Rightarrow> Ranked \<Rightarrow> bool" where
  "lessPriority i j =
     (if rTier i \<noteq> rTier j then rTier i > rTier j
      else if EffectivePriority (rc i) \<noteq> EffectivePriority (rc j) then EffectivePriority (rc i) > EffectivePriority (rc j)
      else if rScore i \<noteq> rScore j then rScore i > rScore j
      else ID (rc i) < ID (rc j))"

text \<open>\<open>sort.SliceStable\<close>: the stable order a strict weak order determines.\<close>

fun insertBy :: "('a \<Rightarrow> 'a \<Rightarrow> bool) \<Rightarrow> 'a \<Rightarrow> 'a list \<Rightarrow> 'a list" where
  "insertBy lt x [] = [x]"
| "insertBy lt x (y # ys) = (if lt y x then y # insertBy lt x ys else x # y # ys)"

definition SliceStable :: "('a \<Rightarrow> 'a \<Rightarrow> bool) \<Rightarrow> 'a list \<Rightarrow> 'a list" where
  "SliceStable lt xs = foldr (insertBy lt) xs []"

definition lessOf :: "policy \<Rightarrow> Ranked \<Rightarrow> Ranked \<Rightarrow> bool" where
  "lessOf p = (if p = LeastLoaded then lessLoaded else lessPriority)"

text \<open>Weighted round robin among the credentials that share the first one's tier and priority: the
  chosen one changes places with the first.\<close>

definition topGroup :: "Ranked list \<Rightarrow> (string \<times> int) list" where
  "topGroup l = map (\<lambda>i. (ID (rc i), EffectiveWeight (rc i)))
     (takeWhile (\<lambda>i. rTier i = rTier (hd l) \<and> EffectivePriority (rc i) = EffectivePriority (rc (hd l))) l)"

definition swapFirst :: "string \<Rightarrow> Ranked list \<Rightarrow> Ranked list" where
  "swapFirst chosen l =
     (let i = length (takeWhile (\<lambda>x. ID (rc x) \<noteq> chosen) l)
      in if i < length l then (l[0 := l ! i])[i := l ! 0] else l)"

definition reorder :: "'s CounterOps \<Rightarrow> string \<Rightarrow> policy \<Rightarrow> Ranked list \<Rightarrow> 's \<Rightarrow> (sched_error + Ranked list) \<times> 's" where
  "reorder ops groupID p l s =
     (if p = WeightedRoundRobin \<and> length l > 1 then
        (case ChooseWeighted ops of None \<Rightarrow> (Inr l, s)
         | Some chooser \<Rightarrow> (case chooser groupID (topGroup l) s of
              (None, s) \<Rightarrow> (Inl ErrStateUnavailable, s)
            | (Some chosen, s) \<Rightarrow> (Inr (swapFirst chosen l), s)))
      else (Inr l, s))"

fun acquireFirst :: "'s CounterOps \<Rightarrow> Ranked list \<Rightarrow> 's \<Rightarrow> (sched_error + Ranked \<times> int) \<times> 's" where
  "acquireFirst ops [] s = (Inl ErrNoCredential, s)"
| "acquireFirst ops (r # rs) s =
     (case TryAcquire ops (ID (rc r)) (MaxConcurrency (rc r)) s of
        (None, s) \<Rightarrow> (Inl ErrStateUnavailable, s)
      | (Some (ok, active), s) \<Rightarrow> if \<not> ok then acquireFirst ops rs s else (Inr (r, active), s))"

definition selection :: "policy \<Rightarrow> bool \<Rightarrow> Ranked \<Rightarrow> int \<Rightarrow> Selection" where
  "selection p blocked r active =
     \<lparr>Selected = (rc r)\<lparr>ActiveRequests := active\<rparr>, Healthy = (CurrentHealth (rc r) \<noteq> ''UNHEALTHY''),
      SelScore = rScore r, SelPolicy = p, SharedBlocked = blocked, ReleaseID = Some (ID (rc r))\<rparr>"

definition SelectConstrainedForOrganization ::
  "'s CounterOps \<Rightarrow> (sched_error + Credential list) \<Rightarrow> string \<Rightarrow> string \<Rightarrow> CredentialConstraints \<Rightarrow> string \<Rightarrow> 's \<Rightarrow>
   (sched_error + Selection) \<times> 's" where
  "SelectConstrainedForOrganization ops source groupID requestedPolicy cons organizationID s =
     (let p = policyOf requestedPolicy in
      case source of Inl e \<Rightarrow> (Inl e, s)
      | Inr candidates \<Rightarrow>
        if candidates = [] then (Inl ErrNoCredential, s)
        else let blocked = blockShared cons organizationID candidates in
        case rankAll ops blocked cons organizationID s candidates of Inl e \<Rightarrow> (Inl e, s)
        | Inr l \<Rightarrow>
          (case reorder ops groupID p (SliceStable (lessOf p) l) s of (Inl e, s) \<Rightarrow> (Inl e, s)
           | (Inr l, s) \<Rightarrow>
             (case acquireFirst ops l s of (Inl e, s) \<Rightarrow> (Inl e, s)
              | (Inr (r, active), s) \<Rightarrow> (Inr (selection p blocked r active), s))))"

definition noConstraints :: CredentialConstraints where
  "noConstraints = \<lparr>RequiredTags = [], ExcludedTags = [], ConstraintModel = [], APIKeyID = [], MemberID = [],
     UseSharedCapacity = None\<rparr>"

definition SelectConstrained where
  "SelectConstrained ops source groupID requestedPolicy cons s =
     SelectConstrainedForOrganization ops source groupID requestedPolicy cons [] s"

definition SelectDefault where
  "SelectDefault ops source groupID requestedPolicy s =
     SelectConstrained ops source groupID (case requestedPolicy of None \<Rightarrow> ''priority_weighted'' | Some p \<Rightarrow> p) noConstraints s"

text \<open>\<open>Selection.Release\<close>: at most once.\<close>

definition ReleaseSelection :: "'s CounterOps \<Rightarrow> Selection \<Rightarrow> 's \<Rightarrow> Selection \<times> 's" where
  "ReleaseSelection ops sel s =
     (case ReleaseID sel of None \<Rightarrow> (sel, s)
      | Some i \<Rightarrow> (sel\<lparr>ReleaseID := None\<rparr>, ReleaseSlot ops i s))"

section \<open>Credential lifecycle\<close>

record CredentialTransition =
  NextStatus :: string
  NextCooldown :: "int option"
  MarkSuccess :: bool

definition TransitionForHTTP :: "int \<Rightarrow> int \<Rightarrow> int \<Rightarrow> CredentialTransition" where
  "TransitionForHTTP status now cooldown =
     (if status = 401 then \<lparr>NextStatus = ''AUTH_FAILED'', NextCooldown = None, MarkSuccess = False\<rparr>
      else if status = 429 then \<lparr>NextStatus = ''COOLDOWN'', NextCooldown = Some (now + cooldown), MarkSuccess = False\<rparr>
      else if 200 \<le> status \<and> status < 400 then \<lparr>NextStatus = ''ACTIVE'', NextCooldown = None, MarkSuccess = True\<rparr>
      else \<lparr>NextStatus = [], NextCooldown = None, MarkSuccess = False\<rparr>)"

section \<open>What a selection promises\<close>

text \<open>The order of service, on the fields of a credential: an organization's own credentials come first,
  shared ones second, its own fallbacks last. Weight and priority are the group's, or the
  credential's where the group has none; score and load depend on the requests running.\<close>

definition placeOf :: "Credential \<Rightarrow> int" where
  "placeOf c =
     (if CredentialOwner c \<noteq> ''CUSTOMER'' then 2
      else if BYOKPrioritySection c = ''FALLBACK'' then 3 else 1)"

definition weightOf :: "Credential \<Rightarrow> int" where
  "weightOf c = (if 0 < EffectiveWeight c then EffectiveWeight c else Weight c)"

definition priorityOf :: "Credential \<Rightarrow> int" where
  "priorityOf c = (if EffectivePriority c \<noteq> 0 then EffectivePriority c else Priority c)"

definition scoreOf :: "int \<Rightarrow> Credential \<Rightarrow> rat" where
  "scoreOf running c = fl64 (of_int (weightOf c) / of_int (running + 1))"

definition loadOf :: "int \<Rightarrow> Credential \<Rightarrow> rat" where
  "loadOf running c = fl64 (of_int running / of_int (max (MaxConcurrency c) 1))"

section \<open>Lemmas on ranking\<close>

lemma set_insertBy [simp]: "set (insertBy lt x xs) = insert x (set xs)"
  by (induction xs) auto

lemma set_SliceStable [simp]: "set (SliceStable lt xs) = set xs"
  by (induction xs) (simp_all add: SliceStable_def)

lemma SliceStable_simps: "SliceStable lt [] = []" "SliceStable lt (x # xs) = insertBy lt x (SliceStable lt xs)"
  by (simp_all add: SliceStable_def)

lemma distinct_SliceStable: "distinct (map f (SliceStable lt xs)) = distinct (map f xs)"
proof -
  have "distinct (map f (insertBy lt x ys)) \<longleftrightarrow> f x \<notin> f ` set ys \<and> distinct (map f ys)" for x ys
    by (induction ys) auto
  then show ?thesis by (induction xs) (simp_all add: SliceStable_simps)
qed

lemma SliceStable_Nil [simp]: "SliceStable lt xs = [] \<longleftrightarrow> xs = []"
  by (metis set_SliceStable set_empty)

text \<open>Nothing in the sorted list comes before its head.\<close>

lemma hd_SliceStable:
  fixes key :: "'a \<Rightarrow> 'b :: linorder"
  assumes "\<And>a b. lt a b \<longleftrightarrow> key a < key b"
  shows "x \<in> set xs \<Longrightarrow> \<not> lt x (hd (SliceStable lt xs))"
proof (induction xs arbitrary: x)
  case (Cons y ys)
  show ?case
  proof (cases "SliceStable lt ys")
    case Nil
    then have "ys = []" by simp
    then show ?thesis using Cons.prems assms by (simp add: SliceStable_simps)
  next
    case z: (Cons z zs)
    have "key z \<le> key w" if "w \<in> set ys" for w
      using Cons.IH [OF that] unfolding z list.sel by (metis assms not_less)
    then have "\<not> key x < key (if key z < key y then z else y)" using Cons.prems by (auto simp: not_less intro: order_trans)
    moreover have "hd (SliceStable lt (y # ys)) = (if key z < key y then z else y)"
      using assms [of z y] by (simp add: SliceStable_simps z)
    ultimately show ?thesis using assms [of x "if key z < key y then z else y"] by presburger
  qed
qed simp

lemma sorted_SliceStable:
  fixes key :: "'a \<Rightarrow> 'b :: linorder"
  assumes "\<And>a b. lt a b \<longleftrightarrow> key a < key b"
  shows "sorted (map key (SliceStable lt xs))"
proof -
  have "sorted (map key (insertBy lt x ys))" if "sorted (map key ys)" for x ys
    using that by (induction ys) (auto simp: assms not_less)
  then show ?thesis by (induction xs) (simp_all add: SliceStable_simps)
qed

text \<open>In a sorted list the elements equal to a least one are an initial segment.\<close>

lemma takeWhile_least:
  fixes f :: "'a \<Rightarrow> 'b :: linorder"
  shows "sorted (map f l) \<Longrightarrow> (\<And>x. x \<in> set l \<Longrightarrow> v \<le> f x) \<Longrightarrow> takeWhile (\<lambda>x. f x = v) l = filter (\<lambda>x. f x = v) l"
proof (induction l)
  case (Cons y l)
  show ?case
  proof (cases "f y = v")
    case True
    then show ?thesis using Cons by simp
  next
    case False
    then have "v < f y" using Cons.prems(2) by (simp add: order_less_le)
    then have "filter (\<lambda>x. f x = v) l = []" using Cons.prems(1) by (auto simp: filter_empty_conv)
    then show ?thesis using False by simp
  qed
qed simp

lemma lessPriority_key: "lessPriority i j \<longleftrightarrow>
    (- rTier i, - EffectivePriority (rc i), - rScore i, ID (rc i)) < (- rTier j, - EffectivePriority (rc j), - rScore j, ID (rc j))"
  unfolding lessPriority_def
  by (cases "rTier i = rTier j"; cases "EffectivePriority (rc i) = EffectivePriority (rc j)"; cases "rScore i = rScore j")
    (simp_all, linarith+)

lemma lessLoaded_key: "lessLoaded i j \<longleftrightarrow>
    (- rTier i, fl64 (of_int (rActive i) / of_int (max (MaxConcurrency (rc i)) 1)), - EffectivePriority (rc i), ID (rc i)) <
    (- rTier j, fl64 (of_int (rActive j) / of_int (max (MaxConcurrency (rc j)) 1)), - EffectivePriority (rc j), ID (rc j))"
proof -
  define a b where "a = fl64 (of_int (rActive i) / of_int (max (MaxConcurrency (rc i)) 1))"
    and "b = fl64 (of_int (rActive j) / of_int (max (MaxConcurrency (rc j)) 1))"
  show ?thesis
    unfolding lessLoaded_def Let_def a_def [symmetric] b_def [symmetric]
    by (cases "rTier i = rTier j"; cases "EffectivePriority (rc i) = EffectivePriority (rc j)"; cases "a = b")
      (simp_all, linarith+)
qed

lemma hd_sorted: "x \<in> set xs \<Longrightarrow> \<not> lessOf p x (hd (SliceStable (lessOf p) xs))"
  using hd_SliceStable [of lessPriority, OF lessPriority_key] hd_SliceStable [of lessLoaded, OF lessLoaded_key]
  by (simp add: lessOf_def)

lemma rankAll_filter:
  "rankAll ops b cons org s cs = Inr l \<Longrightarrow>
   l = map (\<lambda>c. rankOne c (the (Active ops (ID c) s)))
     (filter (\<lambda>c. admissible b cons org c \<and> (\<exists>a. Active ops (ID c) s = Some a \<and> a < MaxConcurrency c)) cs)"
proof (induction cs arbitrary: l)
  case (Cons c cs)
  then show ?case by (cases "Active ops (ID c) s") (auto split: if_splits)
qed simp

lemma rankAll_set:
  assumes "rankAll ops b cons org s cs = Inr l"
  shows "x \<in> set l \<longleftrightarrow> (\<exists>c a. c \<in> set cs \<and> admissible b cons org c \<and> Active ops (ID c) s = Some a \<and> a < MaxConcurrency c \<and> x = rankOne c a)"
  unfolding rankAll_filter [OF assms] by force

lemma set_swapFirst [simp]: "set (swapFirst ch l) = set l"
proof (cases "length (takeWhile (\<lambda>x. ID (rc x) \<noteq> ch) l) < length l")
  case True
  then have "0 < length l" by linarith
  from set_swap [OF this True] show ?thesis using True by (simp add: swapFirst_def Let_def)
qed (simp add: swapFirst_def Let_def)

lemma reorder_set: "reorder ops g p l s = (Inr l', s') \<Longrightarrow> set l' = set l"
  by (auto simp: reorder_def split: if_splits option.splits prod.splits)

lemma acquireFirst_Inr:
  "acquireFirst ops l s = (Inr (r, a), s') \<Longrightarrow>
   r \<in> set l \<and> (\<exists>s1. TryAcquire ops (ID (rc r)) (MaxConcurrency (rc r)) s1 = (Some (True, a), s'))"
  by (induction l arbitrary: s) (auto split: prod.splits option.splits if_splits)

lemma rankOne_simps [simp]: "ID (rc (rankOne c a)) = ID c" "MaxConcurrency (rc (rankOne c a)) = MaxConcurrency c"
  "rActive (rankOne c a) = a"
  by (simp_all add: rankOne_def Let_def)

lemma Select_Inr:
  assumes "SelectConstrainedForOrganization ops (Inr cands) g pol cons org s = (Inr sel, s')"
  obtains l l' r a s1 where "rankAll ops (blockShared cons org cands) cons org s cands = Inr l"
    "reorder ops g (policyOf pol) (SliceStable (lessOf (policyOf pol)) l) s = (Inr l', s1)"
    "acquireFirst ops l' s1 = (Inr (r, a), s')" "sel = selection (policyOf pol) (blockShared cons org cands) r a"
  using assms
  by (auto simp: SelectConstrainedForOrganization_def Let_def split: if_splits sum.splits prod.splits)

section \<open>The Redis counter\<close>

text \<open>A credential's slot as the scheduler's requests see it: whether \<open>TryAcquire\<close> answered yes, and the
  release that \<open>Selection.Release\<close> calls.\<close>

definition redisAcquire :: "transport \<Rightarrow> string \<Rightarrow> int \<Rightarrow> redis \<Rightarrow> bool \<times> redis" where
  "redisAcquire t i maxN r = (case TryAcquire (RedisCounter t) i maxN r of (v, r) \<Rightarrow> (case v of None \<Rightarrow> False | Some (ok, _) \<Rightarrow> ok, r))"

definition redisRelease :: "transport \<Rightarrow> string \<Rightarrow> redis \<Rightarrow> redis" where
  "redisRelease t i r = ReleaseSlot (RedisCounter t) i r"

definition redisActive :: "string \<Rightarrow> redis \<Rightarrow> int" where
  "redisActive i r = (case GET (activeKey i) r of None \<Rightarrow> 0 | Some n \<Rightarrow> n)"

lemma activeKey_eq [simp]: "activeKey j = activeKey k \<longleftrightarrow> j = k"
  by (simp add: activeKey_def)

lemma acquireScript_eq: "acquireScript k m 7200 r =
    (let n = fst (bump k 1 7200000 r); r1 = snd (bump k 1 7200000 r)
     in (if n > m then (- 1, n - 1) else (1, n), if n > m then snd (INCRBY k (- 1) r1) else r1))"
  by (simp add: acquireScript_def bump_def EXPIRE_def Let_def case_prod_beta)

lemma releaseScript_eq: "releaseScript = concurrencyReleaseScript"
  by (rule ext)+ (simp add: releaseScript_def concurrencyReleaseScript_def)

lemma redisAcquire_eq: "redisAcquire t k l r =
    (if t = LostRequest then (False, r)
     else (t = Reply \<and> fst (bump (activeKey k) 1 7200000 r) \<le> l, snd (acquireScript (activeKey k) l 7200 r)))"
  by (cases t) (simp_all add: redisAcquire_def RedisCounter_def runScript_def acquireScript_eq Let_def)

lemma redisRelease_eq: "redisRelease t k r = (if t = LostRequest then r else snd (concurrencyReleaseScript (activeKey k) r))"
  by (cases t) (simp_all add: redisRelease_def RedisCounter_def runScript_def releaseScript_eq case_prod_beta)

interpretation redis_slots: slot_counter activeKey 7200000 redisAcquire redisRelease
proof
  fix u k r t l g r'
  assume h: "held u (activeKey k) r" "clock r < u" "u \<le> clock r + 7200000" "redisAcquire t k l r = (g, r')"
  show "held u (activeKey k) r' \<and>
      val (activeKey k) r' = val (activeKey k) r + (if val (activeKey k) r' = val (activeKey k) r then 0 else 1) \<and>
      (val (activeKey k) r' \<noteq> val (activeKey k) r \<longrightarrow> val (activeKey k) r' \<le> l) \<and>
      (t = Reply \<or> g \<longrightarrow> g = (val (activeKey k) r' \<noteq> val (activeKey k) r))"
    using slot_acquire_script [OF h(1-3), of l] bump_held [OF h(1-3), of 1] h(1,4)
    by (auto simp: redisAcquire_eq acquireScript_eq Let_def split: if_splits)
next
  fix t k l r g r' j assume "redisAcquire t k l r = (g, r')"
  then show "clock r' = clock r \<and> (j \<noteq> k \<longrightarrow> strs r' (activeKey j) = strs r (activeKey j))"
    by (auto simp: redisAcquire_eq acquireScript_eq Let_def INCRBY_other bump_other split: if_splits)
next
  fix u k r t assume "held u (activeKey k) r" "clock r < u" "u \<le> clock r + 7200000"
  then show "held u (activeKey k) (redisRelease t k r) \<and> val (activeKey k) (redisRelease t k r) =
      (if t = LostRequest then val (activeKey k) r else max 0 (val (activeKey k) r - 1))"
    using slot_release_script by (simp add: redisRelease_eq)
next
  fix t k r j
  show "clock (redisRelease t k r) = clock r \<and> (j \<noteq> k \<longrightarrow> strs (redisRelease t k r) (activeKey j) = strs r (activeKey j))"
    by (simp add: redisRelease_eq release_script_other)
qed

lemma redis_TryAcquire:
  "redisActive i r < m \<Longrightarrow> \<exists>r'. TryAcquire (RedisCounter Reply) i m r = (Some (True, redisActive i r + 1), r')"
  by (simp add: RedisCounter_def runScript_def acquireScript_eq redisActive_def bump_fst Let_def)

lemma redis_Active: "Active (RedisCounter Reply) i r = Some (redisActive i r)"
  by (simp add: RedisCounter_def redisActive_def)

lemma wrrLoop_strs: "strs (snd (snd (wrrLoop k l acc))) = strs (snd (snd acc)) \<and> clock (snd (snd (wrrLoop k l acc))) = clock (snd (snd acc))"
  by (induction k l acc rule: wrrLoop.induct) (auto simp: Let_def)

lemma wrr_GET: "GET j (snd (weightedRoundRobinScript k args r)) = GET j r"
proof -
  have g: "GET j (snd (snd (wrrLoop k args (0, None, r)))) = GET j r"
    using wrrLoop_strs [of k args "(0, None, r)"] by (simp add: GET_def)
  have h: "GET j (HINCRBY k f d s) = GET j s" for f d s by (simp add: GET_def HINCRBY_def)
  show ?thesis using g by (auto simp: weightedRoundRobinScript_def GET_EXPIRE h split: prod.splits option.splits)
qed

lemma reorder_redis:
  "\<exists>l' r'. reorder (RedisCounter Reply) g p l r = (Inr l', r') \<and> set l' = set l \<and> (\<forall>i. redisActive i r' = redisActive i r)"
proof (cases "p = WeightedRoundRobin \<and> length l > 1")
  case True
  obtain ch r' where s: "weightedRoundRobinScript (wrrKey g) (map (\<lambda>(i, w). (i, max w 1)) (topGroup l)) r = (ch, r')"
    by fastforce
  then have "GET i r' = GET i r" for i using wrr_GET by (metis snd_conv)
  then show ?thesis using True s by (simp add: reorder_def RedisCounter_def runScript_def redisActive_def)
qed (auto simp: reorder_def)

lemma rankAll_redis: "\<exists>l. rankAll (RedisCounter Reply) b cons org r cs = Inr l"
  by (induction cs) (auto simp: redis_Active)

lemma acquireFirst_redis:
  assumes "l \<noteq> []" "redisActive (ID (rc (hd l))) r < MaxConcurrency (rc (hd l))"
  shows "\<exists>r'. acquireFirst (RedisCounter Reply) l r = (Inr (hd l, redisActive (ID (rc (hd l))) r + 1), r')"
  using redis_TryAcquire [OF assms(2)] assms(1) by (cases l) auto

section \<open>Weighted round robin\<close>

definition wrrScore :: "string \<Rightarrow> string \<Rightarrow> redis \<Rightarrow> int" where
  "wrrScore key i r = (case HGET key i r of None \<Rightarrow> 0 | Some v \<Rightarrow> v)"

lemma wrrScore_HSET: "wrrScore k i (HSET k j v r) = (if i = j then v else wrrScore k i r)"
  by (simp add: wrrScore_def HGET_HSET)

lemma wrrScore_HINCRBY: "wrrScore k i (HINCRBY k j d r) = (if i = j then wrrScore k i r + d else wrrScore k i r)"
  by (simp add: HINCRBY_def wrrScore_HSET) (simp add: wrrScore_def split: option.split)

lemma wrrScore_EXPIRE: "0 < sec \<Longrightarrow> wrrScore k i (EXPIRE k sec r) = wrrScore k i r"
  by (simp add: wrrScore_def EXPIRE_def HGET_PEXPIRE)

text \<open>The loop adds each weight once, sums them, and ends with an entry of highest score.\<close>

lemma wrrLoop_effect:
  assumes "distinct (map fst l)" "wrrLoop k l (tot, best, r) = (tot', best', r')"
    "\<And>b sc. best = Some (b, sc) \<Longrightarrow> b \<notin> fst ` set l \<and> sc = wrrScore k b r"
  shows "tot' = tot + sum_list (map snd l) \<and>
    (\<forall>i. wrrScore k i r' = wrrScore k i r + (case map_of l i of None \<Rightarrow> 0 | Some w \<Rightarrow> w)) \<and>
    (best = None \<longrightarrow> l \<noteq> [] \<longrightarrow> best' \<noteq> None) \<and> (best \<noteq> None \<longrightarrow> best' \<noteq> None) \<and>
    (\<forall>b sc. best' = Some (b, sc) \<longrightarrow> sc = wrrScore k b r' \<and> (b \<in> fst ` set l \<or> best = Some (b, sc)) \<and>
       (\<forall>i \<in> fst ` set l. wrrScore k i r' \<le> sc) \<and> (\<forall>b0 s0. best = Some (b0, s0) \<longrightarrow> s0 \<le> sc))"
  using assms
proof (induction l arbitrary: tot best r)
  case (Cons iw l)
  obtain i w where iw: "iw = (i, w)" by fastforce
  let ?sc = "wrrScore k i r + w"
  let ?r = "HSET k i ?sc r"
  let ?best = "case best of None \<Rightarrow> Some (i, ?sc)
    | Some (b, bs) \<Rightarrow> if ?sc > bs \<or> (?sc = bs \<and> i < b) then Some (i, ?sc) else best"
  have run: "wrrLoop k l (tot + w, ?best, ?r) = (tot', best', r')"
    using Cons.prems(2) by (simp add: iw Let_def wrrScore_def [symmetric])
  have d: "distinct (map fst l)" "i \<notin> fst ` set l" using Cons.prems(1) iw by auto
  define best1 where "best1 = ?best"
  have c1: "b = i \<and> sc = ?sc \<or> best = Some (b, sc)" if "best1 = Some (b, sc)" for b sc
    using that by (auto simp: best1_def split: option.splits if_splits)
  have b: "b \<notin> fst ` set l \<and> sc = wrrScore k b ?r" if "best1 = Some (b, sc)" for b sc
    using c1 [OF that]
  proof
    assume "best = Some (b, sc)"
    from Cons.prems(3) [OF this] show ?thesis by (simp add: iw wrrScore_HSET)
  qed (simp add: d(2) wrrScore_HSET)
  note IH = Cons.IH [OF d(1) run [folded best1_def] b]
  have c2: "best1 \<noteq> None" by (auto simp: best1_def split: option.splits)
  have c3: "?sc \<le> s0 \<and> (\<forall>b1 s1. best = Some (b1, s1) \<longrightarrow> s1 \<le> s0)" if "best1 = Some (b0, s0)" for b0 s0
    using that by (auto simp: best1_def split: option.splits if_splits)
  have sc: "wrrScore k j r' = wrrScore k j r + (case map_of (iw # l) j of None \<Rightarrow> 0 | Some w \<Rightarrow> w)" for j
  proof (cases "j = i")
    case True
    moreover have "map_of l i = None" using d(2) by (simp add: map_of_eq_None_iff)
    ultimately show ?thesis using IH by (simp add: wrrScore_HSET iw)
  next
    case False
    then show ?thesis using IH by (simp add: wrrScore_HSET iw)
  qed
  have top: "sc0 = wrrScore k b0 r' \<and> (b0 \<in> fst ` set (iw # l) \<or> best = Some (b0, sc0)) \<and>
      (\<forall>j \<in> fst ` set (iw # l). wrrScore k j r' \<le> sc0) \<and> (\<forall>b1 s1. best = Some (b1, s1) \<longrightarrow> s1 \<le> sc0)"
    if h: "best' = Some (b0, sc0)" for b0 sc0
  proof -
    obtain b1 s1 where b1: "best1 = Some (b1, s1)" using c2 by auto
    have e: "sc0 = wrrScore k b0 r'" "b0 \<in> fst ` set l \<or> best1 = Some (b0, sc0)"
      "\<forall>j \<in> fst ` set l. wrrScore k j r' \<le> sc0" "s1 \<le> sc0" using IH h b1 by blast+
    have "wrrScore k i r' = ?sc" using sc [of i] by (simp add: iw)
    then have "\<forall>j \<in> fst ` set (iw # l). wrrScore k j r' \<le> sc0" using e(3,4) c3 [OF b1] by (auto simp: iw)
    moreover have "\<forall>b1 s1. best = Some (b1, s1) \<longrightarrow> s1 \<le> sc0" using e(4) c3 [OF b1] by fastforce
    moreover have "b0 \<in> fst ` set (iw # l) \<or> best = Some (b0, sc0)" using e(2) c1 by (auto simp: iw)
    ultimately show ?thesis using e(1) by blast
  qed
  have "tot' = tot + sum_list (map snd (iw # l))" using IH by (simp add: iw)
  moreover have "best' \<noteq> None" using IH c2 by blast
  ultimately show ?case using sc top by blast
qed simp

lemma wrr_effect:
  assumes "distinct (map fst l)" "l \<noteq> []" "weightedRoundRobinScript k l r = (best, r')"
  shows "best \<in> fst ` set l \<and>
    (\<forall>i \<in> fst ` set l. wrrScore k i r + the (map_of l i) \<le> wrrScore k best r + the (map_of l best)) \<and>
    (\<forall>i \<in> fst ` set l. wrrScore k i r' = wrrScore k i r + the (map_of l i) - (if i = best then sum_list (map snd l) else 0))"
proof -
  obtain tot b r1 where w: "wrrLoop k l (0, None, r) = (tot, b, r1)" by (metis prod_cases3)
  note e = wrrLoop_effect [OF assms(1) w, simplified]
  obtain b1 s1 where b: "b = Some (b1, s1)" using e assms(2) by auto
  have bb: "b1 = best" "r' = EXPIRE k 86400 (HINCRBY k b1 (- tot) r1)" using assms(3) w b
    by (auto simp: weightedRoundRobinScript_def)
  have m: "map_of l i = Some (the (map_of l i))" if "i \<in> fst ` set l" for i
    using that by (metis map_of_eq_None_iff option.collapse)
  have in_l: "best \<in> fst ` set l" using e b bb by auto
  have s: "wrrScore k i r1 = wrrScore k i r + the (map_of l i)" if "i \<in> fst ` set l" for i
    using e m [OF that] by (metis option.case(2))
  show ?thesis using e b bb in_l s by (auto simp: wrrScore_EXPIRE wrrScore_HINCRBY)
qed

text \<open>The head of the ranking under weighted round robin: the credential that the script chooses among
  those of the first place and priority.\<close>

lemma swapFirst_hd:
  assumes "x \<in> set l" "distinct (map (\<lambda>x. ID (rc x)) l)" "ID (rc x) = chosen"
  shows "hd (swapFirst chosen l) = x"
proof -
  let ?i = "length (takeWhile (\<lambda>x. ID (rc x) \<noteq> chosen) l)"
  have i: "?i < length l" using assms(1,3) by (metis (mono_tags, lifting) length_takeWhile_le order_le_imp_less_or_eq takeWhile_eq_all_conv takeWhile_eq_take take_all_iff linorder_not_less)
  then have "ID (rc (l ! ?i)) = chosen" using nth_length_takeWhile by blast
  then have "l ! ?i = x" using assms i by (metis (mono_tags, lifting) distinct_map inj_onD nth_mem)
  moreover have "hd (swapFirst chosen l) = l ! ?i" using i by (cases l) (auto simp: swapFirst_def Let_def nth_list_update hd_conv_nth)
  ultimately show ?thesis by simp
qed

lemma topGroup_filter:
  assumes "l \<noteq> []"
  defines "sl \<equiv> SliceStable lessPriority l"
  shows "topGroup sl = map (\<lambda>i. (ID (rc i), EffectiveWeight (rc i)))
      (filter (\<lambda>i. rTier i = rTier (hd sl) \<and> EffectivePriority (rc i) = EffectivePriority (rc (hd sl))) sl)"
    "y \<in> set l \<Longrightarrow> (- rTier (hd sl), - EffectivePriority (rc (hd sl))) \<le> (- rTier y, - EffectivePriority (rc y))"
proof -
  let ?f = "\<lambda>i. (- rTier i, - EffectivePriority (rc i))"
  have s: "sorted (map (\<lambda>i. (- rTier i, - EffectivePriority (rc i), - rScore i, ID (rc i))) sl)"
    unfolding sl_def by (rule sorted_SliceStable) (rule lessPriority_key)
  then have f: "sorted (map ?f sl)"
    by (auto simp: sorted_wrt_map intro: sorted_wrt_mono_rel [rotated])
  have ne: "sl \<noteq> []" using assms by (simp add: sl_def)
  have le: "?f (hd sl) \<le> ?f y" if "y \<in> set sl" for y
    using f ne that by (cases sl) auto
  show "y \<in> set l \<Longrightarrow> ?f (hd sl) \<le> ?f y" using le by (simp add: sl_def)
  show "topGroup sl = map (\<lambda>i. (ID (rc i), EffectiveWeight (rc i)))
      (filter (\<lambda>i. rTier i = rTier (hd sl) \<and> EffectivePriority (rc i) = EffectivePriority (rc (hd sl))) sl)"
    unfolding topGroup_def using takeWhile_least [OF f, of "?f (hd sl)"] le by simp
qed

lemma in_set_nonempty: "x \<in> set xs \<Longrightarrow> xs \<noteq> []"
  by auto

lemma reorder_choice:
  assumes "reorder (RedisCounter Reply) g WeightedRoundRobin (SliceStable lessPriority l) r = (Inr l', r1)"
    "l \<noteq> []" "distinct (map (\<lambda>x. ID (rc x)) l)"
  shows "\<exists>x. hd l' = x \<and> x \<in> set l \<and>
    (\<forall>y \<in> set l. (- rTier x, - EffectivePriority (rc x)) \<le> (- rTier y, - EffectivePriority (rc y))) \<and>
    ((\<exists>y \<in> set l. y \<noteq> x) \<longrightarrow> (\<exists>grp. distinct (map fst grp) \<and> fst (weightedRoundRobinScript (wrrKey g) grp r) = ID (rc x) \<and>
       set grp = (\<lambda>y. (ID (rc y), max (EffectiveWeight (rc y)) 1)) `
         {y \<in> set l. rTier y = rTier x \<and> EffectivePriority (rc y) = EffectivePriority (rc x)}))"
proof -
  define sl where "sl = SliceStable lessPriority l"
  let ?top = "filter (\<lambda>i. rTier i = rTier (hd sl) \<and> EffectivePriority (rc i) = EffectivePriority (rc (hd sl))) sl"
  have set_sl: "set sl = set l" "sl \<noteq> []" using assms(2) by (simp_all add: sl_def)
  have least: "(- rTier (hd sl), - EffectivePriority (rc (hd sl))) \<le> (- rTier y, - EffectivePriority (rc y))" if "y \<in> set l" for y
    using topGroup_filter(2) [OF assms(2) that] by (simp add: sl_def)
  have dl: "distinct (map (\<lambda>x. ID (rc x)) sl)" using assms(3) by (simp add: sl_def distinct_SliceStable)
  show ?thesis
  proof (cases "length sl > 1")
    case True
    define grp where "grp = map (\<lambda>(i, w). (i, max w 1)) (topGroup sl)"
    have grp: "grp = map (\<lambda>y. (ID (rc y), max (EffectiveWeight (rc y)) 1)) ?top"
      using topGroup_filter(1) [OF assms(2)] by (simp add: grp_def sl_def)
    have d: "distinct (map fst grp)" using dl by (simp add: grp comp_def distinct_map_filter)
    obtain ch r2 where w: "weightedRoundRobinScript (wrrKey g) grp r = (ch, r2)" by fastforce
    have l': "l' = swapFirst ch sl"
      using assms(1) True w by (simp add: reorder_def RedisCounter_def runScript_def sl_def [symmetric] grp_def)
    have "hd sl \<in> set ?top" using set_sl(2) by simp
    then have "grp \<noteq> []" unfolding grp map_is_Nil_conv by (rule in_set_nonempty)
    with wrr_effect [OF d _ w] have "ch \<in> fst ` set grp" by blast
    then obtain x where x: "x \<in> set sl" "ID (rc x) = ch" "rTier x = rTier (hd sl)" "EffectivePriority (rc x) = EffectivePriority (rc (hd sl))"
      by (auto simp: grp)
    have "hd l' = x" unfolding l' by (rule swapFirst_hd [OF x(1) dl x(2)])
    moreover have "set grp = (\<lambda>y. (ID (rc y), max (EffectiveWeight (rc y)) 1)) `
         {y \<in> set l. rTier y = rTier x \<and> EffectivePriority (rc y) = EffectivePriority (rc x)}"
      using x(3,4) set_sl(1) by (simp add: grp)
    moreover have "\<forall>y \<in> set l. (- rTier x, - EffectivePriority (rc x)) \<le> (- rTier y, - EffectivePriority (rc y))"
      unfolding x(3,4) using least by blast
    moreover have "fst (weightedRoundRobinScript (wrrKey g) grp r) = ID (rc x)" using w x(2) by simp
    ultimately show ?thesis using x(1) d unfolding set_sl(1) by blast
  next
    case False
    then have "l' = sl" using assms(1) by (simp add: reorder_def sl_def)
    moreover have "set l = {hd sl}" using False set_sl by (cases sl) auto
    ultimately show ?thesis by simp
  qed
qed

text \<open>Repeated choices among the same candidates, with the time that passes before each.\<close>

fun wrrRun :: "string \<Rightarrow> (string \<times> int) list \<Rightarrow> int list \<Rightarrow> redis \<Rightarrow> string list \<times> redis" where
  "wrrRun g cands [] r = ([], r)"
| "wrrRun g cands (d # ds) r =
     (case the (ChooseWeighted (RedisCounter Reply)) g cands (tick d r) of (best, r) \<Rightarrow>
      case wrrRun g cands ds r of (bs, r) \<Rightarrow> (the best # bs, r))"

text \<open>The hash is absent, or was touched just now and lives for a day.\<close>

definition freshHash :: "string \<Rightarrow> redis \<Rightarrow> bool" where
  "freshHash k r \<longleftrightarrow> hashes r k = None \<or> (\<exists>h. hashes r k = Some (h, Some (clock r + 86400000)))"

lemma HSET_alive: "alive (clock r) (hashes (HSET k f v r) k) \<noteq> None"
  by (auto simp: HSET_def alive_Some split: option.split)

lemma EXPIRE_fresh: "alive (clock r) (hashes r k) \<noteq> None \<Longrightarrow> freshHash k (EXPIRE k 86400 r)"
  by (auto simp: freshHash_def EXPIRE_def PEXPIRE_def)

lemma wrr_fresh:
  assumes "distinct (map fst l)" "l \<noteq> []" "weightedRoundRobinScript k l r = (best, r')"
  shows "freshHash k r'"
proof -
  obtain tot b r1 where w: "wrrLoop k l (0, None, r) = (tot, b, r1)" by (metis prod_cases3)
  have "b \<noteq> None" using wrrLoop_effect [OF assms(1) w] assms(2) by simp
  then obtain b1 s1 where b: "b = Some (b1, s1)" by auto
  then have "r' = EXPIRE k 86400 (HINCRBY k b1 (- tot) r1)" using assms(3) w by (auto simp: weightedRoundRobinScript_def)
  then show ?thesis using HSET_alive by (auto simp: HINCRBY_def intro!: EXPIRE_fresh)
qed

lemma tick_score: "freshHash k r \<Longrightarrow> 0 \<le> d \<Longrightarrow> d < 86400000 \<Longrightarrow> wrrScore k i (tick d r) = wrrScore k i r"
  by (auto simp: freshHash_def wrrScore_def HGET_def tick_def alive_def)

lemma wrr_round:
  fixes s w :: "string \<Rightarrow> int"
  assumes "finite I" "\<And>i. i \<in> I \<Longrightarrow> 0 < w i" "sum s I = 0" "\<And>i. i \<in> I \<Longrightarrow> - sum w I < s i" "b \<in> I"
    "\<And>i. i \<in> I \<Longrightarrow> s i + w i \<le> s b + w b" "\<And>i. i \<in> I \<Longrightarrow> s' i = s i + w i - (if i = b then sum w I else 0)"
  shows "sum s' I = 0" "\<And>i. i \<in> I \<Longrightarrow> - sum w I < s' i"
proof -
  have "sum s' I = sum (\<lambda>i. s i + w i - (if i = b then sum w I else 0)) I"
    using assms(7) by (intro sum.cong) auto
  also have "\<dots> = 0" using assms(1,3,5) by (simp add: sum.distrib sum_subtractf)
  finally show "sum s' I = 0" .
  have W: "0 < sum w I" using assms(1,2,5) by (intro sum_pos) auto
  have "sum w I = sum (\<lambda>i. s i + w i) I" using assms(3) by (simp add: sum.distrib)
  also have "\<dots> \<le> sum (\<lambda>_. s b + w b) I" using assms(6) by (intro sum_mono)
  also have "\<dots> = int (card I) * (s b + w b)" by simp
  finally have "0 < int (card I) * (s b + w b)" using W by linarith
  then have "0 < s b + w b" by (metis of_nat_0_le_iff zero_less_mult_pos order_le_less mult_zero_left less_irrefl)
  then show "- sum w I < s' i" if "i \<in> I" for i
    using assms(2) [OF that] assms(4) [OF that] assms(7) [OF that] by (cases "i = b") auto
qed

definition effWeight :: "(string \<times> int) list \<Rightarrow> string \<Rightarrow> int" where
  "effWeight cands i = max (the (map_of cands i)) 1"

lemma wrr_args:
  assumes "distinct (map fst cands)"
  defines "l \<equiv> map (\<lambda>(i, w). (i, max w 1)) cands"
  shows "map fst l = map fst cands" "i \<in> fst ` set cands \<Longrightarrow> the (map_of l i) = effWeight cands i"
    "sum_list (map snd l) = sum (effWeight cands) (fst ` set cands)"
proof -
  show f: "map fst l = map fst cands" by (simp add: l_def case_prod_beta comp_def)
  show g: "the (map_of l i) = effWeight cands i" if "i \<in> fst ` set cands" for i
  proof -
    have "map_of l i = map_option (\<lambda>w. max w 1) (map_of cands i)"
      unfolding l_def by (induction cands) auto
    moreover have "map_of cands i \<noteq> None" using that by (simp add: map_of_eq_None_iff)
    ultimately show ?thesis by (auto simp: effWeight_def)
  qed
  have "sum_list (map snd l) = sum_list (map (effWeight cands) (map fst cands))"
  proof -
    have "snd x = effWeight cands (fst x)" if "x \<in> set l" for x
      using g [of "fst x"] that f assms(1) by (metis list.set_map image_eqI map_of_eq_Some_iff option.sel prod.collapse)
    then have "map snd l = map (\<lambda>x. effWeight cands (fst x)) l" by simp
    also have "\<dots> = map (effWeight cands) (map fst l)" by simp
    finally show ?thesis by (simp only: f)
  qed
  also have "\<dots> = sum (effWeight cands) (set (map fst cands))" using assms(1) by (intro sum_list_distinct_conv_sum_set)
  finally show "sum_list (map snd l) = sum (effWeight cands) (fst ` set cands)" by simp
qed

lemma wrrRun_scores:
  assumes "distinct (map fst cands)" "cands \<noteq> []" "\<And>d. d \<in> set ds \<Longrightarrow> 0 \<le> d \<and> d < 86400000"
    "freshHash (wrrKey g) r" "sum (\<lambda>i. wrrScore (wrrKey g) i r) (fst ` set cands) = 0"
    "\<And>i. i \<in> fst ` set cands \<Longrightarrow> - sum (effWeight cands) (fst ` set cands) < wrrScore (wrrKey g) i r"
    "wrrRun g cands ds r = (bs, r')"
  shows "length bs = length ds \<and> sum (\<lambda>i. wrrScore (wrrKey g) i r') (fst ` set cands) = 0 \<and>
    (\<forall>i \<in> fst ` set cands. - sum (effWeight cands) (fst ` set cands) < wrrScore (wrrKey g) i r' \<and>
      wrrScore (wrrKey g) i r' = wrrScore (wrrKey g) i r + int (length ds) * effWeight cands i
        - sum (effWeight cands) (fst ` set cands) * int (count_list bs i))"
  using assms(3-7)
proof (induction ds arbitrary: r bs)
  case (Cons d ds)
  define k where "k = wrrKey g"
  define I where "I = fst ` set cands"
  define W where "W = sum (effWeight cands) I"
  define l where "l = map (\<lambda>(i, w). (i, max w 1)) cands"
  obtain best r1 where w: "weightedRoundRobinScript k l (tick d r) = (best, r1)" by fastforce
  obtain bs1 where run: "wrrRun g cands ds r1 = (bs1, r')" "bs = best # bs1"
    using Cons.prems(5) w by (auto simp: RedisCounter_def runScript_def k_def l_def split: prod.splits)
  have l: "distinct (map fst l)" "l \<noteq> []" "\<And>i. i \<in> I \<Longrightarrow> the (map_of l i) = effWeight cands i" "sum_list (map snd l) = W"
    using wrr_args(2,3) [OF assms(1)] assms(2) unfolding l_def I_def W_def
    by (simp_all only: wrr_args(1) [OF assms(1)] assms(1) map_is_Nil_conv not_False_eq_True)
  have lI: "fst ` set l = I" using wrr_args(1) [OF assms(1)] unfolding l_def I_def by (metis list.set_map)
  have t: "wrrScore k i (tick d r) = wrrScore k i r" for i
    using tick_score [of k r d i] Cons.prems(1) [of d] Cons.prems(2) by (simp add: k_def)
  have e: "best \<in> I" "\<And>i. i \<in> I \<Longrightarrow> wrrScore k i r + effWeight cands i \<le> wrrScore k best r + effWeight cands best"
    "\<And>i. i \<in> I \<Longrightarrow> wrrScore k i r1 = wrrScore k i r + effWeight cands i - (if i = best then W else 0)"
    using wrr_effect [OF l(1,2) w] l(3,4) t unfolding lI by auto
  have p: "finite I" "\<And>i. i \<in> I \<Longrightarrow> 0 < effWeight cands i" "sum (\<lambda>i. wrrScore k i r) I = 0"
    "\<And>i. i \<in> I \<Longrightarrow> - sum (effWeight cands) I < wrrScore k i r"
    using Cons.prems(3,4) by (simp_all add: I_def k_def effWeight_def)
  note s = wrr_round [OF p e(1,2) e(3) [unfolded W_def], folded W_def]
  have c: "\<And>d. d \<in> set ds \<Longrightarrow> 0 \<le> d \<and> d < 86400000" using Cons.prems(1) by simp
  note IH = Cons.IH [OF c wrr_fresh [OF l(1,2) w, unfolded k_def] s(1) [unfolded k_def I_def]
      s(2) [unfolded k_def I_def W_def] run(1), folded k_def I_def, folded W_def]
  have "wrrScore k i r' = wrrScore k i r + int (length (d # ds)) * effWeight cands i - W * int (count_list bs i)" if "i \<in> I" for i
    using IH that e(3) [OF that] by (auto simp: run(2) algebra_simps)
  moreover have "length bs = length (d # ds)" using IH by (simp add: run(2))
  ultimately show ?case using IH unfolding k_def [symmetric] I_def [symmetric] W_def [symmetric] by blast
qed simp

section \<open>Properties\<close>

text \<open>C4. Tenant isolation and eligibility: with any counter, a credential the scheduler selects is one of
  the candidates, belongs to no organization or to the caller's, a customer's credential only to its
  owner, a platform credential only when nothing blocks shared capacity; it passes the key, member
  and model filters and the tag rules, had free capacity when it was read, and its slot was
  acquired: the state returned is the one that acquisition left.\<close>

theorem Select_eligible:
  assumes "SelectConstrainedForOrganization ops (Inr cands) g pol cons org s = (Inr sel, s')"
  shows "\<exists>c \<in> set cands. ID (Selected sel) = ID c \<and> ReleaseID sel = Some (ID c) \<and>
    (OrganizationID c = None \<or> OrganizationID c = Some org) \<and>
    (CredentialOwner c = ''CUSTOMER'' \<longrightarrow> OwnerOrganizationID c = Some org) \<and>
    (CredentialOwner c = ''PLATFORM'' \<longrightarrow> \<not> blockShared cons org cands) \<and>
    credentialFiltersMatch c cons \<and> matchesCredentialTags (Tags c) cons \<and>
    (\<exists>a. Active ops (ID c) s = Some a \<and> a < MaxConcurrency c) \<and>
    (\<exists>s1. TryAcquire ops (ID c) (MaxConcurrency c) s1 = (Some (True, ActiveRequests (Selected sel)), s'))"
  using assms
proof (rule Select_Inr)
  fix l l' r a s1
  assume h: "rankAll ops (blockShared cons org cands) cons org s cands = Inr l"
    "reorder ops g (policyOf pol) (SliceStable (lessOf (policyOf pol)) l) s = (Inr l', s1)"
    "acquireFirst ops l' s1 = (Inr (r, a), s')" "sel = selection (policyOf pol) (blockShared cons org cands) r a"
  have "r \<in> set l" using acquireFirst_Inr [OF h(3)] reorder_set [OF h(2)] by simp
  then obtain c a0 where c: "c \<in> set cands" "admissible (blockShared cons org cands) cons org c"
    "Active ops (ID c) s = Some a0" "a0 < MaxConcurrency c" "r = rankOne c a0"
    using rankAll_set [OF h(1)] by blast
  have "ID (Selected sel) = ID c" "ReleaseID sel = Some (ID c)" "ActiveRequests (Selected sel) = a"
    unfolding h(4) c(5) by (simp_all add: selection_def rankOne_def Let_def)
  moreover have "\<exists>s1. TryAcquire ops (ID c) (MaxConcurrency c) s1 = (Some (True, a), s')"
    using acquireFirst_Inr [OF h(3)] c(5) by simp
  ultimately show ?thesis using c(1-4) by (intro bexI [of _ c]) (auto simp: admissible_def split: if_splits)
qed

text \<open>A small group the witnesses use: a shared credential, a customer's own and another tenant's.\<close>

definition exampleCredential :: Credential where
  "exampleCredential = \<lparr>ID = ''a'', OrganizationID = None, Status = ''ACTIVE'', Priority = 1, Weight = 10,
     MaxConcurrency = 2, CurrentHealth = ''HEALTHY'', CooldownUntil = None, ActiveRequests = 0, EffectiveWeight = 0,
     EffectivePriority = 0, Tags = [], CredentialOwner = ''PLATFORM'', OwnerOrganizationID = None,
     BYOKPrioritySection = [], SharedCapacityFallback = [], ModelFilters = [], APIKeyFilters = [], MemberFilters = [],
     ProviderOf = ''p''\<rparr>"

definition exampleGroup :: "Credential list" where
  "exampleGroup = [exampleCredential,
     exampleCredential\<lparr>ID := ''b'', CredentialOwner := ''CUSTOMER'', OwnerOrganizationID := Some ''org1''\<rparr>,
     exampleCredential\<lparr>ID := ''c'', CredentialOwner := ''CUSTOMER'', OwnerOrganizationID := Some ''org2''\<rparr>]"

text \<open>A selection with the counter answering takes the head of the ranking.\<close>

lemma Select_head:
  fixes cons :: CredentialConstraints and org :: string and r :: redis
  assumes "cands \<noteq> []"
  defines "eligible \<equiv> {c \<in> set cands. admissible (blockShared cons org cands) cons org c \<and> redisActive (ID c) r < MaxConcurrency c}"
  obtains l l' r1 where "rankAll (RedisCounter Reply) (blockShared cons org cands) cons org r cands = Inr l"
    "set l = (\<lambda>c. rankOne c (redisActive (ID c) r)) ` eligible"
    "reorder (RedisCounter Reply) g (policyOf pol) (SliceStable (lessOf (policyOf pol)) l) r = (Inr l', r1)" "set l' = set l"
    "if \<exists>c. c \<in> eligible
     then \<exists>c r'. c \<in> eligible \<and> hd l' = rankOne c (redisActive (ID c) r) \<and>
       SelectConstrainedForOrganization (RedisCounter Reply) (Inr cands) g pol cons org r =
         (Inr (selection (policyOf pol) (blockShared cons org cands) (rankOne c (redisActive (ID c) r)) (redisActive (ID c) r + 1)), r')
     else fst (SelectConstrainedForOrganization (RedisCounter Reply) (Inr cands) g pol cons org r) = Inl ErrNoCredential"
proof -
  let ?ops = "RedisCounter Reply" and ?b = "blockShared cons org cands" and ?p = "policyOf pol"
  obtain l where l: "rankAll ?ops ?b cons org r cands = Inr l" using rankAll_redis by blast
  have sl: "set l = (\<lambda>c. rankOne c (redisActive (ID c) r)) ` eligible"
    using rankAll_set [OF l] by (auto simp: redis_Active eligible_def)
  define sorted_l where "sorted_l = SliceStable (lessOf ?p) l"
  obtain l' r1 where re: "reorder ?ops g ?p sorted_l r = (Inr l', r1)" "set l' = set l" "\<And>i. redisActive i r1 = redisActive i r"
    using reorder_redis [of g ?p sorted_l r] by (auto simp: sorted_l_def)
  have sel: "SelectConstrainedForOrganization ?ops (Inr cands) g pol cons org r =
      (case acquireFirst ?ops l' r1 of (Inl e, s) \<Rightarrow> (Inl e, s) | (Inr (x, a), s) \<Rightarrow> (Inr (selection ?p ?b x a), s))"
    using assms(1) l re(1) by (simp add: SelectConstrainedForOrganization_def sorted_l_def [symmetric])
  have "if \<exists>c. c \<in> eligible
     then \<exists>c r'. c \<in> eligible \<and> hd l' = rankOne c (redisActive (ID c) r) \<and>
       SelectConstrainedForOrganization ?ops (Inr cands) g pol cons org r =
         (Inr (selection ?p ?b (rankOne c (redisActive (ID c) r)) (redisActive (ID c) r + 1)), r')
     else fst (SelectConstrainedForOrganization ?ops (Inr cands) g pol cons org r) = Inl ErrNoCredential"
  proof (cases "\<exists>c. c \<in> eligible")
    case True
    then have ne: "l' \<noteq> []" using sl re(2) by fastforce
    then have "hd l' \<in> set l" using re(2) by (metis hd_in_set)
    then obtain c where c: "c \<in> eligible" "hd l' = rankOne c (redisActive (ID c) r)" using sl by blast
    then obtain r' where "acquireFirst ?ops l' r1 = (Inr (hd l', redisActive (ID c) r + 1), r')"
      using acquireFirst_redis [OF ne, of r1] re(3) by (auto simp: eligible_def)
    then show ?thesis using c sel by auto
  next
    case False
    then have "l' = []" using sl re(2) by auto
    then show ?thesis using False sel by simp
  qed
  then show ?thesis using that [OF l sl re(1) [unfolded sorted_l_def] re(2)] by blast
qed

lemma Select_redis:
  fixes cons :: CredentialConstraints and org :: string and r :: redis
  assumes "cands \<noteq> []"
  defines "ok \<equiv> \<lambda>c. admissible (blockShared cons org cands) cons org c \<and> redisActive (ID c) r < MaxConcurrency c"
  shows "if \<exists>c \<in> set cands. ok c
    then \<exists>c sel r'. c \<in> set cands \<and> ok c \<and>
      sel = selection (policyOf pol) (blockShared cons org cands) (rankOne c (redisActive (ID c) r)) (redisActive (ID c) r + 1) \<and>
      SelectConstrainedForOrganization (RedisCounter Reply) (Inr cands) g pol cons org r = (Inr sel, r')
    else fst (SelectConstrainedForOrganization (RedisCounter Reply) (Inr cands) g pol cons org r) = Inl ErrNoCredential"
  unfolding ok_def by (rule Select_head [OF assms(1), of cons org r g pol]) (auto split: if_splits)

text \<open>The ranking in terms of the credential's own fields.\<close>

lemma rankOne_fields:
  "rTier (rankOne c a) = 4 - placeOf c" "EffectivePriority (rc (rankOne c a)) = priorityOf c"
  "EffectiveWeight (rc (rankOne c a)) = weightOf c" "rScore (rankOne c a) = scoreOf a c"
  "fl64 (of_int a / of_int (max (MaxConcurrency c) 1)) = loadOf a c"
  by (simp_all add: rankOne_def placeOf_def priorityOf_def weightOf_def scoreOf_def loadOf_def Let_def)

lemma exampleCapacity:
  "exampleGroup \<noteq> []" "\<exists>c \<in> set exampleGroup. admissible (blockShared noConstraints ''org1'' exampleGroup) noConstraints ''org1'' c \<and>
      redisActive (ID c) (empty_redis 0) < MaxConcurrency c"
proof -
  show "exampleGroup \<noteq> []" by (simp add: exampleGroup_def)
  have "admissible (blockShared noConstraints ''org1'' exampleGroup) noConstraints ''org1'' (exampleGroup ! 1) \<and>
      redisActive (ID (exampleGroup ! 1)) (empty_redis 0) < MaxConcurrency (exampleGroup ! 1)" by code_simp
  moreover have "exampleGroup ! 1 \<in> set exampleGroup" by (simp add: exampleGroup_def)
  ultimately show "\<exists>c \<in> set exampleGroup. admissible (blockShared noConstraints ''org1'' exampleGroup) noConstraints ''org1'' c \<and>
      redisActive (ID c) (empty_redis 0) < MaxConcurrency c" by blast
qed

lemma exampleSelect: "\<exists>sel r'. SelectConstrainedForOrganization (RedisCounter Reply) (Inr exampleGroup) ''g'' [] noConstraints ''org1'' (empty_redis 0) = (Inr sel, r')"
  using Select_redis [OF exampleCapacity(1), of noConstraints "''org1''" "empty_redis 0" "[]" "''g''"] exampleCapacity(2) by auto

theorem Select_eligible_witness:
  "\<exists>sel r'. SelectConstrainedForOrganization (RedisCounter Reply) (Inr exampleGroup) ''g'' [] noConstraints ''org1'' (empty_redis 0) = (Inr sel, r') \<and>
    (\<exists>c \<in> set exampleGroup. ID (Selected sel) = ID c \<and> ReleaseID sel = Some (ID c) \<and>
      (CredentialOwner c = ''CUSTOMER'' \<longrightarrow> OwnerOrganizationID c = Some ''org1''))"
proof -
  obtain sel r' where s: "SelectConstrainedForOrganization (RedisCounter Reply) (Inr exampleGroup) ''g'' [] noConstraints ''org1'' (empty_redis 0) = (Inr sel, r')"
    using exampleSelect by blast
  from Select_eligible [OF s] s show ?thesis by blast
qed

lemma lessPriority_fields: "lessPriority (rankOne c a) (rankOne d b) \<longleftrightarrow>
    (placeOf c, - priorityOf c, - scoreOf a c, ID c) < (placeOf d, - priorityOf d, - scoreOf b d, ID d)"
  by (simp add: lessPriority_key rankOne_fields)

lemma lessLoaded_fields: "lessLoaded (rankOne c a) (rankOne d b) \<longleftrightarrow>
    (placeOf c, loadOf a c, - priorityOf c, ID c) < (placeOf d, loadOf b d, - priorityOf d, ID d)"
  by (simp add: lessLoaded_key rankOne_fields)

lemma image_Collect_where: "{y \<in> f ` A. P y} = f ` {x \<in> A. P (f x)}"
  by blast

text \<open>C5. The scheduler finds capacity exactly when there is some: with the Redis counter answering, a
  selection succeeds if and only if some candidate is admissible and below its concurrency limit;
  otherwise the error is \<open>ErrNoCredential\<close>. The slot it takes is counted.\<close>

theorem Select_iff_capacity:
  assumes "cands \<noteq> []"
  shows "if \<exists>c \<in> set cands. admissible (blockShared cons org cands) cons org c \<and> redisActive (ID c) r < MaxConcurrency c
    then \<exists>sel r'. SelectConstrainedForOrganization (RedisCounter Reply) (Inr cands) g pol cons org r = (Inr sel, r') \<and>
      ActiveRequests (Selected sel) = redisActive (ID (Selected sel)) r + 1 \<and>
      ActiveRequests (Selected sel) \<le> MaxConcurrency (Selected sel)
    else fst (SelectConstrainedForOrganization (RedisCounter Reply) (Inr cands) g pol cons org r) = Inl ErrNoCredential"
proof (cases "\<exists>c \<in> set cands. admissible (blockShared cons org cands) cons org c \<and> redisActive (ID c) r < MaxConcurrency c")
  case True
  then obtain c sel r' where c: "redisActive (ID c) r < MaxConcurrency c"
    "sel = selection (policyOf pol) (blockShared cons org cands) (rankOne c (redisActive (ID c) r)) (redisActive (ID c) r + 1)"
    "SelectConstrainedForOrganization (RedisCounter Reply) (Inr cands) g pol cons org r = (Inr sel, r')"
    using Select_redis [OF assms, where cons = cons and org = org and r = r and g = g and pol = pol] by auto
  moreover have "ActiveRequests (Selected sel) = redisActive (ID c) r + 1" "ID (Selected sel) = ID c"
    "MaxConcurrency (Selected sel) = MaxConcurrency c" by (simp_all add: c(2) selection_def)
  ultimately show ?thesis using True by auto
next
  case False
  then show ?thesis using Select_redis [OF assms, where cons = cons and org = org and r = r and g = g and pol = pol] by auto
qed

theorem Select_iff_capacity_witness:
  "\<exists>sel r'. SelectConstrainedForOrganization (RedisCounter Reply) (Inr exampleGroup) ''g'' [] noConstraints ''org1'' (empty_redis 0) = (Inr sel, r') \<and>
    ActiveRequests (Selected sel) = redisActive (ID (Selected sel)) (empty_redis 0) + 1"
  using Select_iff_capacity [OF exampleCapacity(1), of noConstraints "''org1''" "empty_redis 0" "''g''" "[]"] exampleCapacity(2)
  by auto

text \<open>C7. The choice follows the order of service and the policy. With the Redis counter answering, take the
  candidates that are admissible and have a free slot; the group lists a credential once. The selected one is an own primary credential if
  there is any, else a shared one if there is any, else an own fallback. Within that place the default
  policy takes the highest priority, then the highest weight per request, then the first identifier;
  the least-loaded policy the lowest load, then the highest priority, then the first identifier.
  Weighted round robin takes the highest priority and, when there is more than one candidate, the one
  that its script chooses among all candidates of that place and priority.\<close>

theorem Select_best:
  fixes cons :: CredentialConstraints and org :: string and r :: redis
  assumes "SelectConstrainedForOrganization (RedisCounter Reply) (Inr cands) g pol cons org r = (Inr sel, r')" "distinct (map ID cands)"
  defines "eligible \<equiv> {c \<in> set cands. admissible (blockShared cons org cands) cons org c \<and> redisActive (ID c) r < MaxConcurrency c}"
    and "running \<equiv> \<lambda>c. redisActive (ID c) r"
  shows "\<exists>c \<in> eligible. ID (Selected sel) = ID c \<and>
    (case policyOf pol of
       PriorityWeighted \<Rightarrow> \<forall>c' \<in> eligible.
         (placeOf c, - priorityOf c, - scoreOf (running c) c, ID c) \<le> (placeOf c', - priorityOf c', - scoreOf (running c') c', ID c')
     | LeastLoaded \<Rightarrow> \<forall>c' \<in> eligible.
         (placeOf c, loadOf (running c) c, - priorityOf c, ID c) \<le> (placeOf c', loadOf (running c') c', - priorityOf c', ID c')
     | WeightedRoundRobin \<Rightarrow> (\<forall>c' \<in> eligible. (placeOf c, - priorityOf c) \<le> (placeOf c', - priorityOf c')) \<and>
         (eligible \<noteq> {c} \<longrightarrow> (\<exists>grp. distinct (map fst grp) \<and> fst (weightedRoundRobinScript (wrrKey g) grp r) = ID c \<and>
            set grp = (\<lambda>c'. (ID c', max (weightOf c') 1)) ` {c' \<in> eligible. placeOf c' = placeOf c \<and> priorityOf c' = priorityOf c})))"
    (is "\<exists>c \<in> _. _ \<and> ?best c")
proof -
  have ne: "cands \<noteq> []" using assms(1) by (auto simp: SelectConstrainedForOrganization_def Let_def)
  let ?rank = "\<lambda>c. rankOne c (redisActive (ID c) r)" and ?p = "policyOf pol"
  obtain l l' r1 where l: "rankAll (RedisCounter Reply) (blockShared cons org cands) cons org r cands = Inr l"
      "set l = ?rank ` eligible"
      "reorder (RedisCounter Reply) g ?p (SliceStable (lessOf ?p) l) r = (Inr l', r1)" "set l' = set l"
    and sel: "if \<exists>c. c \<in> eligible
     then \<exists>c r'. c \<in> eligible \<and> hd l' = ?rank c \<and>
       SelectConstrainedForOrganization (RedisCounter Reply) (Inr cands) g pol cons org r =
         (Inr (selection ?p (blockShared cons org cands) (?rank c) (redisActive (ID c) r + 1)), r')
     else fst (SelectConstrainedForOrganization (RedisCounter Reply) (Inr cands) g pol cons org r) = Inl ErrNoCredential"
    by (rule Select_head [OF ne, of cons org r g pol, folded eligible_def])
  from sel obtain c where c: "c \<in> eligible" "hd l' = ?rank c" "ID (Selected sel) = ID c"
    unfolding assms(1) by (auto simp: selection_def split: if_splits)
  have first: "\<not> lessOf ?p (?rank c') (?rank c)" if "c' \<in> eligible" "?p \<noteq> WeightedRoundRobin" for c'
    using hd_sorted [of "?rank c'" l ?p] that l(2,3) c(2) by (simp add: reorder_def)
  have "?best c"
  proof (cases ?p)
    case PriorityWeighted
    then show ?thesis using first by (simp only: policy.case policy.distinct not_False_eq_True lessOf_def if_False lessPriority_fields not_less running_def) blast
  next
    case LeastLoaded
    then show ?thesis using first by (simp only: policy.case policy.distinct not_False_eq_True lessOf_def simp_thms if_True lessLoaded_fields not_less running_def) blast
  next
    case WeightedRoundRobin
    have "l \<noteq> []" using l(2) c(1) by auto
    moreover have "distinct (map (\<lambda>x. ID (rc x)) l)"
      unfolding rankAll_filter [OF l(1)] using assms(2) by (simp add: comp_def distinct_map_filter)
    ultimately have ch: "(\<forall>y \<in> set l. (- rTier (?rank c), - EffectivePriority (rc (?rank c))) \<le> (- rTier y, - EffectivePriority (rc y))) \<and>
      ((\<exists>y \<in> set l. y \<noteq> ?rank c) \<longrightarrow> (\<exists>grp. distinct (map fst grp) \<and> fst (weightedRoundRobinScript (wrrKey g) grp r) = ID (rc (?rank c)) \<and>
       set grp = (\<lambda>y. (ID (rc y), max (EffectiveWeight (rc y)) 1)) `
         {y \<in> set l. rTier y = rTier (?rank c) \<and> EffectivePriority (rc y) = EffectivePriority (rc (?rank c))}))"
      using reorder_choice [of g l r l' r1] l(3) c(2) WeightedRoundRobin by (simp add: lessOf_def)
    have "\<exists>y \<in> set l. y \<noteq> ?rank c" if "eligible \<noteq> {c}"
    proof -
      obtain c' where "c' \<in> eligible" "c' \<noteq> c" using \<open>eligible \<noteq> {c}\<close> c(1) by blast
      moreover from this have "ID c' \<noteq> ID c" using c(1) assms(2) by (auto simp: eligible_def distinct_map inj_on_def)
      ultimately show ?thesis using l(2) by (metis imageI rankOne_simps(1))
    qed
    moreover have "(\<lambda>y. (ID (rc y), max (EffectiveWeight (rc y)) 1)) `
         {y \<in> set l. rTier y = rTier (?rank c) \<and> EffectivePriority (rc y) = EffectivePriority (rc (?rank c))} =
       (\<lambda>c'. (ID c', max (weightOf c') 1)) ` {c' \<in> eligible. placeOf c' = placeOf c \<and> priorityOf c' = priorityOf c}"
      unfolding l(2) image_Collect_where by (simp add: image_image rankOne_fields)
    ultimately show ?thesis using ch WeightedRoundRobin by (simp add: l(2) rankOne_fields)
  qed
  with c show ?thesis by blast
qed

text \<open>In the example group organization \<open>org1\<close> is served by its own credential, which ranks before the shared one.\<close>

theorem Select_best_witness:
  "\<exists>sel r'. SelectConstrainedForOrganization (RedisCounter Reply) (Inr exampleGroup) ''g'' [] noConstraints ''org1'' (empty_redis 0) = (Inr sel, r') \<and>
    ID (Selected sel) = ''b''"
proof -
  obtain sel r' where s: "SelectConstrainedForOrganization (RedisCounter Reply) (Inr exampleGroup) ''g'' [] noConstraints ''org1'' (empty_redis 0) = (Inr sel, r')"
    using exampleSelect by blast
  have p: "policyOf [] = PriorityWeighted" "distinct (map ID exampleGroup)" by (simp add: policyOf_def) (simp add: exampleGroup_def exampleCredential_def)
  have ok: "admissible (blockShared noConstraints ''org1'' exampleGroup) noConstraints ''org1'' (exampleGroup ! 1) \<and>
      redisActive (ID (exampleGroup ! 1)) (empty_redis 0) < MaxConcurrency (exampleGroup ! 1)"
    "\<not> admissible (blockShared noConstraints ''org1'' exampleGroup) noConstraints ''org1'' (exampleGroup ! 2)" by code_simp+
  have g: "exampleGroup = [exampleGroup ! 0, exampleGroup ! 1, exampleGroup ! 2]" by (simp add: exampleGroup_def)
  have f: "placeOf (exampleGroup ! 0) = 2" "placeOf (exampleGroup ! 1) = 1" "ID (exampleGroup ! 1) = ''b''"
    by (simp_all add: exampleGroup_def exampleCredential_def placeOf_def)
  have m: "exampleGroup ! 1 \<in> set exampleGroup" by (simp add: exampleGroup_def)
  obtain c where c: "c \<in> set exampleGroup" "admissible (blockShared noConstraints ''org1'' exampleGroup) noConstraints ''org1'' c"
      "ID (Selected sel) = ID c"
    and best: "\<And>c'. c' \<in> set exampleGroup \<Longrightarrow> admissible (blockShared noConstraints ''org1'' exampleGroup) noConstraints ''org1'' c' \<and>
        redisActive (ID c') (empty_redis 0) < MaxConcurrency c' \<Longrightarrow>
      (placeOf c, - priorityOf c, - scoreOf (redisActive (ID c) (empty_redis 0)) c, ID c) \<le>
      (placeOf c', - priorityOf c', - scoreOf (redisActive (ID c') (empty_redis 0)) c', ID c')"
    using Select_best [OF s p(2)] unfolding p(1) policy.case mem_Collect_eq Ball_def Bex_def by metis
  have "placeOf c \<le> 1" using best [OF m ok(1)] f(2) by (simp only: less_eq_prod_simp) auto
  moreover have "c = exampleGroup ! 0 \<or> c = exampleGroup ! 1 \<or> c = exampleGroup ! 2" using c(1) g by (metis empty_iff empty_set set_ConsD)
  ultimately have "c = exampleGroup ! 1" using c(2) ok(2) f(1) by auto
  with c(3) f(3) s show ?thesis by (intro exI conjI) (assumption, simp only:)
qed

text \<open>C6. Weighted round robin is fair: over any number of choices among the same candidates (less than a day
  apart), each candidate is chosen less than once more than its weighted share and never falls
  behind its share by as many choices as there are candidates; so none is starved.\<close>

theorem ChooseWeighted_fair:
  assumes "distinct (map fst cands)" "i \<in> fst ` set cands" "\<And>d. d \<in> set ds \<Longrightarrow> 0 \<le> d \<and> d < 86400000"
    "hashes r (wrrKey g) = None"
  shows "let W = sum (effWeight cands) (fst ` set cands); n = int (length ds);
        chosen = int (count_list (fst (wrrRun g cands ds r)) i)
    in W * chosen < n * effWeight cands i + W \<and> n * effWeight cands i - int (card (fst ` set cands) - 1) * W \<le> W * chosen"
proof -
  let ?I = "fst ` set cands" and ?W = "sum (effWeight cands) (fst ` set cands)"
  obtain bs r' where run: "wrrRun g cands ds r = (bs, r')" by fastforce
  let ?s = "\<lambda>j. wrrScore (wrrKey g) j r'"
  have z: "wrrScore (wrrKey g) j r = 0" for j using assms(4) by (simp add: wrrScore_def HGET_def alive_def)
  have W: "0 < ?W" using assms(2) by (intro sum_pos) (auto simp: effWeight_def)
  have "cands \<noteq> []" using assms(2) by auto
  then have r: "sum ?s ?I = 0" "\<And>j. j \<in> ?I \<Longrightarrow> - ?W < ?s j"
    "\<And>j. j \<in> ?I \<Longrightarrow> ?s j = int (length ds) * effWeight cands j - ?W * int (count_list bs j)"
    using wrrRun_scores [OF assms(1) _ assms(3) _ _ _ run] assms(4) W by (auto simp: freshHash_def z)
  have "sum ?s (?I - {i}) + ?s i = 0" using r(1) assms(2) by (simp add: sum.remove [of ?I i])
  moreover have "sum (\<lambda>_. - ?W) (?I - {i}) \<le> sum ?s (?I - {i})" using r(2) by (intro sum_mono) (auto intro: less_imp_le)
  ultimately have "?s i \<le> int (card ?I - 1) * ?W" using assms(2) by simp
  then show ?thesis using r(2) [OF assms(2)] r(3) [OF assms(2)] by (simp add: Let_def run)
qed

theorem ChooseWeighted_fair_witness:
  "let cands = [(''a'', 3), (''b'', 1)]; chosen = int (count_list (fst (wrrRun ''g'' cands [5, 5, 5, 5] (empty_redis 0))) ''a'')
   in 4 * chosen < 4 * 3 + 4 \<and> 4 * 3 - 4 \<le> 4 * chosen"
proof -
  have e: "effWeight [(''a'', 3), (''b'', 1)] ''a'' = 3" "sum (effWeight [(''a'', 3), (''b'', 1)]) (fst ` set [(''a'', 3), (''b'', 1)]) = 4"
    "card (fst ` set [(''a'', 3 :: int), (''b'', 1)]) = 2" by (simp_all add: effWeight_def)
  have "distinct (map fst [(''a'', 3 :: int), (''b'', 1)])" "''a'' \<in> fst ` set [(''a'', 3 :: int), (''b'', 1)]"
    "\<And>d. d \<in> set [5, 5, 5, 5 :: int] \<Longrightarrow> 0 \<le> d \<and> d < 86400000" "hashes (empty_redis 0) (wrrKey ''g'') = None"
    by (auto simp: empty_redis_def)
  from ChooseWeighted_fair [where ds = "[5, 5, 5, 5]", OF this] show ?thesis
    unfolding Let_def e by (simp del: wrrRun.simps)
qed

text \<open>C8. A credential's concurrency limit holds for two hours from any moment when its counter is absent and
  no request holds a slot of it, over every interleaving of acquisitions, refusals, releases, lost
  requests, lost replies and passing time: the requests holding a slot are at most what the counter
  says, and that is at most the limit. The counter exceeds the holders by no more than the calls that
  failed, so it is exact when none did. Each call is carried out at most once.\<close>

theorem credential_slots_bounded:
  assumes "(slot_step activeKey redisAcquire redisRelease limit)\<^sup>*\<^sup>* (r0, hs0, lost0) (r, holders, lost)"
    "strs r0 (activeKey k) = None" "k \<notin> set hs0" "k \<notin> set lost0" "clock r < clock r0 + 2 * 3600 * 1000"
  shows "int (count_list holders k) \<le> redisActive k r \<and> redisActive k r \<le> max 0 (limit k) \<and>
    redisActive k r \<le> int (count_list holders k) + int (count_list lost k)"
  using redis_slots.slots_bounded [OF assms(1-4)] assms(5) by (simp add: redisActive_def)

text \<open>A run: a slot is granted, a second request is refused, the first releases but its request is lost.\<close>

lemma credential_slots_run:
  "\<exists>r. (slot_step activeKey redisAcquire redisRelease (\<lambda>_. 1))\<^sup>*\<^sup>* (empty_redis 0, [], []) (r, [], [''a'']) \<and> clock r = 0"
proof -
  let ?step = "slot_step activeKey redisAcquire redisRelease (\<lambda>_. 1)"
  define r1 where "r1 = (empty_redis 0)\<lparr>strs := Map.empty(activeKey ''a'' \<mapsto> (1, Some 7200000))\<rparr>"
  have a: "redisAcquire Reply ''a'' 1 (empty_redis 0) = (True, r1)" "redisAcquire Reply ''a'' 1 r1 = (False, r1)"
    "redisRelease LostRequest ''a'' r1 = r1" "clock r1 = 0"
    by (simp_all add: redisAcquire_eq redisRelease_eq acquireScript_eq bump_def INCRBY_def PEXPIRE_def alive_def
        Let_def empty_redis_def r1_def)
  have 1: "?step (empty_redis 0, [], []) (r1, [''a''], [])"
    by (rule slot_step.acquired [where t = Reply and l = 1]) (simp_all add: a)
  have 2: "?step (r1, [''a''], []) (r1, [''a''], [])"
    by (rule slot_step.refused [where k = "''a''" and l = 1]) (simp_all add: a)
  have 3: "?step (r1, [''a''], []) (r1, [], [''a''])"
    using slot_step.release_failed [of "''a''" "[''a'']" LostRequest activeKey redisAcquire redisRelease "\<lambda>_. 1" r1 "[]"]
    by (simp add: a)
  have "?step\<^sup>*\<^sup>* (empty_redis 0, [], []) (r1, [], [''a''])"
    by (rule converse_rtranclp_into_rtranclp [OF 1 converse_rtranclp_into_rtranclp [OF 2 r_into_rtranclp [of ?step, OF 3]]])
  with a(4) show ?thesis by blast
qed

theorem credential_slots_bounded_witness:
  "\<exists>r. (slot_step activeKey redisAcquire redisRelease (\<lambda>_. 1))\<^sup>*\<^sup>* (empty_redis 0, [], []) (r, [], [''a'']) \<and>
     0 \<le> redisActive ''a'' r \<and> redisActive ''a'' r \<le> 1"
proof -
  obtain r where r: "(slot_step activeKey redisAcquire redisRelease (\<lambda>_. 1))\<^sup>*\<^sup>* (empty_redis 0, [], []) (r, [], [''a''])"
    "clock r = 0" using credential_slots_run by blast
  from credential_slots_bounded [OF r(1), of "''a''"] r show ?thesis by (auto simp: empty_redis_def)
qed

end
