(* ===== verification/Store.thy ===== *)
theory Store
  imports Pricing
begin

text \<open>
  The tables of the PostgreSQL store that the wallet, funding and payment code reads and writes
  (\<^verbatim>\<open>internal/domain\<close>, \<^verbatim>\<open>internal/store\<close>, \<^verbatim>\<open>migrations\<close>), as rows of records and one record \<open>db\<close> of
  tables, and the statements that insert into them with the constraints of the migrations.

  \<^item> A table is the list of its rows in insertion order. A status column with a \<open>CHECK\<close> list is a
    datatype; identifiers and keys are texts; a \<open>NUMERIC(30,12)\<close> column is a \<open>money\<close>, a timestamp an
    \<open>int\<close>. Free-text columns no code path compares (descriptions, metadata, names) are left out.
  \<^item> \<open>clk\<close> is the transaction's \<open>now()\<close>; \<open>rng\<close> and \<open>rng_pos\<close> stand for the stream of fresh
    identifiers \<open>id.UUID()\<close> returns. That an identifier is fresh is not assumed: an insert whose
    primary key is taken fails, as in the database.
  \<^item> A transaction is a \<open>('a) dbtx\<close>: it fails with a \<open>store_error\<close> and is rolled back, or returns a
    value and the new tables.
  \<^item> A lemma \<open>keeps_m\<close> says which tables the transaction \<open>m\<close> writes: it keeps every part \<open>f\<close> of the
    state that does not depend on them.
\<close>

section \<open>Errors\<close>

datatype store_error = ErrNotFound | ErrNoRows | ErrWalletUnavailable | ErrIdempotencyConflict
  | ErrFundingInProgress | ErrFundingTerminal | ErrFinanceState | ErrRefundNotEligible
  | ErrPricingUnavailable | ErrPricingCurrencyMismatch | ErrProviderBudgetExceeded
  | ErrProviderCommercialUnavailable | ErrProviderQualityCircuitOpen
  | ErrPaymentState | ErrPaymentMismatch | ErrRiskFrozen | ErrRiskRestricted | ErrBindingMode
  | ErrReconcileUnsupported | ErrInvoiceAmount
  | ErrInvalid string | ErrConstraint string | ErrNumericOverflow
  | ErrPricing pricing_error | ErrDecimal decimal_error | Panic

section \<open>Wallets, transactions and the ledger\<close>

datatype BillingMode = PREPAID | POSTPAID
datatype WalletStatus = WalletACTIVE | WalletFROZEN | WalletCLOSED
datatype TransactionType = TOPUP | CHARGE | REFUND | ADJUSTMENT | CREDIT_TX
datatype JournalType = J_OPENING | J_TOPUP | J_ADJUSTMENT | J_RESERVATION | J_SETTLEMENT | J_RELEASE
  | J_REVERSAL | J_LATE_USAGE_ADJUSTMENT | J_PAYMENT_CREDIT | J_PAYMENT_REFUND | J_SUBSCRIPTION_PAYMENT
  | J_SUBSCRIPTION_REFUND | J_RECONCILIATION_REVERSAL | J_PROVIDER_STATEMENT | J_SUPPLIER_PAYOUT
datatype EntrySide = DEBIT | CREDIT

record Wallet =
  w_id :: string
  w_org :: string
  w_currency :: string
  w_mode :: BillingMode
  w_available :: money
  w_reserved :: money
  w_credit_limit :: money
  w_risk_limit :: money
  w_risk_exposure :: money
  w_credit_enforced :: bool
  w_status :: WalletStatus
  w_version :: int

record WalletTransaction =
  t_id :: string
  t_wallet :: string
  t_type :: TransactionType
  t_amount :: money
  t_balance_after :: money
  t_key :: "string option"
  t_reference :: "string option"
  t_journal :: "string option"
  t_operation :: "string option"
  t_recharge :: "string option"
  t_refund :: "string option"
  t_created :: int

record LedgerAccount =
  a_id :: string
  a_key :: string
  a_currency :: string
  a_active :: bool
  a_normal :: EntrySide

record Journal =
  j_id :: string
  j_wallet :: "string option"
  j_type :: JournalType
  j_key :: string
  j_currency :: string
  j_posted :: bool
  j_reference :: "string option"
  j_recharge :: "string option"
  j_refund :: "string option"
  j_invoice :: "string option"
  j_reversal_of :: "string option"
  j_case :: "string option"
  j_created :: int

record JournalEntry =
  e_id :: string
  e_journal :: string
  e_account :: string
  e_currency :: string
  e_side :: EntrySide
  e_amount :: money

section \<open>Funding operations\<close>

datatype FundingStatus = F_PENDING | F_RESERVED | F_SETTLED | F_PARTIALLY_SETTLED | F_RELEASED | F_FAILED
  | F_REVERSED
datatype CredentialOwner = OwnerPLATFORM | OwnerCUSTOMER
datatype AttemptStatus = A_STARTED | A_SUCCEEDED | A_FAILED | A_CANCELLED | A_TIMED_OUT
datatype UsageStatus = U_RECORDED | U_CHARGED | U_WAIVED | U_REFUNDED
datatype BudgetStatus = B_RESERVED | B_SETTLED | B_RELEASED

record FundingOperation =
  o_id :: string
  o_wallet :: string
  o_org :: string
  o_project :: string
  o_api_key :: "string option"
  o_request :: string
  o_key :: string
  o_fingerprint :: string
  o_pricing :: "string option"
  o_status :: FundingStatus
  o_currency :: string
  o_maximum :: money
  o_promotion :: money
  o_consumed_promotion :: money
  o_tax :: int  \<comment> \<open>\<open>numeric(12,8)\<close>: units of \<open>10\<^sup>-\<^sup>8\<close>\<close>
  o_exchange :: money
  o_settled :: money
  o_released :: money
  o_estimated_input :: int
  o_max_output :: int
  o_actual :: "(int \<times> int \<times> int) option"
  o_usage_source :: string
  o_observed :: int
  o_failure :: "string option"
  o_settled_at :: "int option"
  o_released_at :: "int option"
  o_heartbeat :: int
  o_created :: int
  o_owner :: CredentialOwner
  o_credential :: "string option"
  o_service_fee :: money
  o_shadow :: money
  o_byok_policy :: "string option"
  o_byok_fixed :: money
  o_byok_input :: money
  o_byok_cached :: money
  o_byok_output :: money
  o_byok_unit :: int
  o_byok_bps :: int
  o_byok_allowance :: money

record FundingEvent =
  ev_operation :: string
  ev_status :: FundingStatus
  ev_amount :: money
  ev_source :: string

record FundingAttempt =
  fa_id :: string
  fa_operation :: string
  fa_no :: nat
  fa_provider :: string
  fa_credential :: "string option"
  fa_fallback :: bool
  fa_status :: AttemptStatus

record UsageAdjustment =
  ad_operation :: string
  ad_key :: string
  ad_previous :: money
  ad_corrected :: money
  ad_difference :: money
  ad_journal :: "string option"

record UsageRecord =
  u_id :: string
  u_request :: string
  u_org :: string
  u_provider :: "string option"
  u_operation :: "string option"
  u_amount :: money
  u_currency :: string
  u_provider_cost :: "money option"
  u_promotion :: money
  u_snapshot :: "string option"
  u_status :: UsageStatus
  u_created :: int

record PriceSnapshot =
  sn_id :: string
  sn_request :: string
  sn_version :: string
  sn_owner :: CredentialOwner
  sn_provider_cost :: money
  sn_sale :: money
  sn_margin :: money
  sn_promotion :: money
  sn_pretax :: money
  sn_tax :: money
  sn_final :: money
  sn_fee :: money

section \<open>Source attribution of balances\<close>

datatype Bucket = CASH_BUCKET | CREDIT_BUCKET
datatype Direction = DEBIT_ALLOC | RESTORE_ALLOC
datatype LotKind = LotRECHARGE | LotTOPUP | LotADJUSTMENT | LotOPENING
datatype PromotionStatus = P_ACTIVE | P_EXHAUSTED | P_EXPIRED | P_REVOKED

record CashLot =
  l_id :: string
  l_wallet :: string
  l_recharge :: "string option"
  l_source_tx :: "string option"
  l_kind :: LotKind
  l_reference :: string
  l_original :: money
  l_remaining :: money
  l_currency :: string
  l_refundable :: bool
  l_created :: int

record CashAllocation =
  ca_id :: string
  ca_wallet :: string
  ca_tx :: string
  ca_lot :: "string option"
  ca_source :: "string option"
  ca_bucket :: Bucket
  ca_direction :: Direction
  ca_amount :: money
  ca_created :: int

record FundingCash =
  fc_id :: string
  fc_operation :: string
  fc_lot :: string
  fc_reserved :: money
  fc_consumed :: money
  fc_released :: money
  fc_settled :: "int option"
  fc_created :: int

record RefundCash =
  rc_id :: string
  rc_refund :: string
  rc_lot :: string
  rc_reserved :: money
  rc_consumed :: money
  rc_released :: money
  rc_settled :: "int option"

record PromotionCredit =
  pc_id :: string
  pc_org :: string
  pc_currency :: string
  pc_granted :: money
  pc_remaining :: money
  pc_key :: string
  pc_source :: string
  pc_status :: PromotionStatus
  pc_expires :: "int option"
  pc_created :: int

record PromotionRedemption =
  pm_credit :: string
  pm_snapshot :: string
  pm_request :: string
  pm_amount :: money

record PromotionAllocation =
  pa_id :: string
  pa_operation :: string
  pa_credit :: string
  pa_reserved :: money
  pa_consumed :: money
  pa_released :: money
  pa_reversed :: money
  pa_created :: int

section \<open>Prices, providers and their budgets\<close>

record PriceVersion =
  pv_id :: string
  pv_provider :: string
  pv_model :: string
  pv_version :: int
  pv_retail :: Rate
  pv_cost :: Rate

record ProviderRow =
  p_id :: string
  p_enabled :: bool
  p_pricing_disabled :: bool
  p_kill_switch :: bool
  p_commercial_approved :: bool
  p_resale_approved :: bool
  p_contract_start :: "int option"
  p_contract_end :: "int option"
  p_settlement_currency :: string
  p_cost_limit :: "money option"
  p_quality_enabled :: bool
  p_circuit_closed :: bool
  p_marketplace_allowed :: bool

record CredentialRow =
  cr_id :: string
  cr_provider :: string
  cr_owner :: CredentialOwner
  cr_org :: "string option"

record ByokPolicy =
  bp_id :: string
  bp_org :: "string option"
  bp_provider :: "string option"
  bp_enabled :: bool
  bp_fixed :: money
  bp_input :: money
  bp_cached :: money
  bp_output :: money
  bp_unit :: int
  bp_currency :: string
  bp_bps :: int
  bp_allowance :: money
  bp_effective :: int
  bp_expires :: "int option"

record ProviderBudget =
  pb_provider :: string
  pb_month :: string
  pb_requests :: int
  pb_reserved :: money
  pb_cost :: money

record BudgetReservation =
  br_id :: string
  br_operation :: string
  br_provider :: string
  br_month :: string
  br_currency :: string
  br_maximum :: money
  br_settled :: money
  br_status :: BudgetStatus

record ByokShadow =
  bs_project :: string
  bs_credential :: string
  bs_month :: string
  bs_currency :: string
  bs_amount :: money
  bs_fee :: money
  bs_requests :: int

section \<open>Payments\<close>

datatype RechargeStatus = R_CREATED | R_PENDING | R_PAID | R_CREDITED | R_FAILED | R_EXPIRED
  | R_REFUND_PENDING | R_REFUNDED | R_CHARGEBACK
datatype RefundStatus = RF_CREATED | RF_PENDING | RF_SUCCEEDED | RF_FAILED | RF_CLOSED
datatype ApplicationStatus = AP_SUBMITTED | AP_UNDER_REVIEW | AP_APPROVED | AP_REJECTED | AP_PROCESSING
  | AP_COMPLETED | AP_FAILED | AP_CANCELED
datatype PaymentAttemptStatus = PA_STARTED | PA_SUCCEEDED | PA_FAILED | PA_PENDING
datatype RiskLevel = RiskLOW | RiskMEDIUM | RiskHIGH | RiskBLOCKED
datatype AbuseStatus = AbuseCLEAR | AbuseMONITORED | AbuseRESTRICTED | AbuseFROZEN

record RechargeOrder =
  ro_id :: string
  ro_platform_no :: string
  ro_org :: string
  ro_wallet :: string
  ro_created_by :: "string option"
  ro_provider :: string
  ro_provider_no :: "string option"
  ro_status :: RechargeStatus
  ro_amount :: money
  ro_currency :: string
  ro_region :: string
  ro_key :: string
  ro_fingerprint :: string
  ro_tx :: "string option"
  ro_journal :: "string option"
  ro_expires :: int
  ro_paid_at :: "int option"
  ro_credited_at :: "int option"
  ro_closed_at :: "int option"
  ro_failure :: "string option"
  ro_created :: int
  ro_updated :: int
  ro_target_provider :: "string option"
  ro_target_mode :: "string option"

record RefundOrder =
  rf_id :: string
  rf_platform_no :: string
  rf_recharge :: string
  rf_application :: "string option"
  rf_provider :: string
  rf_provider_no :: "string option"
  rf_status :: RefundStatus
  rf_amount :: money
  rf_currency :: string
  rf_reason :: string
  rf_key :: string
  rf_tx :: "string option"
  rf_journal :: "string option"
  rf_created_by :: "string option"
  rf_failure :: "string option"
  rf_created :: int

record RefundApplication =
  ap_id :: string
  ap_org :: string
  ap_from_recharge :: bool
  ap_recharge :: "string option"
  ap_invoice :: "string option"
  ap_amount :: money
  ap_currency :: string
  ap_unused :: money
  ap_used :: money
  ap_fee :: money
  ap_cost :: money
  ap_reason :: string
  ap_key :: string
  ap_status :: ApplicationStatus
  ap_refund :: "string option"
  ap_requested_by :: string
  ap_reviewed_by :: "string option"
  ap_review_reason :: "string option"
  ap_created :: int

datatype InvoiceStatus = SI_OPEN | SI_PAID | SI_VOID | SI_FAILED | SI_UNCOLLECTIBLE

record SubscriptionInvoice =
  si_id :: string
  si_org :: string
  si_status :: InvoiceStatus
  si_total :: money
  si_currency :: string
  si_paid_at :: "int option"

datatype InvoiceApplicationStatus = IA_SUBMITTED | IA_UNDER_REVIEW | IA_APPROVED | IA_REJECTED | IA_EXPORTED | IA_CANCELED

record InvoiceApplication =
  ia_id :: string
  ia_org :: string
  ia_title :: string
  ia_tax_identifier :: string
  ia_amount :: money
  ia_currency :: string
  ia_start :: int
  ia_end :: int
  ia_status :: InvoiceApplicationStatus
  ia_key :: string
  ia_requested_by :: string
  ia_processed_by :: "string option"
  ia_processing_reason :: "string option"
  ia_created :: int

record InvoiceItem =
  it_id :: string
  it_application :: string
  it_recharge :: "string option"
  it_invoice :: "string option"
  it_amount :: money
  it_currency :: string

record PaymentAttempt =
  pt_id :: string
  pt_order :: string
  pt_no :: nat
  pt_operation :: string
  pt_status :: PaymentAttemptStatus
  pt_provider_no :: "string option"

record WebhookEvent =
  we_id :: string
  we_provider :: string
  we_event :: string
  we_replay :: string
  we_provider_no :: string
  we_order :: "string option"
  we_status :: string
  we_amount :: money
  we_currency :: string
  we_hash :: string
  we_processed :: bool

record Reconciliation =
  rn_id :: string
  rn_order :: "string option"
  rn_provider :: string
  rn_provider_no :: "string option"
  rn_key :: string
  rn_provider_status :: string
  rn_local_status :: RechargeStatus
  rn_provider_amount :: "money option"
  rn_local_amount :: "money option"
  rn_currency :: string
  rn_result :: string
  rn_details :: string
  rn_evidence :: string
  rn_error :: string
  rn_actor :: "string option"
  rn_at :: int

record RiskProfile =
  rk_id :: string
  rk_payment :: RiskLevel
  rk_abuse :: AbuseStatus
  rk_score :: int
  rk_limit :: "money option"

record AccountBinding =
  ab_id :: string
  ab_org :: string
  ab_user :: string
  ab_provider :: string
  ab_mode :: string
  ab_status :: string

record ProvisioningJob =
  jb_id :: string
  jb_binding :: string
  jb_order :: "string option"
  jb_operation :: string
  jb_key :: string
  jb_amount :: "money option"
  jb_currency :: "string option"

section \<open>Financial reconciliation\<close>

datatype RunStatus = RUN_RUNNING | RUN_COMPLETED | RUN_FAILED
datatype CaseStatus = CASE_OPEN | CASE_IN_REVIEW | CASE_RESOLVED | CASE_ACCEPTED

record ReconciliationRun =
  rn_run_id :: string
  rn_run_key :: string
  rn_run_date :: string
  rn_run_status :: RunStatus
  rn_run_trigger :: string
  rn_run_started_by :: "string option"
  rn_run_started :: int
  rn_run_completed :: "int option"
  rn_run_error :: string
  rn_run_previous :: nat  \<comment> \<open>the attempts kept under \<open>previous_attempts\<close>\<close>
  rn_run_matched :: nat
  rn_run_differences :: nat

record ReconciliationCase =
  cs_id :: string
  cs_key :: string
  cs_check :: string
  cs_classification :: string
  cs_severity :: string
  cs_status :: CaseStatus
  cs_org :: "string option"
  cs_provider :: "string option"
  cs_recharge :: "string option"
  cs_operation :: "string option"
  cs_invoice :: "string option"
  cs_expected :: "money option"
  cs_actual :: "money option"
  cs_currency :: "string option"
  cs_first_run :: string
  cs_last_run :: string
  cs_occurrences :: nat
  cs_handled_by :: "string option"
  cs_reason :: string
  cs_created :: int

record ReconciliationObservation =
  ob_run :: string
  ob_key :: string
  ob_check :: string
  ob_matched :: bool
  ob_case :: "string option"

record ReconciliationResolution =
  rs_case :: string
  rs_action :: string
  rs_source :: "string option"
  rs_reversal :: "string option"
  rs_reason :: string
  rs_key :: string
  rs_by :: string

section \<open>The database\<close>

record AuditLog =
  au_actor :: "string option"
  au_action :: string
  au_resource :: string

record db =
  clk :: int
  rng :: "nat \<Rightarrow> string"
  rng_pos :: nat
  wallets :: "Wallet list"
  wallet_transactions :: "WalletTransaction list"
  ledger_accounts :: "LedgerAccount list"
  journals :: "Journal list"
  entries :: "JournalEntry list"
  operations :: "FundingOperation list"
  op_events :: "FundingEvent list"
  op_attempts :: "FundingAttempt list"
  adjustments :: "UsageAdjustment list"
  usage_records :: "UsageRecord list"
  cash_lots :: "CashLot list"
  cash_allocations :: "CashAllocation list"
  funding_cash :: "FundingCash list"
  refund_cash :: "RefundCash list"
  promotions :: "PromotionCredit list"
  promotion_allocations :: "PromotionAllocation list"
  price_versions :: "PriceVersion list"
  providers :: "ProviderRow list"
  credentials :: "CredentialRow list"
  byok_policies :: "ByokPolicy list"
  provider_budgets :: "ProviderBudget list"
  budget_reservations :: "BudgetReservation list"
  byok_shadow :: "ByokShadow list"
  recharge_orders :: "RechargeOrder list"
  refund_orders :: "RefundOrder list"
  refund_applications :: "RefundApplication list"
  payment_attempts :: "PaymentAttempt list"
  webhook_events :: "WebhookEvent list"
  reconciliations :: "Reconciliation list"
  user_risks :: "RiskProfile list"
  org_risks :: "RiskProfile list"
  memberships :: "(string \<times> string) list"
  account_bindings :: "AccountBinding list"
  provisioning_jobs :: "ProvisioningJob list"
  price_snapshots :: "PriceSnapshot list"
  redemptions :: "PromotionRedemption list"
  subscription_invoices :: "SubscriptionInvoice list"
  invoice_applications :: "InvoiceApplication list"
  invoice_items :: "InvoiceItem list"
  recon_runs :: "ReconciliationRun list"
  recon_cases :: "ReconciliationCase list"
  recon_observations :: "ReconciliationObservation list"
  recon_resolutions :: "ReconciliationResolution list"
  audit_log :: "AuditLog list"

type_synonym 'a dbtx = "(db, store_error, 'a) tx"

section \<open>Statements\<close>

text \<open>\<open>id.UUID()\<close>.\<close>

definition uuidT :: "string dbtx" where
  "uuidT s = Inr (rng s (rng_pos s), s\<lparr>rng_pos := Suc (rng_pos s)\<rparr>)"

definition nullString :: "string \<Rightarrow> string option" where
  "nullString value = (if value = [] then None else Some value)"

definition unused :: "('r \<Rightarrow> bool) \<Rightarrow> 'r list \<Rightarrow> bool" where
  "unused p t \<longleftrightarrow> \<not> list_ex p t"

text \<open>A value written to a \<open>NUMERIC(30,12)\<close> column.\<close>

definition numericT :: "money \<Rightarrow> unit dbtx" where
  "numericT m = unlessT (money_in_range m) ErrNumericOverflow"

definition writeAuditTx :: "string option \<Rightarrow> string \<Rightarrow> string \<Rightarrow> unit dbtx" where
  "writeAuditTx actor action resource =
     thenT uuidT (modifyT (\<lambda>s. s\<lparr>audit_log := audit_log s @ [\<lparr>au_actor = actor, au_action = action, au_resource = resource\<rparr>]\<rparr>))"

text \<open>The row \<open>CHECK\<close>s of \<open>wallets\<close>, and an \<open>UPDATE\<close> of the row with the given key; \<open>UPDATE \<dots>
  RETURNING\<close> gives the new row, or no row.\<close>

definition walletChecks :: "Wallet \<Rightarrow> bool" where
  "walletChecks w \<longleftrightarrow> 0 \<le> w_reserved w \<and> 0 \<le> w_credit_limit w \<and> 0 \<le> w_risk_limit w \<and> 0 \<le> w_risk_exposure w"

definition walletInRange :: "Wallet \<Rightarrow> bool" where
  "walletInRange w \<longleftrightarrow> money_in_range (w_available w) \<and> money_in_range (w_reserved w) \<and>
     money_in_range (w_credit_limit w) \<and> money_in_range (w_risk_limit w) \<and> money_in_range (w_risk_exposure w)"

definition walletById :: "string \<Rightarrow> db \<Rightarrow> Wallet option" where
  "walletById wid s = find (\<lambda>w. w_id w = wid) (wallets s)"

definition walletByOrg :: "string \<Rightarrow> db \<Rightarrow> Wallet option" where
  "walletByOrg org s = find (\<lambda>w. w_org w = org) (wallets s)"

definition updateWallet :: "string \<Rightarrow> (Wallet \<Rightarrow> Wallet) \<Rightarrow> unit dbtx" where
  "updateWallet wid f =
     thenT (checkT (\<lambda>s. list_all (\<lambda>w. w_id w = wid \<longrightarrow> walletInRange (f w)) (wallets s)) ErrNumericOverflow)
    (thenT (checkT (\<lambda>s. list_all (\<lambda>w. w_id w = wid \<longrightarrow> walletChecks (f w)) (wallets s)) (ErrConstraint ''wallets_check''))
           (modifyT (\<lambda>s. s\<lparr>wallets := update_where (\<lambda>w. w_id w = wid) f (wallets s)\<rparr>)))"

definition updateWalletReturning :: "string \<Rightarrow> (Wallet \<Rightarrow> Wallet) \<Rightarrow> Wallet dbtx" where
  "updateWalletReturning wid f = thenT (updateWallet wid f) (rowT ErrNoRows (walletById wid))"

definition insertWalletTransaction :: "WalletTransaction \<Rightarrow> unit dbtx" where
  "insertWalletTransaction t =
     thenT (unlessT (money_in_range (t_amount t) \<and> money_in_range (t_balance_after t)) ErrNumericOverflow)
    (thenT (unlessT (t_amount t \<noteq> 0) (ErrConstraint ''wallet_transactions_amount_check''))
    (thenT (checkT (\<lambda>s. unused (\<lambda>u. t_id u = t_id t) (wallet_transactions s)) (ErrConstraint ''wallet_transactions_pkey''))
    (thenT (checkT (\<lambda>s. t_key t = None \<or> unused (\<lambda>u. t_wallet u = t_wallet t \<and> t_key u = t_key t) (wallet_transactions s))
              (ErrConstraint ''wallet_transactions_wallet_id_idempotency_key_key''))
    (thenT (checkT (\<lambda>s. t_recharge t = None \<or> unused (\<lambda>u. t_recharge u = t_recharge t) (wallet_transactions s))
              (ErrConstraint ''wallet_transactions_recharge_unique_idx''))
    (thenT (checkT (\<lambda>s. t_refund t = None \<or> unused (\<lambda>u. t_refund u = t_refund t) (wallet_transactions s))
              (ErrConstraint ''wallet_transactions_refund_unique_idx''))
           (modifyT (\<lambda>s. s\<lparr>wallet_transactions := wallet_transactions s @ [t]\<rparr>)))))))"

section \<open>Frames\<close>

text \<open>A part \<open>f\<close> of the state that does not read a table is kept by the statements that write it.\<close>

lemma keeps_uuidT: "(\<And>s n. f (s\<lparr>rng_pos := n\<rparr>) = f s) \<Longrightarrow> keeps f uuidT"
  by (auto simp: keeps_def uuidT_def)

lemma keeps_updateWallet: "(\<And>s t. f (s\<lparr>wallets := t\<rparr>) = f s) \<Longrightarrow> keeps f (updateWallet wid g)"
  unfolding updateWallet_def by (intro frame) auto

lemma keeps_insertWalletTransaction:
  "(\<And>s t. f (s\<lparr>wallet_transactions := t\<rparr>) = f s) \<Longrightarrow> keeps f (insertWalletTransaction r)"
  unfolding insertWalletTransaction_def by (intro frame) auto

lemma keeps_writeAuditTx:
  "(\<And>s n. f (s\<lparr>rng_pos := n\<rparr>) = f s) \<Longrightarrow> (\<And>s t. f (s\<lparr>audit_log := t\<rparr>) = f s) \<Longrightarrow> keeps f (writeAuditTx a b c)"
  unfolding writeAuditTx_def by (intro frame keeps_uuidT) auto

lemma numericT_Inr [simp]: "numericT m s = Inr (u, s') \<longleftrightarrow> money_in_range m \<and> s' = s"
  by (simp add: numericT_def)

lemma keeps_numericT [frame]: "keeps f (numericT m)"
  unfolding numericT_def by (intro frame)

end
