(* ===== verification/Ledger.thy ===== *)
theory Ledger
  imports Store
begin

text \<open>
  The double-entry ledger: \<open>postJournalTx\<close> and \<open>postLinkedJournalTx\<close> of \<^verbatim>\<open>internal/store/funding.go\<close>
  over the tables \<open>ledger_account\<close>, \<open>ledger_journal\<close> and \<open>ledger_journal_entry\<close>, with the triggers of
  \<^verbatim>\<open>migrations/0009_funding_ledger.sql\<close> (entries only into a draft journal; a draft is posted only when
  its debits equal its credits and are not zero).

  \<open>ledgerBalance\<close> is the replay query of \<^verbatim>\<open>docs/funding-ledger.md\<close>: the sum of the posted entries of an
  account, signed by the account's normal side. The locale \<open>double_entry\<close> is the contract a client of
  the ledger relies on: what posting a list of lines does to the balance of every account. It is
  interpreted on \<open>postLinkedJournalTx\<close>.
\<close>

record journalLine =
  jl_key :: string
  jl_side :: EntrySide
  jl_amount :: money

definition walletAccountKey :: "string \<Rightarrow> string \<Rightarrow> string" where
  "walletAccountKey walletID kind = ''wallet:'' @ walletID @ '':'' @ kind"

definition systemAccountKey :: "string \<Rightarrow> string \<Rightarrow> string" where
  "systemAccountKey kind currency = ''system:'' @ kind @ '':'' @ currency"

definition insertJournal :: "Journal \<Rightarrow> unit dbtx" where
  "insertJournal j =
     thenT (checkT (\<lambda>s. unused (\<lambda>k. j_id k = j_id j) (journals s)) (ErrConstraint ''ledger_journal_pkey''))
    (thenT (checkT (\<lambda>s. unused (\<lambda>k. j_key k = j_key j) (journals s)) (ErrConstraint ''ledger_journal_external_key_key''))
    (thenT (checkT (\<lambda>s. j_recharge j = None \<or> unused (\<lambda>k. j_recharge k = j_recharge j) (journals s))
              (ErrConstraint ''ledger_journal_recharge_unique_idx''))
    (thenT (checkT (\<lambda>s. j_refund j = None \<or> unused (\<lambda>k. j_refund k = j_refund j) (journals s))
              (ErrConstraint ''ledger_journal_refund_unique_idx''))
    (thenT (checkT (\<lambda>s. j_case j = None \<or> unused (\<lambda>k. j_case k = j_case j) (journals s))
              (ErrConstraint ''ledger_journal_reversal_case_uq''))
    (thenT (checkT (\<lambda>s. j_reversal_of j = None \<or> unused (\<lambda>k. j_reversal_of k = j_reversal_of j) (journals s))
              (ErrConstraint ''ledger_journal_reversal_source_uq''))
           (modifyT (\<lambda>s. s\<lparr>journals := journals s @ [j]\<rparr>)))))))"

text \<open>An entry is inserted only into a draft journal; its amount is positive.\<close>

definition insertEntry :: "JournalEntry \<Rightarrow> unit dbtx" where
  "insertEntry e =
     thenT (numericT (e_amount e))
    (thenT (unlessT (0 < e_amount e) (ErrConstraint ''ledger_journal_entry_amount_check''))
    (thenT (checkT (\<lambda>s. list_ex (\<lambda>j. j_id j = e_journal e \<and> \<not> j_posted j) (journals s))
              (ErrConstraint ''ledger_entry_journal_draft''))
    (thenT (checkT (\<lambda>s. unused (\<lambda>f. e_id f = e_id e) (entries s)) (ErrConstraint ''ledger_journal_entry_pkey''))
           (modifyT (\<lambda>s. s\<lparr>entries := entries s @ [e]\<rparr>)))))"

definition sideTotal :: "string \<Rightarrow> EntrySide \<Rightarrow> JournalEntry list \<Rightarrow> money" where
  "sideTotal jid side es = column_sum (\<lambda>e. e_journal e = jid \<and> e_side e = side) e_amount es"

definition postDraft :: "string \<Rightarrow> unit dbtx" where
  "postDraft jid =
     thenT (checkT (\<lambda>s. sideTotal jid DEBIT (entries s) \<noteq> 0 \<and>
                        sideTotal jid DEBIT (entries s) = sideTotal jid CREDIT (entries s))
              (ErrConstraint ''ledger_journal_balance''))
           (modifyT (\<lambda>s. s\<lparr>journals := update_where (\<lambda>j. j_id j = jid) (\<lambda>j. j\<lparr>j_posted := True\<rparr>) (journals s)\<rparr>))"

definition postLine :: "string \<Rightarrow> string \<Rightarrow> journalLine \<Rightarrow> unit dbtx" where
  "postLine journalID currency line =
     thenT (unlessT (0 < jl_amount line) (ErrInvalid ''journal amounts must be positive''))
    (bindT (rowT ErrNoRows (\<lambda>s. find (\<lambda>a. a_key a = jl_key line \<and> a_currency a = currency \<and> a_active a) (ledger_accounts s)))
      (\<lambda>account. bindT uuidT (\<lambda>entryID.
         insertEntry \<lparr>e_id = entryID, e_journal = journalID, e_account = a_id account, e_currency = currency,
                      e_side = jl_side line, e_amount = jl_amount line\<rparr>)))"

definition postLinkedJournalTx ::
  "string \<Rightarrow> JournalType \<Rightarrow> string \<Rightarrow> string \<Rightarrow> string \<Rightarrow> string option \<Rightarrow> string option \<Rightarrow> journalLine list \<Rightarrow> string dbtx" where
  "postLinkedJournalTx walletID journalType externalKey currency reference rechargeOrderID refundOrderID jlines =
     thenT (unlessT (2 \<le> length jlines) (ErrInvalid ''a journal requires at least two entries''))
    (bindT uuidT (\<lambda>journalID. bindT (getT clk) (\<lambda>now.
      thenT (insertJournal \<lparr>j_id = journalID, j_wallet = nullString walletID, j_type = journalType, j_key = externalKey,
               j_currency = currency, j_posted = False, j_reference = nullString reference,
               j_recharge = rechargeOrderID, j_refund = refundOrderID, j_invoice = None, j_reversal_of = None, j_case = None, j_created = now\<rparr>)
     (thenT (forT jlines (postLine journalID currency))
     (thenT (postDraft journalID)
            (returnT journalID))))))"

definition postJournalTx ::
  "string \<Rightarrow> JournalType \<Rightarrow> string \<Rightarrow> string \<Rightarrow> string \<Rightarrow> journalLine list \<Rightarrow> string dbtx" where
  "postJournalTx walletID journalType externalKey currency reference jlines =
     postLinkedJournalTx walletID journalType externalKey currency reference None None jlines"

section \<open>Balances, by replay of the posted entries\<close>

definition accountOf :: "db \<Rightarrow> JournalEntry \<Rightarrow> LedgerAccount option" where
  "accountOf s e = find (\<lambda>a. a_id a = e_account e) (ledger_accounts s)"

definition journalPosted :: "db \<Rightarrow> string \<Rightarrow> bool" where
  "journalPosted s jid = list_ex (\<lambda>j. j_id j = jid \<and> j_posted j) (journals s)"

definition signedEntry :: "db \<Rightarrow> JournalEntry \<Rightarrow> money" where
  "signedEntry s e = (case accountOf s e of None \<Rightarrow> 0
     | Some a \<Rightarrow> if e_side e = a_normal a then e_amount e else - e_amount e)"

definition entryOn :: "db \<Rightarrow> string \<Rightarrow> JournalEntry \<Rightarrow> bool" where
  "entryOn s key e \<longleftrightarrow> journalPosted s (e_journal e) \<and> map_option a_key (accountOf s e) = Some key"

definition ledgerBalance :: "db \<Rightarrow> string \<Rightarrow> money" where
  "ledgerBalance s key = column_sum (entryOn s key) (signedEntry s) (entries s)"

definition normalSide :: "db \<Rightarrow> string \<Rightarrow> EntrySide" where
  "normalSide s key = (case find (\<lambda>a. a_key a = key) (ledger_accounts s) of None \<Rightarrow> CREDIT | Some a \<Rightarrow> a_normal a)"

definition lineEffect :: "(string \<Rightarrow> EntrySide) \<Rightarrow> string \<Rightarrow> journalLine list \<Rightarrow> money" where
  "lineEffect side key jlines = column_sum (\<lambda>l. jl_key l = key)
     (\<lambda>l. if jl_side l = side key then jl_amount l else - jl_amount l) jlines"

text \<open>Every posted journal is balanced and not empty.\<close>

definition journals_balanced :: "db \<Rightarrow> bool" where
  "journals_balanced s \<longleftrightarrow> (\<forall>j \<in> set (journals s). j_posted j \<longrightarrow>
     sideTotal (j_id j) DEBIT (entries s) \<noteq> 0 \<and>
     sideTotal (j_id j) DEBIT (entries s) = sideTotal (j_id j) CREDIT (entries s))"

text \<open>The keys of the ledger tables: account identifiers and account keys are unique, and every entry
  belongs to a journal and to an account.\<close>

definition ledger_wf :: "db \<Rightarrow> bool" where
  "ledger_wf s \<longleftrightarrow> distinct (map a_id (ledger_accounts s)) \<and> distinct (map a_key (ledger_accounts s)) \<and>
     distinct (map j_id (journals s)) \<and>
     (\<forall>e \<in> set (entries s). e_journal e \<in> j_id ` set (journals s))"

text \<open>The evidence is append-only: accounts, journals and entries stay, and no entry is added to a journal
  that was there.\<close>

definition ledger_extends :: "db \<Rightarrow> db \<Rightarrow> bool" where
  "ledger_extends s s' \<longleftrightarrow> (\<exists>as js es. ledger_accounts s' = ledger_accounts s @ as \<and> journals s' = journals s @ js \<and> entries s' = entries s @ es \<and>
     (\<forall>e \<in> set es. \<forall>j \<in> set (journals s). e_journal e \<noteq> j_id j))"

section \<open>What posting does\<close>

lemma unused_iff: "unused p t \<longleftrightarrow> (\<forall>r \<in> set t. \<not> p r)"
  by (simp add: unused_def list_ex_iff)

lemma sideTotal_append [simp]: "sideTotal jid d (es @ fs) = sideTotal jid d es + sideTotal jid d fs"
  by (simp add: sideTotal_def)

lemma uuidT_Inr: "uuidT s = Inr (x, s') \<longleftrightarrow> x = rng s (rng_pos s) \<and> s' = s\<lparr>rng_pos := Suc (rng_pos s)\<rparr>"
  by (auto simp: uuidT_def)

lemma insertEntry_Inr:
  "insertEntry e s = Inr (u, s') \<Longrightarrow> s' = s\<lparr>entries := entries s @ [e]\<rparr> \<and> 0 < e_amount e \<and> money_in_range (e_amount e)"
  unfolding insertEntry_def numericT_def by auto

text \<open>The line's account, and the entry that records the line.\<close>

definition records_line :: "LedgerAccount list \<Rightarrow> string \<Rightarrow> journalLine \<Rightarrow> JournalEntry \<Rightarrow> bool" where
  "records_line accounts jid l e \<longleftrightarrow> e_journal e = jid \<and> e_side e = jl_side l \<and> e_amount e = jl_amount l \<and>
     (\<exists>a \<in> set accounts. a_id a = e_account e \<and> a_key a = jl_key l)"

lemma postLine_Inr:
  assumes "postLine jid cur l s = Inr (u, s')"
  shows "\<exists>e n. s' = s\<lparr>rng_pos := n, entries := entries s @ [e]\<rparr> \<and> records_line (ledger_accounts s) jid l e"
proof -
  from assms obtain a where a: "find (\<lambda>a. a_key a = jl_key l \<and> a_currency a = cur \<and> a_active a) (ledger_accounts s) = Some a"
    and i: "insertEntry \<lparr>e_id = rng s (rng_pos s), e_journal = jid, e_account = a_id a, e_currency = cur,
                e_side = jl_side l, e_amount = jl_amount l\<rparr> (s\<lparr>rng_pos := Suc (rng_pos s)\<rparr>) = Inr (u, s')"
    unfolding postLine_def by (auto simp: uuidT_Inr)
  from insertEntry_Inr [OF i] find_SomeD [OF a] show ?thesis
    by (intro exI [of _ "\<lparr>e_id = rng s (rng_pos s), e_journal = jid, e_account = a_id a, e_currency = cur,
                e_side = jl_side l, e_amount = jl_amount l\<rparr>"] exI [of _ "Suc (rng_pos s)"])
       (auto simp: records_line_def)
qed

lemma postLines_Inr:
  assumes "forT jlines (postLine jid cur) s = Inr (u, s')"
  shows "\<exists>es n. s' = s\<lparr>rng_pos := n, entries := entries s @ es\<rparr> \<and>
           list_all2 (records_line (ledger_accounts s) jid) jlines es"
  using assms
proof (induction jlines arbitrary: s)
  case Nil
  then show ?case by (intro exI [of _ "[]"] exI [of _ "rng_pos s"]) auto
next
  case (Cons l jlines)
  from Cons.prems obtain v t where 1: "postLine jid cur l s = Inr (v, t)"
    and 2: "forT jlines (postLine jid cur) t = Inr (u, s')"
    by (auto simp: forT_Inr simp del: forT.simps)
  from postLine_Inr [OF 1] obtain e n where t: "t = s\<lparr>rng_pos := n, entries := entries s @ [e]\<rparr>"
    and e: "records_line (ledger_accounts s) jid l e" by blast
  from Cons.IH [OF 2] obtain es m where s': "s' = t\<lparr>rng_pos := m, entries := entries t @ es\<rparr>"
    and es: "list_all2 (records_line (ledger_accounts t) jid) jlines es" by blast
  show ?case using s' t e es by (intro exI [of _ "e # es"] exI [of _ m]) auto
qed

text \<open>The whole effect of posting: one posted journal and one entry per line are appended.\<close>

lemma postLinkedJournalTx_Inr:
  assumes "postLinkedJournalTx w ty k cur ref rc rf jlines s = Inr (jid, s')"
  obtains es j n where
    "s' = s\<lparr>rng_pos := n, journals := journals s @ [j], entries := entries s @ es\<rparr>"
    "list_all2 (records_line (ledger_accounts s) jid) jlines es"
    "j_id j = jid" "j_key j = k" "j_posted j" "j_type j = ty" "j_recharge j = rc" "j_refund j = rf" "j_wallet j = nullString w" "j_reversal_of j = None"
    "\<forall>i \<in> set (journals s). j_id i \<noteq> jid" "\<forall>i \<in> set (journals s). j_key i \<noteq> k"
    "rc \<noteq> None \<longrightarrow> (\<forall>i \<in> set (journals s). j_recharge i \<noteq> rc)"
    "rf \<noteq> None \<longrightarrow> (\<forall>i \<in> set (journals s). j_refund i \<noteq> rf)"
    "sideTotal jid DEBIT (entries s @ es) \<noteq> 0" "sideTotal jid DEBIT (entries s @ es) = sideTotal jid CREDIT (entries s @ es)"
proof -
  define j where "j = \<lparr>j_id = rng s (rng_pos s), j_wallet = nullString w, j_type = ty, j_key = k,
               j_currency = cur, j_posted = False, j_reference = nullString ref,
               j_recharge = rc, j_refund = rf, j_invoice = None, j_reversal_of = None, j_case = None, j_created = clk s\<rparr>"
  from assms obtain s1 s2 u v where
    1: "insertJournal j (s\<lparr>rng_pos := Suc (rng_pos s)\<rparr>) = Inr (u, s1)"
    and 2: "forT jlines (postLine (rng s (rng_pos s)) cur) s1 = Inr (v, s2)"
    and 3: "postDraft (rng s (rng_pos s)) s2 = Inr ((), s')" and jid: "jid = rng s (rng_pos s)"
    unfolding postLinkedJournalTx_def by (auto simp: uuidT_Inr j_def simp del: forT.simps)
  have s1: "s1 = s\<lparr>rng_pos := Suc (rng_pos s), journals := journals s @ [j]\<rparr>"
    and fresh: "\<forall>i \<in> set (journals s). j_id i \<noteq> jid" "\<forall>i \<in> set (journals s). j_key i \<noteq> k"
    and links: "rc \<noteq> None \<longrightarrow> (\<forall>i \<in> set (journals s). j_recharge i \<noteq> rc)"
      "rf \<noteq> None \<longrightarrow> (\<forall>i \<in> set (journals s). j_refund i \<noteq> rf)"
    using 1 jid unfolding insertJournal_def by (auto simp: unused_iff j_def)
  from postLines_Inr [OF 2] obtain es n where s2: "s2 = s1\<lparr>rng_pos := n, entries := entries s1 @ es\<rparr>"
    and es: "list_all2 (records_line (ledger_accounts s1) (rng s (rng_pos s))) jlines es" by blast
  have up: "update_where (\<lambda>i. j_id i = jid) (\<lambda>i. i\<lparr>j_posted := True\<rparr>) (journals s @ [j]) = journals s @ [j\<lparr>j_posted := True\<rparr>]"
    using fresh(1) jid by (simp add: update_where_none j_def)
  have s': "s' = s2\<lparr>journals := journals s @ [j\<lparr>j_posted := True\<rparr>]\<rparr>"
    and bal: "sideTotal jid DEBIT (entries s2) \<noteq> 0" "sideTotal jid DEBIT (entries s2) = sideTotal jid CREDIT (entries s2)"
    using 3 up jid s1 s2 unfolding postDraft_def by auto
  show thesis
    by (rule that [of es "j\<lparr>j_posted := True\<rparr>" n]) (use s' s2 s1 es fresh links bal jid in \<open>auto simp: j_def\<close>)
qed

lemma keeps_postLinkedJournalTx:
  assumes "\<And>s n. f (s\<lparr>rng_pos := n\<rparr>) = f s" "\<And>s t. f (s\<lparr>journals := t\<rparr>) = f s" "\<And>s t. f (s\<lparr>entries := t\<rparr>) = f s"
  shows "keeps f (postLinkedJournalTx w ty k cur ref rc rf jlines)"
  by (rule keepsI, erule postLinkedJournalTx_Inr) (simp add: assms)

lemma keeps_postJournalTx:
  assumes "\<And>s n. f (s\<lparr>rng_pos := n\<rparr>) = f s" "\<And>s t. f (s\<lparr>journals := t\<rparr>) = f s" "\<And>s t. f (s\<lparr>entries := t\<rparr>) = f s"
  shows "keeps f (postJournalTx w ty k cur ref jlines)"
  unfolding postJournalTx_def using assms by (rule keeps_postLinkedJournalTx)

lemma find_by_unique_id:
  "distinct (map a_id t) \<Longrightarrow> a \<in> set t \<Longrightarrow> find (\<lambda>b. a_id b = a_id a) t = Some a"
  by (induction t) (auto simp: image_iff)

lemma find_by_unique_key:
  "distinct (map a_key t) \<Longrightarrow> a \<in> set t \<Longrightarrow> find (\<lambda>b. a_key b = a_key a) t = Some a"
  by (induction t) (auto simp: image_iff)

lemma records_line_signed:
  assumes "distinct (map a_id (ledger_accounts s))" "distinct (map a_key (ledger_accounts s))"
    and "records_line (ledger_accounts s) jid l e" and "journalPosted s jid"
  shows "entryOn s key e \<longleftrightarrow> jl_key l = key"
    and "signedEntry s e = (if jl_side l = normalSide s (jl_key l) then jl_amount l else - jl_amount l)"
proof -
  from assms(3) obtain a where a: "a \<in> set (ledger_accounts s)" "a_id a = e_account e" "a_key a = jl_key l"
    and e: "e_journal e = jid" "e_side e = jl_side l" "e_amount e = jl_amount l"
    by (auto simp: records_line_def)
  have acc: "accountOf s e = Some a"
    using find_by_unique_id [OF assms(1) a(1)] a(2) by (simp add: accountOf_def)
  have n: "normalSide s (jl_key l) = a_normal a"
    using find_by_unique_key [OF assms(2) a(1)] a(3) by (simp add: normalSide_def)
  show "entryOn s key e \<longleftrightarrow> jl_key l = key" using acc a e assms(4) by (simp add: entryOn_def)
  show "signedEntry s e = (if jl_side l = normalSide s (jl_key l) then jl_amount l else - jl_amount l)"
    using acc n e by (simp add: signedEntry_def)
qed

lemma sum_recorded_lines:
  assumes "list_all2 (records_line (ledger_accounts s) jid) jlines es"
    and "distinct (map a_id (ledger_accounts s))" "distinct (map a_key (ledger_accounts s))" and "journalPosted s jid"
  shows "column_sum (entryOn s key) (signedEntry s) es = lineEffect (normalSide s) key jlines"
  using assms(1)
proof (induction jlines es rule: list_all2_induct)
  case (Cons l jlines e es)
  with records_line_signed [OF assms(2,3) Cons.hyps(1) assms(4)] show ?case
    by (simp add: lineEffect_def)
qed (simp add: lineEffect_def)

lemma entryOn_old:
  assumes "s' = s\<lparr>rng_pos := n, journals := journals s @ [j], entries := es\<rparr>" and "e_journal e \<noteq> j_id j"
  shows "entryOn s' key e = entryOn s key e" "signedEntry s' e = signedEntry s e"
  using assms by (auto simp: entryOn_def signedEntry_def accountOf_def journalPosted_def)

text \<open>A posted journal and its entries, appended to the tables.\<close>

definition appends :: "db \<Rightarrow> Journal \<Rightarrow> JournalEntry list \<Rightarrow> db \<Rightarrow> bool" where
  "appends s j es s' \<longleftrightarrow> (\<exists>n. s' = s\<lparr>rng_pos := n, journals := journals s @ [j], entries := entries s @ es\<rparr>) \<and> j_posted j \<and>
     (\<forall>i \<in> set (journals s). j_id i \<noteq> j_id j) \<and> (\<forall>e \<in> set es. e_journal e = j_id j) \<and>
     sideTotal (j_id j) DEBIT (entries s @ es) \<noteq> 0 \<and> sideTotal (j_id j) DEBIT (entries s @ es) = sideTotal (j_id j) CREDIT (entries s @ es)"

lemma appendsD:
  assumes "appends s j es s'"
  shows "journals s' = journals s @ [j]" "entries s' = entries s @ es" "ledger_accounts s' = ledger_accounts s" "j_posted j"
    "\<And>i. i \<in> set (journals s) \<Longrightarrow> j_id i \<noteq> j_id j" "\<And>e. e \<in> set es \<Longrightarrow> e_journal e = j_id j"
    "sideTotal (j_id j) DEBIT (entries s') \<noteq> 0" "sideTotal (j_id j) DEBIT (entries s') = sideTotal (j_id j) CREDIT (entries s')"
  using assms by (auto simp: appends_def)

definition accountKey :: "db \<Rightarrow> JournalEntry \<Rightarrow> string option" where
  "accountKey s e = map_option a_key (accountOf s e)"

lemma appends_balance:
  assumes "ledger_wf s" "appends s j es s'"
  shows "ledgerBalance s' key = ledgerBalance s key + column_sum (\<lambda>e. accountKey s e = Some key) (signedEntry s) es"
proof -
  from assms(2) obtain n where s': "s' = s\<lparr>rng_pos := n, journals := journals s @ [j], entries := entries s @ es\<rparr>"
    and j: "j_posted j" and fresh: "\<forall>i \<in> set (journals s). j_id i \<noteq> j_id j" and es: "\<forall>e \<in> set es. e_journal e = j_id j"
    by (auto simp: appends_def)
  have old: "e_journal e \<noteq> j_id j" if "e \<in> set (entries s)" for e
    using assms(1) that fresh by (fastforce simp: ledger_wf_def)
  have "column_sum (entryOn s' key) (signedEntry s') (entries s) = ledgerBalance s key"
    unfolding ledgerBalance_def by (rule column_sum_cong) (use entryOn_old [OF s'] old in auto)
  moreover have "column_sum (entryOn s' key) (signedEntry s') es = column_sum (\<lambda>e. accountKey s e = Some key) (signedEntry s) es"
    by (rule column_sum_cong) (use es j in \<open>auto simp: s' entryOn_def signedEntry_def accountOf_def journalPosted_def accountKey_def\<close>)
  ultimately show ?thesis using s' by (simp add: ledgerBalance_def)
qed

lemma appends_wf:
  assumes "ledger_wf s" "appends s j es s'"
  shows "ledger_wf s'"
proof -
  note a = appendsD [OF assms(2)]
  have "j_id j \<notin> set (map j_id (journals s))" using a(5) by force
  then show ?thesis using assms(1) a(6) unfolding ledger_wf_def a(1-3) by auto
qed

lemma sideTotal_none: "\<forall>e \<in> set es. e_journal e \<noteq> jid \<Longrightarrow> sideTotal jid d es = 0"
  unfolding sideTotal_def by (rule column_sum_zero) auto

lemma appends_balanced:
  assumes "journals_balanced s" "appends s j es s'"
  shows "journals_balanced s'"
proof -
  note a = appendsD [OF assms(2)]
  have "sideTotal (j_id i) d es = 0" if "i \<in> set (journals s)" for i d
    using a(5) [OF that] a(6) by (intro sideTotal_none) auto
  then have "sideTotal (j_id i) d (entries s') = sideTotal (j_id i) d (entries s)" if "i \<in> set (journals s)" for i d
    using that by (simp add: a(2))
  then show ?thesis using assms(1) a(7,8) unfolding journals_balanced_def a(1) by auto
qed

lemma appends_extends: "appends s j es s' \<Longrightarrow> ledger_extends s s'"
  unfolding ledger_extends_def by (rule exI [of _ "[]"], rule exI [of _ "[j]"], rule exI [of _ es]) (auto simp: appends_def)

lemma post_appends:
  assumes "postLinkedJournalTx w ty k cur ref rc rf jlines s = Inr (jid, s')"
  obtains es j where "appends s j es s'" "list_all2 (records_line (ledger_accounts s) jid) jlines es"
    "j_id j = jid" "j_wallet j = nullString w" "j_type j = ty" "j_key j = k" "j_recharge j = rc" "j_refund j = rf" "j_reversal_of j = None"
proof (rule postLinkedJournalTx_Inr [OF assms])
  fix es j n
  assume a: "s' = s\<lparr>rng_pos := n, journals := journals s @ [j], entries := entries s @ es\<rparr>"
    and es: "list_all2 (records_line (ledger_accounts s) jid) jlines es"
    and j: "j_id j = jid" "j_key j = k" "j_posted j" "j_type j = ty" "j_recharge j = rc" "j_refund j = rf" "j_wallet j = nullString w" "j_reversal_of j = None"
      "\<forall>i \<in> set (journals s). j_id i \<noteq> jid"
      "sideTotal jid DEBIT (entries s @ es) \<noteq> 0" "sideTotal jid DEBIT (entries s @ es) = sideTotal jid CREDIT (entries s @ es)"
  have "\<forall>e \<in> set es. e_journal e = jid"
    using es by (auto simp: list_all2_conv_all_nth in_set_conv_nth records_line_def)
  then have "appends s j es s'" unfolding appends_def using a j by auto
  then show thesis by (rule that) (fact es j)+
qed

text \<open>A draft, its entries, and its posting.\<close>

lemma draft_posted:
  assumes "insertJournal j s = Inr (u, s1)" "\<not> j_posted j" "s2 = s1\<lparr>rng_pos := n, entries := entries s1 @ es\<rparr>"
    "\<forall>e \<in> set es. e_journal e = j_id j" "postDraft (j_id j) s2 = Inr (v, s')"
  shows "appends s (j\<lparr>j_posted := True\<rparr>) es s'"
proof -
  have s1: "s1 = s\<lparr>journals := journals s @ [j]\<rparr>" and fresh: "\<forall>i \<in> set (journals s). j_id i \<noteq> j_id j"
    using assms(1) unfolding insertJournal_def by (auto simp: unused_iff)
  have up: "update_where (\<lambda>i. j_id i = j_id j) (\<lambda>i. i\<lparr>j_posted := True\<rparr>) (journals s @ [j]) = journals s @ [j\<lparr>j_posted := True\<rparr>]"
    using fresh by (simp add: update_where_none)
  then show ?thesis using assms(4,5) s1 fresh unfolding postDraft_def appends_def assms(3) by (auto intro!: exI [of _ n])
qed

lemma appends_rng: "appends (s\<lparr>rng_pos := m\<rparr>) j es s' = appends s j es s'"
  by (auto simp: appends_def)

lemma post_balance:
  assumes "ledger_wf s" and p: "postLinkedJournalTx w ty k cur ref rc rf jlines s = Inr (jid, s')"
  shows "ledgerBalance s' key = ledgerBalance s key + lineEffect (normalSide s) key jlines"
proof -
  from p obtain es j where a: "appends s j es s'" and es: "list_all2 (records_line (ledger_accounts s) jid) jlines es" and j: "j_id j = jid"
    by (rule post_appends)
  have "column_sum (entryOn s' key) (signedEntry s') es = lineEffect (normalSide s') key jlines"
    by (rule sum_recorded_lines [of _ jid])
       (use es a j assms(1) in \<open>auto simp: ledger_wf_def journalPosted_def appends_def\<close>)
  moreover have "column_sum (entryOn s' key) (signedEntry s') es = column_sum (\<lambda>e. accountKey s e = Some key) (signedEntry s) es"
    by (rule column_sum_cong) (use a in \<open>auto simp: entryOn_def signedEntry_def accountOf_def journalPosted_def accountKey_def appends_def\<close>)
  moreover have "normalSide s' = normalSide s" using a by (auto simp: normalSide_def fun_eq_iff appends_def)
  ultimately show ?thesis using appends_balance [OF assms(1) a] by simp
qed

lemma post_wf: "ledger_wf s \<Longrightarrow> postLinkedJournalTx w ty k cur ref rc rf jlines s = Inr (jid, s') \<Longrightarrow> ledger_wf s'"
  by (erule post_appends) (rule appends_wf)

lemma post_balanced: "journals_balanced s \<Longrightarrow> postLinkedJournalTx w ty k cur ref rc rf jlines s = Inr (jid, s') \<Longrightarrow> journals_balanced s'"
  by (erule post_appends) (rule appends_balanced)

lemma post_extends: "postLinkedJournalTx w ty k cur ref rc rf jlines s = Inr (jid, s') \<Longrightarrow> ledger_extends s s'"
  by (erule post_appends) (rule appends_extends)

section \<open>The contract of the ledger\<close>

locale double_entry =
  fixes post :: "journalLine list \<Rightarrow> 's \<Rightarrow> 'e + 'r \<times> 's"
    and balance :: "'s \<Rightarrow> string \<Rightarrow> money"
    and wf :: "'s \<Rightarrow> bool"
    and side :: "'s \<Rightarrow> string \<Rightarrow> EntrySide"
  assumes balance_post: "wf s \<Longrightarrow> post ls s = Inr (r, s') \<Longrightarrow> balance s' key = balance s key + lineEffect (side s) key ls"
    and wf_post: "wf s \<Longrightarrow> post ls s = Inr (r, s') \<Longrightarrow> wf s'"
begin

text \<open>A two-line journal moves its amount from one account to the other.\<close>

lemma transfer:
  assumes "wf s" "post [\<lparr>jl_key = a, jl_side = DEBIT, jl_amount = m\<rparr>, \<lparr>jl_key = b, jl_side = CREDIT, jl_amount = m\<rparr>] s = Inr (r, s')"
    and "a \<noteq> b"
  shows "balance s' a = (if side s a = DEBIT then balance s a + m else balance s a - m)"
    and "balance s' b = (if side s b = CREDIT then balance s b + m else balance s b - m)"
    and "c \<noteq> a \<Longrightarrow> c \<noteq> b \<Longrightarrow> balance s' c = balance s c"
  using balance_post [OF assms(1,2)] assms(3) by (auto simp: lineEffect_def)

text \<open>Between two liability accounts it preserves their sum: holding funds moves no money.\<close>

lemma transfer_sum:
  assumes "wf s" "post [\<lparr>jl_key = a, jl_side = DEBIT, jl_amount = m\<rparr>, \<lparr>jl_key = b, jl_side = CREDIT, jl_amount = m\<rparr>] s = Inr (r, s')"
    and "side s a = CREDIT" "side s b = CREDIT"
  shows "balance s' a + balance s' b = balance s a + balance s b"
  using balance_post [OF assms(1,2)] assms(3,4) by (cases "a = b") (auto simp: lineEffect_def)

end

interpretation linked_journal: double_entry "postLinkedJournalTx w ty k cur ref rc rf" ledgerBalance ledger_wf normalSide
  by unfold_locales (blast intro: post_balance post_wf)+

interpretation journal: double_entry "postJournalTx w ty k cur ref" ledgerBalance ledger_wf normalSide
  unfolding postJournalTx_def by unfold_locales (blast intro: post_balance post_wf)+

end
