(* ===== verification/Allocation.thy ===== *)
theory Allocation
  imports Decimal
begin

text \<open>
  The two loops the store distributes an amount with. \<open>greedyT\<close> takes from each item in turn until
  nothing is left to take and then stops (\<open>reserveCashLotsTx\<close>, \<open>allocateCashDebitTx\<close>,
  \<open>restoreCashAllocationTx\<close>, \<open>reservePromotionTx\<close>, \<open>reversePromotionTx\<close> of
  \<^verbatim>\<open>internal/store/finance.go\<close>); \<open>spreadT\<close> visits every item and uses what is left of the amount, which
  may be nothing (\<open>settleCashLotsTx\<close>, \<open>settlePromotionTx\<close>). Both return what remains.

  The locale \<open>allocation_loop\<close> is the contract of the loop's body: from a state that satisfies
  \<open>P (x # xs)\<close> it reaches one that satisfies \<open>P xs\<close>, having added what it took to the measured
  quantity \<open>amt\<close>. Its lemmas give the loops: \<open>P\<close> of the unvisited items, the exact amount distributed,
  and what remains.
\<close>

primrec greedyT :: "('i \<Rightarrow> money) \<Rightarrow> ('i \<Rightarrow> money \<Rightarrow> ('s, 'e, unit) tx) \<Rightarrow> 'i list \<Rightarrow> money \<Rightarrow> ('s, 'e, money) tx" where
  "greedyT cap step [] remaining = returnT remaining"
| "greedyT cap step (item # items) remaining =
     (if remaining \<le> 0 then returnT remaining
      else let take = min (cap item) remaining in
           thenT (step item take) (greedyT cap step items (remaining - take)))"

primrec spreadT :: "('i \<Rightarrow> money) \<Rightarrow> ('i \<Rightarrow> money \<Rightarrow> ('s, 'e, unit) tx) \<Rightarrow> 'i list \<Rightarrow> money \<Rightarrow> ('s, 'e, money) tx" where
  "spreadT cap step [] remaining = returnT remaining"
| "spreadT cap step (item # items) remaining =
     (let use = (if 0 < remaining then min (cap item) remaining else 0) in
      thenT (step item use) (spreadT cap step items (remaining - use)))"

lemma keeps_greedyT [frame]: "(\<And>x m. keeps f (step x m)) \<Longrightarrow> keeps f (greedyT cap step xs r)"
  by (induction xs arbitrary: r) (auto simp: Let_def intro!: frame)

lemma keeps_spreadT [frame]: "(\<And>x m. keeps f (step x m)) \<Longrightarrow> keeps f (spreadT cap step xs r)"
  by (induction xs arbitrary: r) (auto simp: Let_def intro!: frame)

lemma spreadT_invariant:
  assumes "spreadT cap step items r s = Inr (r', s')" "Q s"
    and "\<And>x m s u t. x \<in> set items \<Longrightarrow> Q s \<Longrightarrow> step x m s = Inr (u, t) \<Longrightarrow> Q t"
  shows "Q s'"
  using assms
proof (induction items arbitrary: s r)
  case (Cons x xs)
  from Cons.prems(1) obtain m u t where "step x m s = Inr (u, t)" "spreadT cap step xs (r - m) t = Inr (r', s')"
    by (auto simp: Let_def)
  then show ?case using Cons.IH [of "r - m" t] Cons.prems(2,3) by (metis list.set_intros)
qed auto

lemma greedyT_invariant:
  assumes "greedyT cap step items r s = Inr (r', s')" "Q s"
    and "\<And>x m s u t. x \<in> set items \<Longrightarrow> Q s \<Longrightarrow> step x m s = Inr (u, t) \<Longrightarrow> Q t"
  shows "Q s'"
  using assms
proof (induction items arbitrary: s r)
  case (Cons x xs)
  show ?case
  proof (cases "r \<le> 0")
    case False
    with Cons.prems(1) obtain m u t where "step x m s = Inr (u, t)" "greedyT cap step xs (r - m) t = Inr (r', s')"
      by (auto simp: Let_def)
    then show ?thesis using Cons.IH [of "r - m" t] Cons.prems(2,3) by (metis list.set_intros)
  qed (use Cons.prems in simp)
qed auto

text \<open>What remains: the amount beyond the capacities.\<close>

lemma sum_list_pos: "\<forall>x \<in> set xs. 0 < f x \<Longrightarrow> 0 \<le> sum_list (map f xs)" for f :: "'a \<Rightarrow> int"
  by (induction xs) auto

lemma greedyT_remaining:
  assumes "greedyT cap step items r s = Inr (r', s')" "0 \<le> r" "\<forall>x \<in> set items. 0 < cap x"
  shows "r' = max 0 (r - sum_list (map cap items))"
  using assms
proof (induction items arbitrary: s r)
  case (Cons x xs)
  have pos: "0 \<le> sum_list (map cap xs)" "0 < cap x" using Cons.prems(3) by (auto intro: sum_list_pos)
  show ?case
  proof (cases "r \<le> 0")
    case True
    with Cons.prems pos show ?thesis by auto
  next
    case False
    then obtain t where "greedyT cap step xs (r - min (cap x) r) t = Inr (r', s')"
      using Cons.prems(1) by (auto simp: Let_def)
    from Cons.IH [OF this] Cons.prems(3) have "r' = max 0 (r - min (cap x) r - sum_list (map cap xs))" by auto
    then show ?thesis using pos by auto
  qed
qed auto

lemma spreadT_remaining:
  assumes "spreadT cap step items r s = Inr (r', s')" "0 \<le> r" "\<forall>x \<in> set items. 0 < cap x"
  shows "r' = max 0 (r - sum_list (map cap items))"
  using assms
proof (induction items arbitrary: s r)
  case (Cons x xs)
  have pos: "0 \<le> sum_list (map cap xs)" "0 < cap x" using Cons.prems(3) by (auto intro: sum_list_pos)
  define m where "m = (if 0 < r then min (cap x) r else 0)"
  obtain t where "spreadT cap step xs (r - m) t = Inr (r', s')"
    using Cons.prems(1) by (auto simp: Let_def m_def)
  from Cons.IH [OF this] Cons.prems(2,3) pos have "r' = max 0 (r - m - sum_list (map cap xs))" by (auto simp: m_def)
  then show ?case using pos Cons.prems(2) by (auto simp: m_def)
qed auto

locale allocation_loop =
  fixes cap :: "'i \<Rightarrow> money"
    and step :: "'i \<Rightarrow> money \<Rightarrow> ('s, 'e, unit) tx"
    and P :: "'i list \<Rightarrow> 's \<Rightarrow> bool"
    and amt :: "'s \<Rightarrow> money"
  assumes cap_pos: "P (x # xs) s \<Longrightarrow> 0 < cap x"
    and step_ok: "P (x # xs) s \<Longrightarrow> 0 \<le> m \<Longrightarrow> m \<le> cap x \<Longrightarrow> step x m s = Inr (u, s') \<Longrightarrow> P xs s' \<and> amt s' = amt s + m"
begin

lemma greedyT_ok:
  assumes "P items s" "0 \<le> r" "greedyT cap step items r s = Inr (r', s')"
  shows "(\<exists>rest. P rest s') \<and> 0 \<le> r' \<and> r' \<le> r \<and> amt s' = amt s + (r - r')"
  using assms
proof (induction items arbitrary: s r)
  case (Cons x xs)
  show ?case
  proof (cases "r \<le> 0")
    case True
    with Cons.prems show ?thesis by auto
  next
    case False
    define m where "m = min (cap x) r"
    have m: "0 \<le> m" "m \<le> cap x" "m \<le> r" using cap_pos [OF Cons.prems(1)] False by (auto simp: m_def)
    from Cons.prems(3) False obtain u t where 1: "step x m s = Inr (u, t)"
      and 2: "greedyT cap step xs (r - m) t = Inr (r', s')" by (auto simp: Let_def m_def)
    from step_ok [OF Cons.prems(1) m(1,2) 1] have t: "P xs t" "amt t = amt s + m" by auto
    with Cons.IH [OF t(1) _ 2] m show ?thesis by auto
  qed
qed auto

lemma spreadT_ok:
  assumes "P items s" "0 \<le> r" "spreadT cap step items r s = Inr (r', s')"
  shows "P [] s' \<and> 0 \<le> r' \<and> r' \<le> r \<and> amt s' = amt s + (r - r')"
  using assms
proof (induction items arbitrary: s r)
  case (Cons x xs)
  define m where "m = (if 0 < r then min (cap x) r else 0)"
  have m: "0 \<le> m" "m \<le> cap x" "m \<le> r"
    using cap_pos [OF Cons.prems(1)] Cons.prems(2) by (auto simp: m_def)
  from Cons.prems(3) obtain u t where 1: "step x m s = Inr (u, t)"
    and 2: "spreadT cap step xs (r - m) t = Inr (r', s')" by (auto simp: Let_def m_def)
  from step_ok [OF Cons.prems(1) m(1,2) 1] have t: "P xs t" "amt t = amt s + m" by auto
  with Cons.IH [OF t(1) _ 2] m show ?case by auto
qed auto

end

end
