(* ===== verification/CashLots.thy ===== *)
theory CashLots
  imports Ledger Allocation
begin

text \<open>
  Source attribution of wallet cash (\<^verbatim>\<open>internal/store/finance.go\<close>, lines 151-365 and 532-668): a lot per
  payment or top-up, holds of funding operations and refunds on lots, and the append-only rows that
  attribute every wallet transaction to lots or to credit.

  \<open>cash_inv\<close> is the invariant: what a lot was created with is what remains in it, plus what operations
  and refunds hold, plus what was debited from it and not restored. Every operation of this theory
  preserves it (\<open>reserveCashLotsTx_inv\<close> and its companions); under it the unchecked \<open>UPDATE\<close> of
  \<open>restoreCashAllocationTx\<close> always finds its row. The lemmas \<open>..._amount\<close> say that the rows written
  for a transaction add up to its amount.
\<close>

section \<open>Statements on the tables\<close>

definition lotChecks :: "CashLot \<Rightarrow> bool" where
  "lotChecks l \<longleftrightarrow> 0 \<le> l_remaining l \<and> l_remaining l \<le> l_original l"

text \<open>\<open>UPDATE wallet_cash_lot SET remaining_amount=remaining_amount-m WHERE id=lid\<close>.\<close>

definition takeFromLot :: "string \<Rightarrow> money \<Rightarrow> unit dbtx" where
  "takeFromLot lid m =
     thenT (checkT (\<lambda>s. list_all (\<lambda>l. l_id l = lid \<longrightarrow> lotChecks (l\<lparr>l_remaining := l_remaining l - m\<rparr>)) (cash_lots s))
              (ErrConstraint ''wallet_cash_lot_remaining_amount_check''))
           (modifyT (\<lambda>s. s\<lparr>cash_lots := update_where (\<lambda>l. l_id l = lid) (\<lambda>l. l\<lparr>l_remaining := l_remaining l - m\<rparr>) (cash_lots s)\<rparr>))"

text \<open>\<open>UPDATE \<dots> SET remaining_amount=remaining_amount+m WHERE id=lid AND wallet_id=wid AND
  remaining_amount+m<=original_amount\<close>; the result is the number of rows affected.\<close>

definition returnsTo :: "string \<Rightarrow> string \<Rightarrow> money \<Rightarrow> CashLot \<Rightarrow> bool" where
  "returnsTo lid wid m l \<longleftrightarrow> l_id l = lid \<and> l_wallet l = wid \<and> l_remaining l + m \<le> l_original l"

definition returnToLot :: "string \<Rightarrow> string \<Rightarrow> money \<Rightarrow> nat dbtx" where
  "returnToLot lid wid m =
     bindT (getT (\<lambda>s. rows_affected (returnsTo lid wid m) (cash_lots s))) (\<lambda>n.
     thenT (modifyT (\<lambda>s. s\<lparr>cash_lots := update_where (returnsTo lid wid m)
                             (\<lambda>l. l\<lparr>l_remaining := l_remaining l + m\<rparr>) (cash_lots s)\<rparr>))
           (returnT n))"

definition insertFundingCash :: "FundingCash \<Rightarrow> unit dbtx" where
  "insertFundingCash f =
     thenT (unlessT (0 < fc_reserved f) (ErrConstraint ''funding_cash_allocation_reserved_amount_check''))
    (thenT (checkT (\<lambda>s. unused (\<lambda>g. fc_id g = fc_id f) (funding_cash s)) (ErrConstraint ''funding_cash_allocation_pkey''))
    (thenT (checkT (\<lambda>s. unused (\<lambda>g. fc_operation g = fc_operation f \<and> fc_lot g = fc_lot f) (funding_cash s))
              (ErrConstraint ''funding_cash_allocation_operation_id_cash_lot_id_key''))
    (thenT (checkT (\<lambda>s. list_ex (\<lambda>l. l_id l = fc_lot f) (cash_lots s)) (ErrConstraint ''funding_cash_allocation_cash_lot_id_fkey''))
           (modifyT (\<lambda>s. s\<lparr>funding_cash := funding_cash s @ [f]\<rparr>)))))"

text \<open>The row \<open>CHECK\<close> and the protecting trigger of \<open>funding_cash_allocation\<close>.\<close>

definition holdUpdateAllowed :: "money \<Rightarrow> money \<Rightarrow> money \<Rightarrow> int option \<Rightarrow> money \<Rightarrow> money \<Rightarrow> int option \<Rightarrow> bool" where
  "holdUpdateAllowed reserved consumed0 released0 settled0 consumed released settled \<longleftrightarrow>
     0 \<le> consumed \<and> 0 \<le> released \<and> consumed0 \<le> consumed \<and> released0 \<le> released \<and>
     consumed + released \<le> reserved \<and>
     (consumed + released = reserved \<or> consumed + released = 0) \<and>
     (settled = settled0 \<or> settled0 = None \<and> settled \<noteq> None)"

definition settleFundingCash :: "string \<Rightarrow> money \<Rightarrow> money \<Rightarrow> unit dbtx" where
  "settleFundingCash fid consumed released =
     thenT (checkT (\<lambda>s. list_all (\<lambda>f. fc_id f = fid \<longrightarrow> holdUpdateAllowed (fc_reserved f) (fc_consumed f) (fc_released f)
                            (fc_settled f) consumed released (Some (clk s))) (funding_cash s))
              (ErrConstraint ''funding_cash_allocation_protect_trigger''))
           (modifyT (\<lambda>s. s\<lparr>funding_cash := update_where (\<lambda>f. fc_id f = fid)
              (\<lambda>f. f\<lparr>fc_consumed := consumed, fc_released := released, fc_settled := Some (clk s)\<rparr>) (funding_cash s)\<rparr>))"

definition insertRefundCash :: "RefundCash \<Rightarrow> unit dbtx" where
  "insertRefundCash f =
     thenT (unlessT (0 < rc_reserved f) (ErrConstraint ''refund_cash_allocation_reserved_amount_check''))
    (thenT (checkT (\<lambda>s. unused (\<lambda>g. rc_id g = rc_id f) (refund_cash s)) (ErrConstraint ''refund_cash_allocation_pkey''))
    (thenT (checkT (\<lambda>s. unused (\<lambda>g. rc_refund g = rc_refund f) (refund_cash s)) (ErrConstraint ''refund_cash_allocation_refund_order_id_key''))
    (thenT (checkT (\<lambda>s. list_ex (\<lambda>l. l_id l = rc_lot f) (cash_lots s)) (ErrConstraint ''refund_cash_allocation_cash_lot_id_fkey''))
           (modifyT (\<lambda>s. s\<lparr>refund_cash := refund_cash s @ [f]\<rparr>)))))"

definition settleRefundCash :: "string \<Rightarrow> money \<Rightarrow> money \<Rightarrow> unit dbtx" where
  "settleRefundCash rid consumed released =
     thenT (checkT (\<lambda>s. list_all (\<lambda>f. rc_id f = rid \<longrightarrow> holdUpdateAllowed (rc_reserved f) (rc_consumed f) (rc_released f)
                            (rc_settled f) consumed released (Some (clk s))) (refund_cash s))
              (ErrConstraint ''refund_cash_allocation_protect_trigger''))
           (modifyT (\<lambda>s. s\<lparr>refund_cash := update_where (\<lambda>f. rc_id f = rid)
              (\<lambda>f. f\<lparr>rc_consumed := consumed, rc_released := released, rc_settled := Some (clk s)\<rparr>) (refund_cash s)\<rparr>))"

definition insertCashAllocation :: "CashAllocation \<Rightarrow> unit dbtx" where
  "insertCashAllocation a =
     thenT (numericT (ca_amount a))
    (thenT (unlessT (0 < ca_amount a) (ErrConstraint ''wallet_cash_allocation_amount_check''))
    (thenT (unlessT ((ca_bucket a = CASH_BUCKET) = (ca_lot a \<noteq> None) \<and> (ca_direction a = RESTORE_ALLOC) = (ca_source a \<noteq> None))
              (ErrConstraint ''wallet_cash_allocation_check''))
    (thenT (checkT (\<lambda>s. unused (\<lambda>b. ca_id b = ca_id a) (cash_allocations s)) (ErrConstraint ''wallet_cash_allocation_pkey''))
    (thenT (checkT (\<lambda>s. ca_source a = None \<or> unused (\<lambda>b. ca_source b = ca_source a \<and> ca_tx b = ca_tx a) (cash_allocations s))
              (ErrConstraint ''wallet_cash_allocation_source_allocation_id_wallet_transact_key''))
    (thenT (checkT (\<lambda>s. ca_lot a = None \<or> unused (\<lambda>b. ca_tx b = ca_tx a \<and> ca_lot b = ca_lot a \<and>
                         ca_bucket b = ca_bucket a \<and> ca_direction b = ca_direction a) (cash_allocations s))
              (ErrConstraint ''wallet_cash_allocation_wallet_transaction_id_cash_lot_id_bu_key''))
    (thenT (checkT (\<lambda>s. list_ex (\<lambda>t. t_id t = ca_tx a) (wallet_transactions s))
              (ErrConstraint ''wallet_cash_allocation_wallet_transaction_id_fkey''))
    (thenT (checkT (\<lambda>s. ca_lot a = None \<or> list_ex (\<lambda>l. Some (l_id l) = ca_lot a) (cash_lots s))
              (ErrConstraint ''wallet_cash_allocation_cash_lot_id_fkey''))
    (thenT (checkT (\<lambda>s. ca_source a = None \<or> list_ex (\<lambda>b. Some (ca_id b) = ca_source a) (cash_allocations s))
              (ErrConstraint ''wallet_cash_allocation_source_allocation_id_fkey''))
           (modifyT (\<lambda>s. s\<lparr>cash_allocations := cash_allocations s @ [a]\<rparr>))))))))))"

section \<open>Operations\<close>

text \<open>The lots with cash left, first in first out.\<close>

definition openLots :: "string \<Rightarrow> db \<Rightarrow> CashLot list" where
  "openLots wid s = sort_key (\<lambda>l. (l_created l, l_id l)) (filter (\<lambda>l. l_wallet l = wid \<and> 0 < l_remaining l) (cash_lots s))"

definition holdFromLot :: "string \<Rightarrow> CashLot \<Rightarrow> money \<Rightarrow> unit dbtx" where
  "holdFromLot operationID item amount =
     thenT (takeFromLot (l_id item) amount)
    (bindT uuidT (\<lambda>fid. bindT (getT clk) (\<lambda>now.
      insertFundingCash \<lparr>fc_id = fid, fc_operation = operationID, fc_lot = l_id item, fc_reserved = amount,
                         fc_consumed = 0, fc_released = 0, fc_settled = None, fc_created = now\<rparr>)))"

definition reserveCashLotsTx :: "string \<Rightarrow> string \<Rightarrow> money \<Rightarrow> unit dbtx" where
  "reserveCashLotsTx operationID walletID amount =
     (if amount \<le> 0 then returnT ()
      else bindT (getT (openLots walletID)) (\<lambda>lots.
           thenT (greedyT l_remaining (holdFromLot operationID) lots amount) (returnT ())))"

definition debitRow :: "string \<Rightarrow> string \<Rightarrow> string option \<Rightarrow> money \<Rightarrow> unit dbtx" where
  "debitRow walletID transactionID lot amount =
     bindT uuidT (\<lambda>aid. bindT (getT clk) (\<lambda>now.
      insertCashAllocation \<lparr>ca_id = aid, ca_wallet = walletID, ca_tx = transactionID, ca_lot = lot, ca_source = None,
        ca_bucket = (case lot of None \<Rightarrow> CREDIT_BUCKET | Some _ \<Rightarrow> CASH_BUCKET), ca_direction = DEBIT_ALLOC,
        ca_amount = amount, ca_created = now\<rparr>))"

definition debitFromLot :: "string \<Rightarrow> string \<Rightarrow> CashLot \<Rightarrow> money \<Rightarrow> unit dbtx" where
  "debitFromLot walletID transactionID item amount =
     thenT (takeFromLot (l_id item) amount) (debitRow walletID transactionID (Some (l_id item)) amount)"

definition allocateCashDebitTx :: "string \<Rightarrow> string \<Rightarrow> money \<Rightarrow> unit dbtx" where
  "allocateCashDebitTx walletID transactionID amount =
     (if amount \<le> 0 then returnT ()
      else bindT (getT (openLots walletID)) (\<lambda>lots.
           bindT (greedyT l_remaining (debitFromLot walletID transactionID) lots amount) (\<lambda>remaining.
           whenT (0 < remaining) (debitRow walletID transactionID None remaining))))"

definition heldLots :: "string \<Rightarrow> db \<Rightarrow> FundingCash list" where
  "heldLots operationID s = sort_key (\<lambda>f. (fc_created f, fc_id f)) (filter (\<lambda>f. fc_operation f = operationID) (funding_cash s))"

definition settleHold :: "string \<Rightarrow> string \<Rightarrow> FundingCash \<Rightarrow> money \<Rightarrow> unit dbtx" where
  "settleHold walletID transactionID item consumed =
     (let released = fc_reserved item - consumed in
      thenT (whenT (0 < released) (bindT (returnToLot (fc_lot item) walletID released) (\<lambda>n. unlessT (n = 1) ErrFinanceState)))
     (thenT (whenT (0 < consumed) (thenT (unlessT (transactionID \<noteq> []) ErrFinanceState)
                                        (debitRow walletID transactionID (Some (fc_lot item)) consumed)))
            (settleFundingCash (fc_id item) consumed released)))"

definition settleCashLotsTx :: "string \<Rightarrow> string \<Rightarrow> string \<Rightarrow> money \<Rightarrow> unit dbtx" where
  "settleCashLotsTx operationID walletID transactionID actualAmount =
     bindT (getT (heldLots operationID)) (\<lambda>items.
     bindT (spreadT fc_reserved (settleHold walletID transactionID) items actualAmount) (\<lambda>remaining.
       if 0 < remaining then allocateCashDebitTx walletID transactionID remaining else returnT ()))"

text \<open>Chargebacks: what is left of the recharge's own lot, then credit.\<close>

definition rechargeLot :: "string \<Rightarrow> string \<Rightarrow> db \<Rightarrow> CashLot option" where
  "rechargeLot walletID rechargeOrderID s =
     find (\<lambda>l. l_wallet l = walletID \<and> l_recharge l = Some rechargeOrderID) (cash_lots s)"

definition refundableLot :: "string \<Rightarrow> string \<Rightarrow> db \<Rightarrow> CashLot option" where
  "refundableLot walletID rechargeOrderID s =
     find (\<lambda>l. l_wallet l = walletID \<and> l_recharge l = Some rechargeOrderID \<and> l_refundable l) (cash_lots s)"

definition debitRechargeCashLotTx :: "string \<Rightarrow> string \<Rightarrow> string \<Rightarrow> money \<Rightarrow> money dbtx" where
  "debitRechargeCashLotTx walletID rechargeOrderID transactionID amount =
     bindT (getT (rechargeLot walletID rechargeOrderID)) (\<lambda>row. case row of
        None \<Rightarrow> returnT 0
      | Some lot \<Rightarrow> let take = min amount (l_remaining lot) in
          if take \<le> 0 then returnT 0
          else thenT (debitFromLot walletID transactionID lot take) (returnT take))"

definition allocateChargebackTx :: "string \<Rightarrow> string \<Rightarrow> string \<Rightarrow> money \<Rightarrow> (money \<times> money) dbtx" where
  "allocateChargebackTx walletID rechargeOrderID transactionID amount =
     bindT (debitRechargeCashLotTx walletID rechargeOrderID transactionID amount) (\<lambda>cashDebited.
       let creditDebited = amount - cashDebited in
       thenT (whenT (0 < creditDebited) (debitRow walletID transactionID None creditDebited))
             (returnT (cashDebited, creditDebited)))"

definition reserveRefundCashTx :: "string \<Rightarrow> string \<Rightarrow> string \<Rightarrow> money \<Rightarrow> unit dbtx" where
  "reserveRefundCashTx refundOrderID walletID rechargeOrderID amount =
     bindT (rowT ErrRefundNotEligible (refundableLot walletID rechargeOrderID)) (\<lambda>lot.
     thenT (unlessT (amount \<le> l_remaining lot) ErrRefundNotEligible)
    (thenT (takeFromLot (l_id lot) amount)
    (bindT uuidT (\<lambda>rid.
      insertRefundCash \<lparr>rc_id = rid, rc_refund = refundOrderID, rc_lot = l_id lot, rc_reserved = amount,
                        rc_consumed = 0, rc_released = 0, rc_settled = None\<rparr>))))"

definition settleRefundCashTx :: "string \<Rightarrow> string \<Rightarrow> string \<Rightarrow> bool \<Rightarrow> unit dbtx" where
  "settleRefundCashTx refundOrderID walletID transactionID succeeded =
     bindT (rowT ErrFinanceState (\<lambda>s. find (\<lambda>f. rc_refund f = refundOrderID) (refund_cash s))) (\<lambda>row.
       if succeeded then
         thenT (unlessT (transactionID \<noteq> []) ErrFinanceState)
        (thenT (debitRow walletID transactionID (Some (rc_lot row)) (rc_reserved row))
               (settleRefundCash (rc_id row) (rc_reserved row) (rc_released row)))
       else
         bindT (returnToLot (rc_lot row) walletID (rc_reserved row)) (\<lambda>n.
         thenT (unlessT (n = 1) ErrFinanceState)
               (settleRefundCash (rc_id row) (rc_consumed row) (rc_reserved row))))"

text \<open>\<open>INSERT INTO wallet_cash_lot \<dots> ON CONFLICT DO NOTHING\<close>.\<close>

definition lotConflicts :: "CashLot \<Rightarrow> CashLot \<Rightarrow> bool" where
  "lotConflicts l k \<longleftrightarrow> l_id k = l_id l \<or> (l_wallet k = l_wallet l \<and> l_reference k = l_reference l) \<or>
     (l_source_tx l \<noteq> None \<and> l_source_tx k = l_source_tx l) \<or> (l_recharge l \<noteq> None \<and> l_recharge k = l_recharge l)"

definition createCashLotTx ::
  "string \<Rightarrow> string \<Rightarrow> string \<Rightarrow> LotKind \<Rightarrow> string \<Rightarrow> money \<Rightarrow> string \<Rightarrow> bool \<Rightarrow> unit dbtx" where
  "createCashLotTx walletID rechargeOrderID transactionID kind reference amount currency refundable =
     bindT uuidT (\<lambda>lid. bindT (getT clk) (\<lambda>now.
       let l = \<lparr>l_id = lid, l_wallet = walletID, l_recharge = nullString rechargeOrderID, l_source_tx = nullString transactionID,
                l_kind = kind, l_reference = reference, l_original = amount, l_remaining = amount, l_currency = currency,
                l_refundable = refundable, l_created = now\<rparr> in
       thenT (numericT amount)
      (thenT (unlessT (0 < amount) (ErrConstraint ''wallet_cash_lot_original_amount_check''))
             (modifyT (\<lambda>s. if list_ex (lotConflicts l) (cash_lots s) then s else s\<lparr>cash_lots := cash_lots s @ [l]\<rparr>)))))"

text \<open>Reversal: the debit rows of the source transaction, newest first, restored up to the amount.\<close>

definition restored :: "db \<Rightarrow> string \<Rightarrow> money" where
  "restored s aid = column_sum (\<lambda>b. ca_source b = Some aid) ca_amount (cash_allocations s)"

definition outstanding :: "db \<Rightarrow> CashAllocation \<Rightarrow> money" where
  "outstanding s a = ca_amount a - restored s (ca_id a)"

definition restorable :: "string \<Rightarrow> string \<Rightarrow> db \<Rightarrow> (CashAllocation \<times> money) list" where
  "restorable walletID sourceTransactionID s =
     map (\<lambda>a. (a, outstanding s a))
      (rev (sort_key (\<lambda>a. (ca_created a, ca_id a))
        (filter (\<lambda>a. ca_wallet a = walletID \<and> ca_tx a = sourceTransactionID \<and> ca_direction a = DEBIT_ALLOC \<and> 0 < outstanding s a)
           (cash_allocations s))))"

definition restoreStep :: "string \<Rightarrow> string \<Rightarrow> CashAllocation \<times> money \<Rightarrow> money \<Rightarrow> unit dbtx" where
  "restoreStep walletID reversalTransactionID item amount =
     (let row = fst item in
      thenT (whenT (ca_bucket row = CASH_BUCKET) (case ca_lot row of
               None \<Rightarrow> failT ErrFinanceState
             | Some lid \<Rightarrow> bindT (returnToLot lid walletID amount) (\<lambda>_. returnT ())))
     (bindT uuidT (\<lambda>aid. bindT (getT clk) (\<lambda>now.
        insertCashAllocation \<lparr>ca_id = aid, ca_wallet = walletID, ca_tx = reversalTransactionID, ca_lot = ca_lot row,
          ca_source = Some (ca_id row), ca_bucket = ca_bucket row, ca_direction = RESTORE_ALLOC,
          ca_amount = amount, ca_created = now\<rparr>))))"

definition restoreCashAllocationTx :: "string \<Rightarrow> string \<Rightarrow> string \<Rightarrow> money \<Rightarrow> unit dbtx" where
  "restoreCashAllocationTx walletID sourceTransactionID reversalTransactionID amount =
     (if amount \<le> 0 then returnT ()
      else bindT (getT (restorable walletID sourceTransactionID)) (\<lambda>items.
           bindT (greedyT snd (restoreStep walletID reversalTransactionID) items amount) (\<lambda>remaining.
           unlessT (remaining \<le> 0) ErrFinanceState)))"

section \<open>The invariant\<close>

definition lotHeld :: "db \<Rightarrow> string \<Rightarrow> money" where
  "lotHeld s lid =
     column_sum (\<lambda>f. fc_lot f = lid) (\<lambda>f. fc_reserved f - fc_consumed f - fc_released f) (funding_cash s) +
     column_sum (\<lambda>f. rc_lot f = lid) (\<lambda>f. rc_reserved f - rc_consumed f - rc_released f) (refund_cash s)"

definition lotSpent :: "db \<Rightarrow> string \<Rightarrow> money" where
  "lotSpent s lid = column_sum (\<lambda>a. ca_direction a = DEBIT_ALLOC \<and> ca_lot a = Some lid) (outstanding s) (cash_allocations s)"

definition lot_sound :: "db \<Rightarrow> CashLot \<Rightarrow> bool" where
  "lot_sound s l \<longleftrightarrow> 0 \<le> l_remaining l \<and> l_original l = l_remaining l + lotHeld s (l_id l) + lotSpent s (l_id l)"

definition lotOwners :: "db \<Rightarrow> (string \<times> string) set" where
  "lotOwners s = (\<lambda>l. (l_id l, l_wallet l)) ` set (cash_lots s)"

text \<open>The attribution rows: unique identifiers, restore rows refer to rows, the lots are the wallet's own,
  no debit is over-restored.\<close>

definition alloc_ok :: "db \<Rightarrow> bool" where
  "alloc_ok s \<longleftrightarrow> distinct (map ca_id (cash_allocations s)) \<and>
     (\<forall>a \<in> set (cash_allocations s). \<forall>d. ca_source a = Some d \<longrightarrow> d \<in> ca_id ` set (cash_allocations s)) \<and>
     (\<forall>a \<in> set (cash_allocations s). \<forall>l. ca_lot a = Some l \<longrightarrow> (l, ca_wallet a) \<in> lotOwners s) \<and>
     (\<forall>a \<in> set (cash_allocations s). (ca_bucket a = CASH_BUCKET) = (ca_lot a \<noteq> None)) \<and>
     (\<forall>a \<in> set (cash_allocations s). ca_direction a = DEBIT_ALLOC \<longrightarrow> 0 \<le> outstanding s a)"

text \<open>The holds: unique identifiers, on existing lots, not settled beyond what they reserved.\<close>

definition holds_ok :: "db \<Rightarrow> bool" where
  "holds_ok s \<longleftrightarrow> distinct (map fc_id (funding_cash s)) \<and> distinct (map rc_id (refund_cash s)) \<and>
     (\<forall>f \<in> set (funding_cash s). fc_lot f \<in> l_id ` set (cash_lots s) \<and> 0 < fc_reserved f \<and>
        0 \<le> fc_reserved f - fc_consumed f - fc_released f) \<and>
     (\<forall>f \<in> set (refund_cash s). rc_lot f \<in> l_id ` set (cash_lots s) \<and> 0 < rc_reserved f \<and>
        0 \<le> rc_reserved f - rc_consumed f - rc_released f)"

definition cash_inv :: "db \<Rightarrow> bool" where
  "cash_inv s \<longleftrightarrow> distinct (map l_id (cash_lots s)) \<and> alloc_ok s \<and> holds_ok s \<and> (\<forall>l \<in> set (cash_lots s). lot_sound s l)"

text \<open>What the transaction's rows attribute to lots and credit.\<close>

definition attributed :: "string \<Rightarrow> db \<Rightarrow> money" where
  "attributed txid s = column_sum (\<lambda>a. ca_tx a = txid) (\<lambda>a. ca_amount a) (cash_allocations s)"

section \<open>Effects of the statements\<close>

lemma takeFromLot_Inr:
  "takeFromLot lid m s = Inr (u, s') \<Longrightarrow>
   s' = s\<lparr>cash_lots := update_where (\<lambda>l. l_id l = lid) (\<lambda>l. l\<lparr>l_remaining := l_remaining l - m\<rparr>) (cash_lots s)\<rparr> \<and>
   (\<forall>l \<in> set (cash_lots s). l_id l = lid \<longrightarrow> m \<le> l_remaining l)"
  by (auto simp: takeFromLot_def lotChecks_def list_all_iff)

lemma returnToLot_Inr:
  "returnToLot lid wid m s = Inr (n, s') \<longleftrightarrow>
   n = rows_affected (returnsTo lid wid m) (cash_lots s) \<and>
   s' = s\<lparr>cash_lots := update_where (returnsTo lid wid m) (\<lambda>l. l\<lparr>l_remaining := l_remaining l + m\<rparr>) (cash_lots s)\<rparr>"
  by (auto simp: returnToLot_def bindT_def thenT_def modifyT_def returnT_def getT_def)

lemma insertFundingCash_Inr:
  "insertFundingCash f s = Inr (u, s') \<Longrightarrow>
   s' = s\<lparr>funding_cash := funding_cash s @ [f]\<rparr> \<and> 0 < fc_reserved f \<and> fc_id f \<notin> fc_id ` set (funding_cash s) \<and>
   fc_lot f \<in> l_id ` set (cash_lots s)"
  by (auto simp: insertFundingCash_def unused_iff list_ex_iff) (metis imageI)

lemma insertRefundCash_Inr:
  "insertRefundCash f s = Inr (u, s') \<Longrightarrow>
   s' = s\<lparr>refund_cash := refund_cash s @ [f]\<rparr> \<and> 0 < rc_reserved f \<and> rc_id f \<notin> rc_id ` set (refund_cash s) \<and>
   rc_lot f \<in> l_id ` set (cash_lots s) \<and> rc_refund f \<notin> rc_refund ` set (refund_cash s)"
  by (auto simp: insertRefundCash_def unused_iff list_ex_iff) (metis imageI)

lemma insertCashAllocation_Inr:
  "insertCashAllocation a s = Inr (u, s') \<Longrightarrow>
   s' = s\<lparr>cash_allocations := cash_allocations s @ [a]\<rparr> \<and> 0 < ca_amount a \<and>
   ca_id a \<notin> ca_id ` set (cash_allocations s) \<and> (ca_bucket a = CASH_BUCKET) = (ca_lot a \<noteq> None) \<and>
   (\<forall>l. ca_lot a = Some l \<longrightarrow> l \<in> l_id ` set (cash_lots s)) \<and>
   (\<forall>d. ca_source a = Some d \<longrightarrow> d \<in> ca_id ` set (cash_allocations s))"
  by (auto simp: insertCashAllocation_def unused_iff list_ex_iff intro: rev_image_eqI)

lemma settleFundingCash_Inr:
  "settleFundingCash fid c r s = Inr (u, s') \<Longrightarrow>
   s' = s\<lparr>funding_cash := update_where (\<lambda>f. fc_id f = fid)
              (\<lambda>f. f\<lparr>fc_consumed := c, fc_released := r, fc_settled := Some (clk s)\<rparr>) (funding_cash s)\<rparr>"
  by (auto simp: settleFundingCash_def)

lemma settleRefundCash_Inr:
  "settleRefundCash fid c r s = Inr (u, s') \<Longrightarrow>
   s' = s\<lparr>refund_cash := update_where (\<lambda>f. rc_id f = fid)
              (\<lambda>f. f\<lparr>rc_consumed := c, rc_released := r, rc_settled := Some (clk s)\<rparr>) (refund_cash s)\<rparr>"
  by (auto simp: settleRefundCash_def)

lemma debitRow_Inr:
  assumes "debitRow w tx lot m s = Inr (u, s')"
  obtains a n where "s' = s\<lparr>rng_pos := n, cash_allocations := cash_allocations s @ [a]\<rparr>"
    "ca_lot a = lot" "ca_source a = None" "ca_direction a = DEBIT_ALLOC" "ca_amount a = m" "ca_tx a = tx" "0 < m" "ca_wallet a = w" "(ca_bucket a = CASH_BUCKET) = (ca_lot a \<noteq> None)"
    "ca_id a \<notin> ca_id ` set (cash_allocations s)" "\<forall>l. lot = Some l \<longrightarrow> l \<in> l_id ` set (cash_lots s)"
proof -
  let ?a = "\<lparr>ca_id = rng s (rng_pos s), ca_wallet = w, ca_tx = tx, ca_lot = lot, ca_source = None,
        ca_bucket = (case lot of None \<Rightarrow> CREDIT_BUCKET | Some _ \<Rightarrow> CASH_BUCKET), ca_direction = DEBIT_ALLOC,
        ca_amount = m, ca_created = clk s\<rparr>"
  from assms have "insertCashAllocation ?a (s\<lparr>rng_pos := Suc (rng_pos s)\<rparr>) = Inr (u, s')"
    unfolding debitRow_def by (auto simp: uuidT_Inr)
  from insertCashAllocation_Inr [OF this] show thesis by (intro that [of ?a "Suc (rng_pos s)"]) auto
qed

section \<open>Sums under the statements\<close>

lemma column_sum_change_key:
  assumes "distinct (map key t)" "r \<in> set t" "key r = k" "\<And>x. x \<in> set t \<Longrightarrow> g x = f x - (if key x = k then v else 0)"
  shows "column_sum p g t = column_sum p f t - (if p r then v else 0)"
  using assms
proof (induction t)
  case (Cons a t)
  show ?case
  proof (cases "key a = k")
    case True
    with Cons.prems have "a = r" by (auto simp: image_iff)
    moreover have "\<forall>x \<in> set t. key x \<noteq> k" using Cons.prems(1) True by (force simp: image_iff)
    then have "column_sum p g t = column_sum p f t" using Cons.prems(4) by (intro column_sum_cong) auto
    ultimately show ?thesis using True Cons.prems(4) [of a] by auto
  next
    case False
    then have "r \<in> set t" using Cons.prems(2,3) by auto
    then show ?thesis using Cons False by auto
  qed
qed simp

text \<open>A debit row with a fresh identifier, and a restore row.\<close>

lemma append_debit:
  assumes "alloc_ok s" "cash_allocations s' = cash_allocations s @ [a]" "lotOwners s' = lotOwners s"
    and a: "ca_source a = None" "ca_direction a = DEBIT_ALLOC" "ca_id a \<notin> ca_id ` set (cash_allocations s)"
    "0 < ca_amount a" "\<forall>l. ca_lot a = Some l \<longrightarrow> (l, ca_wallet a) \<in> lotOwners s" "(ca_bucket a = CASH_BUCKET) = (ca_lot a \<noteq> None)"
  shows "alloc_ok s'"
    "lotSpent s' lid = lotSpent s lid + (if ca_lot a = Some lid then ca_amount a else 0)"
    "attributed (ca_tx a) s' = attributed (ca_tx a) s + ca_amount a"
proof -
  have o1: "outstanding s' = outstanding s" using assms(2) a(1) by (auto simp: restored_def outstanding_def fun_eq_iff)
  have "restored s (ca_id a) = 0"
    unfolding restored_def using assms(1) a(3) by (intro column_sum_zero) (auto simp: alloc_ok_def)
  then have o2: "outstanding s a = ca_amount a" by (simp add: outstanding_def)
  show "lotSpent s' lid = lotSpent s lid + (if ca_lot a = Some lid then ca_amount a else 0)"
    unfolding lotSpent_def o1 using assms(2) a(2) o2 by simp
  show "alloc_ok s'"
    using assms(1) a unfolding alloc_ok_def assms(2,3) o1 by (auto simp: o2)
  show "attributed (ca_tx a) s' = attributed (ca_tx a) s + ca_amount a"
    using assms(2) by (simp add: attributed_def)
qed

lemma append_restore:
  assumes "alloc_ok s" "cash_allocations s' = cash_allocations s @ [a]" "lotOwners s' = lotOwners s"
    and a: "ca_direction a = RESTORE_ALLOC" "ca_source a = Some (ca_id d)" "ca_lot a = ca_lot d" "ca_wallet a = ca_wallet d" "ca_bucket a = ca_bucket d"
    "ca_id a \<notin> ca_id ` set (cash_allocations s)" "ca_amount a \<le> outstanding s d"
    and d: "d \<in> set (cash_allocations s)" "ca_direction d = DEBIT_ALLOC"
  shows "alloc_ok s'"
    "\<And>b. outstanding s' b = outstanding s b - (if ca_id b = ca_id d then ca_amount a else 0)"
    "lotSpent s' lid = lotSpent s lid - (if ca_lot d = Some lid then ca_amount a else 0)"
proof -
  show o: "outstanding s' b = outstanding s b - (if ca_id b = ca_id d then ca_amount a else 0)" for b
    using assms(2) a(2) by (auto simp: restored_def outstanding_def)
  have dist: "distinct (map ca_id (cash_allocations s))" using assms(1) by (simp add: alloc_ok_def)
  show "lotSpent s' lid = lotSpent s lid - (if ca_lot d = Some lid then ca_amount a else 0)"
    unfolding lotSpent_def using assms(2) a(1) d(2)
      column_sum_change_key [OF dist d(1) refl, of "outstanding s'" "outstanding s" "ca_amount a"
        "\<lambda>a. ca_direction a = DEBIT_ALLOC \<and> ca_lot a = Some lid"] o by simp
  have "0 \<le> outstanding s' b" if "b \<in> set (cash_allocations s)" "ca_direction b = DEBIT_ALLOC" for b
    using o [of b] distinct_key_eq [OF dist that(1) d(1)] a(7) assms(1) that by (auto simp: alloc_ok_def)
  then show "alloc_ok s'"
    using assms(1) a d unfolding alloc_ok_def assms(2,3) by auto
qed

text \<open>The invariant reads only the four tables.\<close>

lemma outstanding_cong: "cash_allocations s' = cash_allocations s \<Longrightarrow> outstanding s' = outstanding s"
  by (simp add: outstanding_def restored_def fun_eq_iff)

lemma alloc_same:
  assumes "cash_allocations s' = cash_allocations s" "lotOwners s' = lotOwners s"
  shows "alloc_ok s' = alloc_ok s" "lotSpent s' = lotSpent s"
  using outstanding_cong [OF assms(1)] assms by (simp_all add: alloc_ok_def lotSpent_def [abs_def])

lemma cash_inv_cong:
  assumes "cash_lots s' = cash_lots s" "cash_allocations s' = cash_allocations s" "funding_cash s' = funding_cash s"
    "refund_cash s' = refund_cash s"
  shows "cash_inv s' = cash_inv s"
proof -
  have "lot_sound s' l = lot_sound s l" for l
    using assms alloc_same [OF assms(2)] by (simp add: lot_sound_def lotHeld_def lotOwners_def)
  then show ?thesis using assms alloc_same [OF assms(2)] lotOwners_def unfolding cash_inv_def holds_ok_def by simp
qed

text \<open>A step on one lot: the amount taken out of it (or put back, when negative) is the change of what
  is held and spent.\<close>

lemma lot_step:
  assumes "cash_inv s" "alloc_ok s'" "holds_ok s'" "\<forall>l \<in> set (cash_lots s). l_id l = lid \<longrightarrow> m \<le> l_remaining l"
    and "cash_lots s' = update_where (\<lambda>l. l_id l = lid) (\<lambda>l. l\<lparr>l_remaining := l_remaining l - m\<rparr>) (cash_lots s)"
    and "\<And>x. lotHeld s' x + lotSpent s' x = lotHeld s x + lotSpent s x + (if x = lid then m else 0)"
  shows "cash_inv s'"
proof -
  have "lot_sound s' l'" if "l' \<in> set (cash_lots s')" for l'
  proof -
    from that assms(5) obtain l where l: "l \<in> set (cash_lots s)" and
      l': "l' = (if l_id l = lid then l\<lparr>l_remaining := l_remaining l - m\<rparr> else l)" by (auto simp: in_update_where)
    show "lot_sound s' l'"
      using assms(1,4) l l' assms(6) [of "l_id l"] by (auto simp: cash_inv_def lot_sound_def split: if_splits)
  qed
  then show ?thesis using assms(1-3) by (simp add: cash_inv_def assms(5) map_update_where)
qed

lemma lotOwners_update [simp]:
  "cash_lots s' = update_where p (\<lambda>l. l\<lparr>l_remaining := g l\<rparr>) (cash_lots s) \<Longrightarrow> lotOwners s' = lotOwners s"
  by (simp add: lotOwners_def image_update_where)

lemma lot_ids_update [simp]:
  "l_id ` set (update_where p (\<lambda>l. l\<lparr>l_remaining := g l\<rparr>) ls) = l_id ` set ls"
  by (simp add: image_update_where)

lemma holdFromLot_Inr:
  assumes "holdFromLot op item m s = Inr (u, s')"
  obtains f n where "s' = s\<lparr>rng_pos := n,
      cash_lots := update_where (\<lambda>l. l_id l = l_id item) (\<lambda>l. l\<lparr>l_remaining := l_remaining l - m\<rparr>) (cash_lots s),
      funding_cash := funding_cash s @ [f]\<rparr>"
    "fc_operation f = op" "fc_lot f = l_id item" "fc_reserved f = m" "fc_consumed f = 0" "fc_released f = 0" "0 < m"
    "fc_id f \<notin> fc_id ` set (funding_cash s)" "l_id item \<in> l_id ` set (cash_lots s)"
    "\<forall>l \<in> set (cash_lots s). l_id l = l_id item \<longrightarrow> m \<le> l_remaining l"
proof -
  let ?f = "\<lparr>fc_id = rng s (rng_pos s), fc_operation = op, fc_lot = l_id item, fc_reserved = m,
                         fc_consumed = 0, fc_released = 0, fc_settled = None, fc_created = clk s\<rparr>"
  from assms obtain v t where t: "takeFromLot (l_id item) m s = Inr (v, t)"
    and i: "insertFundingCash \<lparr>fc_id = rng t (rng_pos t), fc_operation = op, fc_lot = l_id item, fc_reserved = m,
                         fc_consumed = 0, fc_released = 0, fc_settled = None, fc_created = clk t\<rparr>
                 (t\<lparr>rng_pos := Suc (rng_pos t)\<rparr>) = Inr (u, s')"
    unfolding holdFromLot_def by (auto simp: uuidT_Inr)
  from takeFromLot_Inr [OF t] have t': "t = s\<lparr>cash_lots := update_where (\<lambda>l. l_id l = l_id item)
      (\<lambda>l. l\<lparr>l_remaining := l_remaining l - m\<rparr>) (cash_lots s)\<rparr>" by simp
  have ids: "l_id ` set (cash_lots t) = l_id ` set (cash_lots s)"
    unfolding t' by (simp add: image_update_where)
  show thesis
    by (rule that [of ?f "Suc (rng_pos s)"])
       (use insertFundingCash_Inr [OF i] takeFromLot_Inr [OF t] ids in \<open>auto simp: t'\<close>)
qed

lemma holdFromLot_inv:
  assumes "cash_inv s" "holdFromLot op item m s = Inr (u, s')"
  shows "cash_inv s'"
proof -
  from assms(2) obtain f n where s': "s' = s\<lparr>rng_pos := n,
      cash_lots := update_where (\<lambda>l. l_id l = l_id item) (\<lambda>l. l\<lparr>l_remaining := l_remaining l - m\<rparr>) (cash_lots s),
      funding_cash := funding_cash s @ [f]\<rparr>"
    and f: "fc_lot f = l_id item" "fc_reserved f = m" "fc_consumed f = 0" "fc_released f = 0" "0 < m"
    "fc_id f \<notin> fc_id ` set (funding_cash s)" "l_id item \<in> l_id ` set (cash_lots s)"
    and le: "\<forall>l \<in> set (cash_lots s). l_id l = l_id item \<longrightarrow> m \<le> l_remaining l"
    by (rule holdFromLot_Inr)
  have al: "alloc_ok s' = alloc_ok s" "lotSpent s' = lotSpent s" using alloc_same [of s' s] lotOwners_update [of s' _ _ s] unfolding s' by simp_all
  show ?thesis
  proof (rule lot_step [OF assms(1) _ _ le])
    show "alloc_ok s'" using assms(1) al by (simp add: cash_inv_def)
    show "holds_ok s'" using assms(1) f unfolding s' holds_ok_def cash_inv_def by simp
    show "lotHeld s' x + lotSpent s' x = lotHeld s x + lotSpent s x + (if x = l_id item then m else 0)" for x
      unfolding al using f by (simp add: lotHeld_def s')
  qed (simp add: s')
qed

lemma debitFromLot_Inr:
  assumes "debitFromLot w tx item m s = Inr (u, s')"
  obtains a n where "s' = s\<lparr>rng_pos := n,
      cash_lots := update_where (\<lambda>l. l_id l = l_id item) (\<lambda>l. l\<lparr>l_remaining := l_remaining l - m\<rparr>) (cash_lots s),
      cash_allocations := cash_allocations s @ [a]\<rparr>"
    "ca_lot a = Some (l_id item)" "ca_source a = None" "ca_direction a = DEBIT_ALLOC" "ca_amount a = m" "ca_tx a = tx" "ca_wallet a = w" "(ca_bucket a = CASH_BUCKET) = (ca_lot a \<noteq> None)" "0 < m"
    "ca_id a \<notin> ca_id ` set (cash_allocations s)" "l_id item \<in> l_id ` set (cash_lots s)"
    "\<forall>l \<in> set (cash_lots s). l_id l = l_id item \<longrightarrow> m \<le> l_remaining l"
proof -
  from assms obtain v t where t: "takeFromLot (l_id item) m s = Inr (v, t)"
    and i: "debitRow w tx (Some (l_id item)) m t = Inr (u, s')"
    unfolding debitFromLot_def by auto
  from takeFromLot_Inr [OF t] have t': "t = s\<lparr>cash_lots := update_where (\<lambda>l. l_id l = l_id item)
      (\<lambda>l. l\<lparr>l_remaining := l_remaining l - m\<rparr>) (cash_lots s)\<rparr>" by simp
  from i obtain a n where a: "s' = t\<lparr>rng_pos := n, cash_allocations := cash_allocations t @ [a]\<rparr>"
    "ca_lot a = Some (l_id item)" "ca_source a = None" "ca_direction a = DEBIT_ALLOC" "ca_amount a = m" "ca_tx a = tx" "0 < m" "ca_wallet a = w" "(ca_bucket a = CASH_BUCKET) = (ca_lot a \<noteq> None)"
    "ca_id a \<notin> ca_id ` set (cash_allocations t)" "\<forall>l. Some (l_id item) = Some l \<longrightarrow> l \<in> l_id ` set (cash_lots t)"
    by (rule debitRow_Inr)
  show thesis
    by (rule that [of a n]) (use a takeFromLot_Inr [OF t] in \<open>auto simp: t' image_update_where\<close>)
qed

lemma debitFromLot_inv:
  assumes "cash_inv s" "debitFromLot w tx item m s = Inr (u, s')" "(l_id item, w) \<in> lotOwners s"
  shows "cash_inv s'" "attributed tx s' = attributed tx s + m"
proof -
  from assms(2) obtain a n where s': "s' = s\<lparr>rng_pos := n,
      cash_lots := update_where (\<lambda>l. l_id l = l_id item) (\<lambda>l. l\<lparr>l_remaining := l_remaining l - m\<rparr>) (cash_lots s),
      cash_allocations := cash_allocations s @ [a]\<rparr>"
    and a: "ca_lot a = Some (l_id item)" "ca_source a = None" "ca_direction a = DEBIT_ALLOC" "ca_amount a = m" "ca_tx a = tx" "ca_wallet a = w" "(ca_bucket a = CASH_BUCKET) = (ca_lot a \<noteq> None)" "0 < m"
    "ca_id a \<notin> ca_id ` set (cash_allocations s)" "l_id item \<in> l_id ` set (cash_lots s)"
    and le: "\<forall>l \<in> set (cash_lots s). l_id l = l_id item \<longrightarrow> m \<le> l_remaining l"
    by (rule debitFromLot_Inr)
  have ad: "alloc_ok s'" "\<And>x. lotSpent s' x = lotSpent s x + (if x = l_id item then m else 0)"
    "attributed tx s' = attributed tx s + m"
    using append_debit [of s s' a] assms(1,3) a lotOwners_update [of s' _ _ s] unfolding s' by (simp_all add: cash_inv_def)
  show "cash_inv s'"
  proof (rule lot_step [OF assms(1) ad(1) _ le])
    show "holds_ok s'" using assms(1) unfolding s' holds_ok_def cash_inv_def by simp
    show "lotHeld s' x + lotSpent s' x = lotHeld s x + lotSpent s x + (if x = l_id item then m else 0)" for x
      using ad(2) [of x] by (simp add: lotHeld_def [of s'] lotHeld_def [of s]) (simp add: s')
  qed (simp add: s')
  show "attributed tx s' = attributed tx s + m" by (rule ad(3))
qed

lemma lot_step_none:
  assumes "cash_inv s" "alloc_ok s'" "holds_ok s'" "cash_lots s' = cash_lots s"
    and "\<And>x. lotHeld s' x + lotSpent s' x = lotHeld s x + lotSpent s x"
  shows "cash_inv s'"
  using assms unfolding cash_inv_def lot_sound_def by (auto simp: add.assoc)

lemma creditRow_inv:
  assumes "cash_inv s" "debitRow w tx None m s = Inr (u, s')"
  shows "cash_inv s'" "attributed tx s' = attributed tx s + m"
proof -
  from assms(2) obtain a n where s': "s' = s\<lparr>rng_pos := n, cash_allocations := cash_allocations s @ [a]\<rparr>"
    and a: "ca_lot a = None" "ca_source a = None" "ca_direction a = DEBIT_ALLOC" "ca_amount a = m" "ca_tx a = tx" "0 < m"
    "ca_id a \<notin> ca_id ` set (cash_allocations s)" "(ca_bucket a = CASH_BUCKET) = (ca_lot a \<noteq> None)" by (rule debitRow_Inr)
  have ad: "alloc_ok s'" "\<And>x. lotSpent s' x = lotSpent s x" "attributed tx s' = attributed tx s + m"
    using append_debit [of s s' a] assms(1) a unfolding s' by (simp_all add: cash_inv_def lotOwners_def)
  show "cash_inv s'"
    by (rule lot_step_none [OF assms(1) ad(1)])
       (use assms(1) ad(2) in \<open>simp_all add: s' holds_ok_def cash_inv_def lotHeld_def\<close>)
  show "attributed tx s' = attributed tx s + m" by (rule ad(3))
qed

text \<open>When the conditional \<open>UPDATE\<close> hits a row, it is the lot with that identifier.\<close>

lemma returnsTo_hits:
  assumes "distinct (map l_id ls)" "\<exists>l \<in> set ls. returnsTo lid w m l"
  shows "update_where (returnsTo lid w m) (\<lambda>l. l\<lparr>l_remaining := l_remaining l + m\<rparr>) ls =
         update_where (\<lambda>l. l_id l = lid) (\<lambda>l. l\<lparr>l_remaining := l_remaining l - (- m)\<rparr>) ls"
proof -
  from assms(2) obtain l where l: "l \<in> set ls" "returnsTo lid w m l" by blast
  have "returnsTo lid w m k \<longleftrightarrow> l_id k = lid" if "k \<in> set ls" for k
    using l distinct_key_eq [OF assms(1) that l(1)] unfolding returnsTo_def by metis
  then show ?thesis unfolding update_where_def by (intro map_cong) simp_all
qed

lemma rows_affected_hit: "rows_affected p t = 1 \<Longrightarrow> \<exists>r \<in> set t. p r"
  using rows_affected_pos [of p t] by simp

definition unsettled :: "FundingCash \<Rightarrow> bool" where
  "unsettled f \<longleftrightarrow> fc_consumed f = 0 \<and> fc_released f = 0"

lemma settleHold_Inr:
  assumes "settleHold w tx item c s = Inr (u, s')" "cash_inv s" "0 \<le> c" "c \<le> fc_reserved item" "item \<in> set (funding_cash s)"
  obtains n as where
    "s' = s\<lparr>rng_pos := n,
        cash_lots := update_where (\<lambda>l. l_id l = fc_lot item) (\<lambda>l. l\<lparr>l_remaining := l_remaining l - (- (fc_reserved item - c))\<rparr>) (cash_lots s),
        cash_allocations := cash_allocations s @ as,
        funding_cash := update_where (\<lambda>f. fc_id f = fc_id item)
          (\<lambda>f. f\<lparr>fc_consumed := c, fc_released := fc_reserved item - c, fc_settled := Some (clk s)\<rparr>) (funding_cash s)\<rparr>"
    "c = 0 \<longrightarrow> as = []"
    "0 < c \<longrightarrow> (\<exists>a. as = [a] \<and> ca_lot a = Some (fc_lot item) \<and> ca_source a = None \<and> ca_direction a = DEBIT_ALLOC \<and>
       ca_amount a = c \<and> ca_tx a = tx \<and> ca_wallet a = w \<and> ((ca_bucket a = CASH_BUCKET) = (ca_lot a \<noteq> None)) \<and> ca_id a \<notin> ca_id ` set (cash_allocations s))"
proof -
  define r where "r = fc_reserved item - c"
  from assms(1) obtain v1 v2 s1 s2 where
    1: "whenT (0 < r) (bindT (returnToLot (fc_lot item) w r) (\<lambda>n. unlessT (n = 1) ErrFinanceState)) s = Inr (v1, s1)"
    and 2: "whenT (0 < c) (thenT (unlessT (tx \<noteq> []) ErrFinanceState) (debitRow w tx (Some (fc_lot item)) c)) s1 = Inr (v2, s2)"
    and 3: "settleFundingCash (fc_id item) c r s2 = Inr (u, s')"
    unfolding settleHold_def Let_def r_def by auto
  have s1: "s1 = s\<lparr>cash_lots := update_where (\<lambda>l. l_id l = fc_lot item) (\<lambda>l. l\<lparr>l_remaining := l_remaining l - (- r)\<rparr>) (cash_lots s)\<rparr>"
  proof (cases "0 < r")
    case True
    with 1 have n: "rows_affected (returnsTo (fc_lot item) w r) (cash_lots s) = 1"
      and s1: "s1 = s\<lparr>cash_lots := update_where (returnsTo (fc_lot item) w r) (\<lambda>l. l\<lparr>l_remaining := l_remaining l + r\<rparr>) (cash_lots s)\<rparr>"
      by (auto simp: whenT_Inr returnToLot_Inr)
    show ?thesis unfolding s1 using returnsTo_hits [OF _ rows_affected_hit [OF n]] assms(2) by (simp add: cash_inv_def)
  next
    case False
    then have "r = 0" using assms(4) by (simp add: r_def)
    then show ?thesis using 1 by (simp add: whenT_Inr update_where_def)
  qed
  show thesis
  proof (cases "0 < c")
    case True
    with 2 have "debitRow w tx (Some (fc_lot item)) c s1 = Inr (v2, s2)" by (auto simp: whenT_Inr)
    then obtain a n where a: "s2 = s1\<lparr>rng_pos := n, cash_allocations := cash_allocations s1 @ [a]\<rparr>"
      "ca_lot a = Some (fc_lot item)" "ca_source a = None" "ca_direction a = DEBIT_ALLOC" "ca_amount a = c" "ca_tx a = tx" "ca_wallet a = w" "(ca_bucket a = CASH_BUCKET) = (ca_lot a \<noteq> None)"
      "ca_id a \<notin> ca_id ` set (cash_allocations s1)" by (rule debitRow_Inr)
    show thesis
      by (rule that [of "[a]" n]) (use a True s1 settleFundingCash_Inr [OF 3] in \<open>simp_all add: r_def\<close>)
  next
    case False
    with assms(3) have c: "c = 0" by simp
    with 2 have "s2 = s1" by (simp add: whenT_Inr)
    then show thesis
      using s1 settleFundingCash_Inr [OF 3] c by (intro that [of "[]" "rng_pos s"]) (simp_all add: r_def)
  qed
qed

lemma settleHold_inv:
  assumes "cash_inv s" "settleHold w tx item c s = Inr (u, s')" "0 \<le> c" "c \<le> fc_reserved item"
    "item \<in> set (funding_cash s)" "unsettled item" "(fc_lot item, w) \<in> lotOwners s"
  shows "cash_inv s'" "attributed tx s' = attributed tx s + c"
    "\<And>f. f \<in> set (funding_cash s) \<Longrightarrow> fc_id f \<noteq> fc_id item \<Longrightarrow> f \<in> set (funding_cash s')"
proof -
  obtain n as where s': "s' = s\<lparr>rng_pos := n,
        cash_lots := update_where (\<lambda>l. l_id l = fc_lot item) (\<lambda>l. l\<lparr>l_remaining := l_remaining l - (- (fc_reserved item - c))\<rparr>) (cash_lots s),
        cash_allocations := cash_allocations s @ as,
        funding_cash := update_where (\<lambda>f. fc_id f = fc_id item)
          (\<lambda>f. f\<lparr>fc_consumed := c, fc_released := fc_reserved item - c, fc_settled := Some (clk s)\<rparr>) (funding_cash s)\<rparr>"
    and a0: "c = 0 \<longrightarrow> as = []"
    and a1: "0 < c \<longrightarrow> (\<exists>a. as = [a] \<and> ca_lot a = Some (fc_lot item) \<and> ca_source a = None \<and> ca_direction a = DEBIT_ALLOC \<and>
       ca_amount a = c \<and> ca_tx a = tx \<and> ca_wallet a = w \<and> ((ca_bucket a = CASH_BUCKET) = (ca_lot a \<noteq> None)) \<and> ca_id a \<notin> ca_id ` set (cash_allocations s))" by (rule settleHold_Inr [OF assms(2,1,3,4,5)])
  have fc: "funding_cash s' = update_where (\<lambda>f. fc_id f = fc_id item)
          (\<lambda>f. f\<lparr>fc_consumed := c, fc_released := fc_reserved item - c, fc_settled := Some (clk s)\<rparr>) (funding_cash s)"
    and ca: "cash_allocations s' = cash_allocations s @ as" and rc: "refund_cash s' = refund_cash s"
    and ids: "l_id ` set (cash_lots s') = l_id ` set (cash_lots s)"
    and own: "lotOwners s' = lotOwners s"
    and ls: "cash_lots s' = update_where (\<lambda>l. l_id l = fc_lot item) (\<lambda>l. l\<lparr>l_remaining := l_remaining l - (- (fc_reserved item - c))\<rparr>) (cash_lots s)"
    using lotOwners_update [of s' _ _ s] unfolding s' by simp_all
  have hs: "holds_ok s" and als: "alloc_ok s" using assms(1) by (simp_all add: cash_inv_def)
  have dist: "distinct (map fc_id (funding_cash s))" using hs by (simp add: holds_ok_def)
  have fid: "x = item" if "fc_id x = fc_id item" "x \<in> set (funding_cash s)" for x
    using distinct_key_eq [OF dist that(2) assms(5) that(1)] .
  have held: "lotHeld s' x = lotHeld s x - (if x = fc_lot item then fc_reserved item else 0)" for x
    using column_sum_update_key [OF dist assms(5) refl, of "\<lambda>f. fc_lot f = x" "\<lambda>f. fc_reserved f - fc_consumed f - fc_released f"
        "\<lambda>f. f\<lparr>fc_consumed := c, fc_released := fc_reserved item - c, fc_settled := Some (clk s)\<rparr>"] assms(6)
    unfolding lotHeld_def fc rc by (simp add: unsettled_def)
  have ad: "alloc_ok s' \<and> (\<forall>x. lotSpent s' x = lotSpent s x + (if x = fc_lot item then c else 0)) \<and>
      attributed tx s' = attributed tx s + c"
  proof (cases "0 < c")
    case True
    then obtain a where a: "as = [a]" "ca_lot a = Some (fc_lot item)" "ca_source a = None" "ca_direction a = DEBIT_ALLOC"
       "ca_amount a = c" "ca_tx a = tx" "ca_wallet a = w" "(ca_bucket a = CASH_BUCKET) = (ca_lot a \<noteq> None)" "ca_id a \<notin> ca_id ` set (cash_allocations s)" using a1 by blast
    with append_debit [OF als, of s' a] a ca own assms(7) True show ?thesis by simp
  next
    case False
    with a0 assms(3) have "cash_allocations s' = cash_allocations s" "c = 0" using ca by auto
    then show ?thesis using alloc_same [OF _ own] als unfolding attributed_def by simp
  qed
  show "cash_inv s'"
  proof (rule lot_step [OF assms(1) _ _ _ ls])
    show "alloc_ok s'" using ad by blast
    have "fc_lot f \<in> l_id ` set (cash_lots s) \<and> 0 < fc_reserved f \<and> 0 \<le> fc_reserved f - fc_consumed f - fc_released f"
      if "f \<in> set (funding_cash s')" for f
    proof -
      from that obtain q where q: "q \<in> set (funding_cash s)"
        "f = (if fc_id q = fc_id item then q\<lparr>fc_consumed := c, fc_released := fc_reserved item - c, fc_settled := Some (clk s)\<rparr> else q)"
        unfolding fc in_update_where by blast
      show ?thesis
      proof (cases "fc_id q = fc_id item")
        case True
        then have "q = item" using fid q(1) by blast
        then show ?thesis using q hs by (simp add: holds_ok_def)
      qed (use q hs in \<open>simp add: holds_ok_def\<close>)
    qed
    moreover have "map fc_id (funding_cash s') = map fc_id (funding_cash s)" unfolding fc by (simp add: map_update_where)
    ultimately show "holds_ok s'" using hs unfolding holds_ok_def ids rc by simp
    have "0 \<le> l_remaining l" if "l \<in> set (cash_lots s)" for l
      using assms(1) that by (simp add: cash_inv_def lot_sound_def)
    then show "\<forall>l \<in> set (cash_lots s). l_id l = fc_lot item \<longrightarrow> - (fc_reserved item - c) \<le> l_remaining l"
      using assms(4) by (meson diff_ge_0_iff_ge neg_le_0_iff_le order_trans)
    show "lotHeld s' x + lotSpent s' x = lotHeld s x + lotSpent s x + (if x = fc_lot item then - (fc_reserved item - c) else 0)" for x
      using held [of x] ad by auto
  qed
  show "attributed tx s' = attributed tx s + c" using ad by blast
  show "f \<in> set (funding_cash s')" if "f \<in> set (funding_cash s)" "fc_id f \<noteq> fc_id item" for f
    unfolding fc in_update_where using that by (intro bexI [of _ f]) auto
qed

text \<open>A debit that is still outstanding leaves room in its lot.\<close>

lemma room_for_restore:
  assumes "cash_inv s" "d \<in> set (cash_allocations s)" "ca_direction d = DEBIT_ALLOC" "ca_lot d = Some lid" "m \<le> outstanding s d"
  shows "\<exists>l \<in> set (cash_lots s). returnsTo lid (ca_wallet d) m l"
proof -
  have al: "alloc_ok s" and hs: "holds_ok s" using assms(1) by (simp_all add: cash_inv_def)
  have "(lid, ca_wallet d) \<in> lotOwners s" using al assms(2,4) by (simp add: alloc_ok_def)
  then obtain l where l: "l \<in> set (cash_lots s)" "l_id l = lid" "l_wallet l = ca_wallet d"
    by (auto simp: lotOwners_def)
  have "outstanding s d \<le> lotSpent s lid"
    unfolding lotSpent_def using al assms(2-4) by (intro column_sum_ge_member) (auto simp: alloc_ok_def)
  moreover have "0 \<le> lotHeld s lid"
    unfolding lotHeld_def using hs by (intro add_nonneg_nonneg column_sum_nonneg) (auto simp: holds_ok_def)
  moreover have "l_original l = l_remaining l + lotHeld s lid + lotSpent s lid"
    using assms(1) l by (auto simp: cash_inv_def lot_sound_def)
  ultimately show ?thesis using l assms(5) by (intro bexI [of _ l]) (auto simp: returnsTo_def)
qed

lemma restoreStep_Inr:
  assumes "restoreStep w rtx (d, v) m s = Inr (u, s')" "cash_inv s" "d \<in> set (cash_allocations s)"
    "ca_direction d = DEBIT_ALLOC" "ca_wallet d = w" "m \<le> outstanding s d"
  obtains a n where
    "s' = s\<lparr>rng_pos := n,
        cash_lots := update_where (\<lambda>l. Some (l_id l) = ca_lot d) (\<lambda>l. l\<lparr>l_remaining := l_remaining l - (- m)\<rparr>) (cash_lots s),
        cash_allocations := cash_allocations s @ [a]\<rparr>"
    "ca_direction a = RESTORE_ALLOC" "ca_source a = Some (ca_id d)" "ca_lot a = ca_lot d" "ca_wallet a = ca_wallet d"
    "ca_bucket a = ca_bucket d" "ca_id a \<notin> ca_id ` set (cash_allocations s)" "ca_amount a = m" "ca_tx a = rtx" "0 < m"
proof -
  from assms(1) obtain v1 s1 where
    1: "whenT (ca_bucket d = CASH_BUCKET) (case ca_lot d of None \<Rightarrow> failT ErrFinanceState
             | Some lid \<Rightarrow> bindT (returnToLot lid w m) (\<lambda>_. returnT ())) s = Inr (v1, s1)"
    and 2: "insertCashAllocation \<lparr>ca_id = rng s1 (rng_pos s1), ca_wallet = w, ca_tx = rtx, ca_lot = ca_lot d,
          ca_source = Some (ca_id d), ca_bucket = ca_bucket d, ca_direction = RESTORE_ALLOC,
          ca_amount = m, ca_created = clk s1\<rparr> (s1\<lparr>rng_pos := Suc (rng_pos s1)\<rparr>) = Inr (u, s')"
    unfolding restoreStep_def Let_def by (auto simp: uuidT_Inr)
  have bucket: "(ca_bucket d = CASH_BUCKET) = (ca_lot d \<noteq> None)"
    using assms(2,3) by (simp add: cash_inv_def alloc_ok_def)
  have s1: "s1 = s\<lparr>cash_lots := update_where (\<lambda>l. Some (l_id l) = ca_lot d) (\<lambda>l. l\<lparr>l_remaining := l_remaining l - (- m)\<rparr>) (cash_lots s)\<rparr>"
  proof (cases "ca_lot d")
    case None
    then show ?thesis using 1 bucket by (simp add: whenT_Inr update_where_def)
  next
    case (Some lid)
    have "\<exists>l \<in> set (cash_lots s). returnsTo lid w m l"
      using room_for_restore [OF assms(2-4) Some assms(6)] assms(5) by simp
    moreover have "distinct (map l_id (cash_lots s))" using assms(2) by (simp add: cash_inv_def)
    ultimately show ?thesis using 1 bucket Some returnsTo_hits [of "cash_lots s" lid w m]
      by (auto simp: whenT_Inr returnToLot_Inr)
  qed
  show thesis
    by (rule that [OF _ _ _ _ _ _ _ _ _ _, of "\<lparr>ca_id = rng s1 (rng_pos s1), ca_wallet = w, ca_tx = rtx, ca_lot = ca_lot d,
          ca_source = Some (ca_id d), ca_bucket = ca_bucket d, ca_direction = RESTORE_ALLOC,
          ca_amount = m, ca_created = clk s1\<rparr>" "Suc (rng_pos s1)"])
       (use insertCashAllocation_Inr [OF 2] assms(5) in \<open>simp_all add: s1\<close>)
qed

lemma restoreStep_inv:
  assumes "cash_inv s" "restoreStep w rtx (d, v) m s = Inr (u, s')" "d \<in> set (cash_allocations s)"
    "ca_direction d = DEBIT_ALLOC" "ca_wallet d = w" "m \<le> outstanding s d"
  shows "cash_inv s'" "attributed rtx s' = attributed rtx s + m"
    "\<And>b. outstanding s' b = outstanding s b - (if ca_id b = ca_id d then m else 0)"
    "set (cash_allocations s) \<subseteq> set (cash_allocations s')"
proof -
  from assms(2,1,3,4,5,6) obtain a n where s': "s' = s\<lparr>rng_pos := n,
        cash_lots := update_where (\<lambda>l. Some (l_id l) = ca_lot d) (\<lambda>l. l\<lparr>l_remaining := l_remaining l - (- m)\<rparr>) (cash_lots s),
        cash_allocations := cash_allocations s @ [a]\<rparr>"
    and a: "ca_direction a = RESTORE_ALLOC" "ca_source a = Some (ca_id d)" "ca_lot a = ca_lot d" "ca_wallet a = ca_wallet d"
    "ca_bucket a = ca_bucket d" "ca_id a \<notin> ca_id ` set (cash_allocations s)" "ca_amount a = m" "ca_tx a = rtx" "0 < m"
    by (rule restoreStep_Inr)
  have ls: "cash_lots s' = update_where (\<lambda>l. Some (l_id l) = ca_lot d) (\<lambda>l. l\<lparr>l_remaining := l_remaining l - (- m)\<rparr>) (cash_lots s)"
    and ca: "cash_allocations s' = cash_allocations s @ [a]"
    and hold: "funding_cash s' = funding_cash s" "refund_cash s' = refund_cash s"
    unfolding s' by simp_all
  have own: "lotOwners s' = lotOwners s" by (rule lotOwners_update [OF ls])
  have al: "alloc_ok s" using assms(1) by (simp add: cash_inv_def)
  note ar = append_restore [OF al ca own a(1-6) _ assms(3,4)]
  have ad: "alloc_ok s'" "\<And>b. outstanding s' b = outstanding s b - (if ca_id b = ca_id d then m else 0)"
    "\<And>x. lotSpent s' x = lotSpent s x - (if ca_lot d = Some x then m else 0)"
    using ar a(7) assms(6) by simp_all
  have ids: "l_id ` set (cash_lots s') = l_id ` set (cash_lots s)" unfolding ls by simp
  have hs: "holds_ok s'" using assms(1) unfolding cash_inv_def holds_ok_def ids hold by blast
  have held: "lotHeld s' = lotHeld s" by (simp add: lotHeld_def [abs_def] hold)
  show "cash_inv s'"
  proof (cases "ca_lot d")
    case None
    then have "cash_lots s' = cash_lots s" unfolding ls by (simp add: update_where_def)
    then show ?thesis using lot_step_none [OF assms(1) ad(1) hs] ad(3) held None by simp
  next
    case (Some lid)
    have "\<forall>l \<in> set (cash_lots s). l_id l = lid \<longrightarrow> - m \<le> l_remaining l"
      using assms(1) a(9) by (fastforce simp: cash_inv_def lot_sound_def)
    from lot_step [OF assms(1) ad(1) hs this] show ?thesis
      using ls Some held ad(3) by simp
  qed
  show "attributed rtx s' = attributed rtx s + m" using a by (simp add: attributed_def ca)
  show "\<And>b. outstanding s' b = outstanding s b - (if ca_id b = ca_id d then m else 0)" by (rule ad(2))
  show "set (cash_allocations s) \<subseteq> set (cash_allocations s')" unfolding ca by auto
qed

section \<open>The loops\<close>

definition heldBy :: "string \<Rightarrow> db \<Rightarrow> money" where
  "heldBy op s = column_sum (\<lambda>f. fc_operation f = op) fc_reserved (funding_cash s)"

lemma holdFromLot_owners: "holdFromLot op item m s = Inr (u, s') \<Longrightarrow> lotOwners s' = lotOwners s"
  by (erule holdFromLot_Inr) (rule lotOwners_update [of s' _ _ s], simp)

lemma debitFromLot_owners: "debitFromLot w tx item m s = Inr (u, s') \<Longrightarrow> lotOwners s' = lotOwners s"
  by (erule debitFromLot_Inr) (rule lotOwners_update [of s' _ _ s], simp)

lemma holdFromLot_heldBy: "holdFromLot op item m s = Inr (u, s') \<Longrightarrow> heldBy op s' = heldBy op s + m"
  by (erule holdFromLot_Inr) (simp add: heldBy_def)

interpretation hold_loop: allocation_loop l_remaining "holdFromLot op"
    "\<lambda>xs s. cash_inv s \<and> (\<forall>x \<in> set xs. 0 < l_remaining x)" "heldBy op"
  by unfold_locales (auto intro: holdFromLot_inv holdFromLot_heldBy)

interpretation debit_loop: allocation_loop l_remaining "debitFromLot w tx"
    "\<lambda>xs s. cash_inv s \<and> (\<forall>x \<in> set xs. 0 < l_remaining x \<and> (l_id x, w) \<in> lotOwners s)" "attributed tx"
  by unfold_locales (auto intro: debitFromLot_inv dest: debitFromLot_owners)

lemma settleHold_owners:
  assumes "settleHold w tx item c s = Inr (u, s')" "cash_inv s" "0 \<le> c" "c \<le> fc_reserved item" "item \<in> set (funding_cash s)"
  shows "lotOwners s' = lotOwners s"
  by (rule settleHold_Inr [OF assms]) (rule lotOwners_update [of s' _ _ s], simp)

definition settleable :: "string \<Rightarrow> FundingCash list \<Rightarrow> db \<Rightarrow> bool" where
  "settleable w xs s \<longleftrightarrow> cash_inv s \<and> distinct (map fc_id xs) \<and>
     (\<forall>x \<in> set xs. x \<in> set (funding_cash s) \<and> unsettled x \<and> (fc_lot x, w) \<in> lotOwners s)"

interpretation settle_loop: allocation_loop fc_reserved "settleHold w tx" "settleable w" "attributed tx"
proof
  fix x xs and s :: db
  assume "settleable w (x # xs) s"
  then show "0 < fc_reserved x" by (simp add: settleable_def cash_inv_def holds_ok_def)
next
  fix x xs m u and s s' :: db
  assume P: "settleable w (x # xs) s" and m: "0 \<le> m" "m \<le> fc_reserved x" and step: "settleHold w tx x m s = Inr (u, s')"
  from P have x: "cash_inv s" "x \<in> set (funding_cash s)" "unsettled x" "(fc_lot x, w) \<in> lotOwners s"
    by (simp_all add: settleable_def)
  note sh = settleHold_inv [OF x(1) step m x(2,3,4)]
  note own = settleHold_owners [OF step x(1) m x(2)]
  have "y \<in> set (funding_cash s')" if "y \<in> set xs" for y
  proof (rule sh(3))
    show "y \<in> set (funding_cash s)" using P that by (simp add: settleable_def)
    have "fc_id x \<notin> fc_id ` set xs" using P by (simp add: settleable_def)
    then show "fc_id y \<noteq> fc_id x" using that by (metis imageI)
  qed
  then have "settleable w xs s'" using P sh(1) own by (simp add: settleable_def)
  then show "settleable w xs s' \<and> attributed tx s' = attributed tx s + m" using sh(2) by simp
qed

definition restorableItems :: "string \<Rightarrow> (CashAllocation \<times> money) list \<Rightarrow> db \<Rightarrow> bool" where
  "restorableItems w xs s \<longleftrightarrow> cash_inv s \<and> distinct (map (ca_id \<circ> fst) xs) \<and>
     (\<forall>x \<in> set xs. fst x \<in> set (cash_allocations s) \<and> ca_direction (fst x) = DEBIT_ALLOC \<and> ca_wallet (fst x) = w \<and>
        outstanding s (fst x) = snd x \<and> 0 < snd x)"

interpretation restore_loop: allocation_loop snd "restoreStep w rtx" "restorableItems w" "attributed rtx"
proof
  fix x xs and s :: db
  assume "restorableItems w (x # xs) s"
  then show "0 < snd x" by (simp add: restorableItems_def)
next
  fix x xs m u and s s' :: db
  assume P: "restorableItems w (x # xs) s" and m: "0 \<le> m" "m \<le> snd x" and step: "restoreStep w rtx x m s = Inr (u, s')"
  obtain d v where x: "x = (d, v)" by (cases x)
  from P m x have d: "cash_inv s" "d \<in> set (cash_allocations s)" "ca_direction d = DEBIT_ALLOC" "ca_wallet d = w" "m \<le> outstanding s d"
    by (simp_all add: restorableItems_def)
  note rs = restoreStep_inv [OF d(1) step [unfolded x] d(2-5)]
  have "fst y \<in> set (cash_allocations s') \<and> outstanding s' (fst y) = snd y" if "y \<in> set xs" for y
    using P rs(3) [of "fst y"] rs(4) that x by (force simp: restorableItems_def)
  then have "restorableItems w xs s'" using P rs(1) by (simp add: restorableItems_def)
  then show "restorableItems w xs s' \<and> attributed rtx s' = attributed rtx s + m" using rs(2) by simp
qed

section \<open>The operations preserve the invariant and attribute exactly the amount\<close>

lemma openLots_items: "x \<in> set (openLots w s) \<Longrightarrow> 0 < l_remaining x \<and> (l_id x, w) \<in> lotOwners s \<and> x \<in> set (cash_lots s)"
  by (auto simp: openLots_def lotOwners_def)

lemma reserveCashLotsTx_inv:
  assumes "cash_inv s" "reserveCashLotsTx op w m s = Inr (u, s')"
  shows "cash_inv s'" "heldBy op s' = heldBy op s + min (max 0 m) (sum_list (map l_remaining (openLots w s)))"
proof -
  have pos: "\<forall>x \<in> set (openLots w s). 0 < l_remaining x" using openLots_items by blast
  have sum: "0 \<le> sum_list (map l_remaining (openLots w s))" by (rule sum_list_pos [OF pos])
  have "cash_inv s' \<and> heldBy op s' = heldBy op s + min (max 0 m) (sum_list (map l_remaining (openLots w s)))"
  proof (cases "m \<le> 0")
    case True
    with assms sum show ?thesis by (simp add: reserveCashLotsTx_def)
  next
    case False
    with assms(2) obtain r where g: "greedyT l_remaining (holdFromLot op) (openLots w s) m s = Inr (r, s')"
      by (auto simp: reserveCashLotsTx_def)
    from hold_loop.greedyT_ok [OF _ _ g] greedyT_remaining [OF g _ pos] False assms(1) pos
    show ?thesis by auto
  qed
  then show "cash_inv s'" "heldBy op s' = heldBy op s + min (max 0 m) (sum_list (map l_remaining (openLots w s)))" by auto
qed

lemma allocateCashDebitTx_inv:
  assumes "cash_inv s" "allocateCashDebitTx w tx m s = Inr (u, s')"
  shows "cash_inv s'" "attributed tx s' = attributed tx s + max 0 m"
proof -
  have "cash_inv s' \<and> attributed tx s' = attributed tx s + max 0 m"
  proof (cases "m \<le> 0")
    case True
    with assms show ?thesis by (simp add: allocateCashDebitTx_def)
  next
    case False
    with assms(2) obtain r t where g: "greedyT l_remaining (debitFromLot w tx) (openLots w s) m s = Inr (r, t)"
      and c: "whenT (0 < r) (debitRow w tx None r) t = Inr (u, s')"
      by (auto simp: allocateCashDebitTx_def)
    from debit_loop.greedyT_ok [OF _ _ g] False assms(1) openLots_items
    have t: "cash_inv t" "0 \<le> r" "attributed tx t = attributed tx s + (m - r)" by auto
    show ?thesis
      using c creditRow_inv [OF t(1), of w tx r u s'] t False by (auto simp: whenT_Inr split: if_splits)
  qed
  then show "cash_inv s'" "attributed tx s' = attributed tx s + max 0 m" by auto
qed

lemma settleCashLotsTx_inv:
  assumes "cash_inv s" "settleCashLotsTx op w tx m s = Inr (u, s')" "0 \<le> m"
    and "\<forall>f \<in> set (funding_cash s). fc_operation f = op \<longrightarrow> unsettled f \<and> (fc_lot f, w) \<in> lotOwners s"
  shows "cash_inv s'" "attributed tx s' = attributed tx s + m"
proof -
  from assms(2) obtain r t where g: "spreadT fc_reserved (settleHold w tx) (heldLots op s) m s = Inr (r, t)"
    and c: "(if 0 < r then allocateCashDebitTx w tx r else returnT ()) t = Inr (u, s')"
    by (auto simp: settleCashLotsTx_def)
  have d: "distinct (map fc_id (filter (\<lambda>f. fc_operation f = op) (funding_cash s)))"
    using assms(1) unfolding cash_inv_def holds_ok_def by (auto intro: distinct_map_filter)
  then have "distinct (map fc_id (heldLots op s))"
    unfolding heldLots_def by (simp add: distinct_map)
  then have "settleable w (heldLots op s) s"
    using assms(1,4) by (auto simp: settleable_def heldLots_def)
  from settle_loop.spreadT_ok [OF this assms(3) g]
  have t: "cash_inv t" "0 \<le> r" "attributed tx t = attributed tx s + (m - r)" by (auto simp: settleable_def)
  show "cash_inv s'" "attributed tx s' = attributed tx s + m"
    using c allocateCashDebitTx_inv [OF t(1), of w tx r u s'] t by (auto split: if_splits)
qed

lemma restoreCashAllocationTx_inv:
  assumes "cash_inv s" "restoreCashAllocationTx w src rtx m s = Inr (u, s')"
  shows "cash_inv s'" "attributed rtx s' = attributed rtx s + max 0 m"
    "0 < m \<Longrightarrow> m \<le> sum_list (map snd (restorable w src s))"
proof -
  let ?as = "filter (\<lambda>a. ca_wallet a = w \<and> ca_tx a = src \<and> ca_direction a = DEBIT_ALLOC \<and> 0 < outstanding s a) (cash_allocations s)"
  have "distinct (map ca_id ?as)"
    using assms(1) unfolding cash_inv_def alloc_ok_def by (auto intro: distinct_map_filter)
  then have "distinct (map ca_id (sort_key (\<lambda>a. (ca_created a, ca_id a)) ?as))"
    by (simp add: distinct_map)
  then have items: "restorableItems w (restorable w src s) s"
    using assms(1) by (auto simp: restorableItems_def restorable_def comp_def rev_map [symmetric])
  have "cash_inv s' \<and> attributed rtx s' = attributed rtx s + max 0 m \<and> (0 < m \<longrightarrow> m \<le> sum_list (map snd (restorable w src s)))"
  proof (cases "m \<le> 0")
    case True
    with assms show ?thesis by (simp add: restoreCashAllocationTx_def)
  next
    case False
    with assms(2) obtain r where g: "greedyT snd (restoreStep w rtx) (restorable w src s) m s = Inr (r, s')" and r: "r \<le> 0"
      by (auto simp: restoreCashAllocationTx_def)
    have "\<forall>x \<in> set (restorable w src s). 0 < snd x" using items by (simp add: restorableItems_def)
    with restore_loop.greedyT_ok [OF items _ g] greedyT_remaining [OF g] False r
    show ?thesis by (auto simp: restorableItems_def)
  qed
  then show "cash_inv s'" "attributed rtx s' = attributed rtx s + max 0 m"
    "0 < m \<Longrightarrow> m \<le> sum_list (map snd (restorable w src s))" by auto
qed

lemma debitRechargeCashLotTx_inv:
  assumes "cash_inv s" "debitRechargeCashLotTx w ro tx m s = Inr (r, s')" "0 \<le> m"
  shows "cash_inv s'" "0 \<le> r" "r \<le> m" "attributed tx s' = attributed tx s + r"
proof -
  have "cash_inv s' \<and> 0 \<le> r \<and> r \<le> m \<and> attributed tx s' = attributed tx s + r"
  proof (cases "rechargeLot w ro s")
    case None
    with assms show ?thesis by (auto simp: debitRechargeCashLotTx_def)
  next
    case (Some lot)
    then have own: "(l_id lot, w) \<in> lotOwners s" by (auto simp: rechargeLot_def lotOwners_def dest!: find_SomeD)
    let ?t = "min m (l_remaining lot)"
    show ?thesis
    proof (cases "?t \<le> 0")
      case True
      with assms Some show ?thesis by (auto simp: debitRechargeCashLotTx_def Let_def)
    next
      case False
      with assms(2) Some obtain u where "debitFromLot w tx lot ?t s = Inr (u, s')" "r = ?t"
        by (auto simp: debitRechargeCashLotTx_def Let_def)
      with debitFromLot_inv [OF assms(1) _ own] False show ?thesis by auto
    qed
  qed
  then show "cash_inv s'" "0 \<le> r" "r \<le> m" "attributed tx s' = attributed tx s + r" by auto
qed

lemma allocateChargebackTx_inv:
  assumes "cash_inv s" "allocateChargebackTx w ro tx m s = Inr (r, s')" "0 \<le> m"
  shows "cash_inv s'" "attributed tx s' = attributed tx s + m" "fst r + snd r = m"
proof -
  from assms(2) obtain c t u where d: "debitRechargeCashLotTx w ro tx m s = Inr (c, t)"
    and e: "whenT (0 < m - c) (debitRow w tx None (m - c)) t = Inr (u, s')" and r: "r = (c, m - c)"
    by (auto simp: allocateChargebackTx_def Let_def)
  note di = debitRechargeCashLotTx_inv [OF assms(1) d assms(3)]
  show "fst r + snd r = m" using r by simp
  show "cash_inv s'" "attributed tx s' = attributed tx s + m"
    using e creditRow_inv [OF di(1), of w tx "m - c" u s'] di by (auto simp: whenT_Inr split: if_splits)
qed

lemma reserveRefundCashTx_inv:
  assumes "cash_inv s" "reserveRefundCashTx rf w ro m s = Inr (u, s')"
  shows "cash_inv s'"
proof -
  from assms(2) obtain lot v t where lot: "refundableLot w ro s = Some lot" and t: "takeFromLot (l_id lot) m s = Inr (v, t)"
    and i: "insertRefundCash \<lparr>rc_id = rng t (rng_pos t), rc_refund = rf, rc_lot = l_id lot, rc_reserved = m,
                        rc_consumed = 0, rc_released = 0, rc_settled = None\<rparr> (t\<lparr>rng_pos := Suc (rng_pos t)\<rparr>) = Inr (u, s')"
    by (auto simp: reserveRefundCashTx_def uuidT_Inr)
  define f where "f = \<lparr>rc_id = rng t (rng_pos t), rc_refund = rf, rc_lot = l_id lot, rc_reserved = m,
                        rc_consumed = 0, rc_released = 0, rc_settled = None\<rparr>"
  from takeFromLot_Inr [OF t] have t': "t = s\<lparr>cash_lots := update_where (\<lambda>l. l_id l = l_id lot)
      (\<lambda>l. l\<lparr>l_remaining := l_remaining l - m\<rparr>) (cash_lots s)\<rparr>"
    and le: "\<forall>l \<in> set (cash_lots s). l_id l = l_id lot \<longrightarrow> m \<le> l_remaining l" by simp_all
  from insertRefundCash_Inr [OF i] have ls: "cash_lots s' = update_where (\<lambda>l. l_id l = l_id lot)
      (\<lambda>l. l\<lparr>l_remaining := l_remaining l - m\<rparr>) (cash_lots s)" and ca: "cash_allocations s' = cash_allocations s"
    and fc: "funding_cash s' = funding_cash s" and rc: "refund_cash s' = refund_cash s @ [f]"
    and f: "0 < rc_reserved f" "rc_id f \<notin> rc_id ` set (refund_cash s)" "rc_lot f \<in> l_id ` set (cash_lots s)"
    unfolding f_def t' by simp_all
  have ids: "l_id ` set (cash_lots s') = l_id ` set (cash_lots s)" unfolding ls by simp
  note al = alloc_same [OF ca lotOwners_update [OF ls]]
  show ?thesis
  proof (rule lot_step [OF assms(1) _ _ le ls])
    show "alloc_ok s'" using assms(1) al by (simp add: cash_inv_def)
    show "holds_ok s'" using assms(1) f unfolding cash_inv_def holds_ok_def ids fc rc by (simp add: f_def)
    show "lotHeld s' x + lotSpent s' x = lotHeld s x + lotSpent s x + (if x = l_id lot then m else 0)" for x
      unfolding al lotHeld_def fc rc by (simp add: f_def)
  qed
qed

text \<open>Settling one hold of a refund, in full, as consumed or as released.\<close>

lemma refund_hold_settled:
  assumes "holds_ok s" "f \<in> set (refund_cash s)" "rc_consumed f = 0" "rc_released f = 0"
    and rc: "refund_cash s' = update_where (\<lambda>g. rc_id g = rc_id f) (\<lambda>g. g\<lparr>rc_consumed := c, rc_released := r, rc_settled := z\<rparr>) (refund_cash s)"
    and fc: "funding_cash s' = funding_cash s" and ids: "l_id ` set (cash_lots s') = l_id ` set (cash_lots s)"
    and cr: "c + r = rc_reserved f"
  shows "holds_ok s'" "lotHeld s' x = lotHeld s x - (if x = rc_lot f then rc_reserved f else 0)"
proof -
  have dist: "distinct (map rc_id (refund_cash s))" using assms(1) by (simp add: holds_ok_def)
  show "lotHeld s' x = lotHeld s x - (if x = rc_lot f then rc_reserved f else 0)"
    using column_sum_update_key [OF dist assms(2) refl, of "\<lambda>f. rc_lot f = x" "\<lambda>f. rc_reserved f - rc_consumed f - rc_released f"
        "\<lambda>g. g\<lparr>rc_consumed := c, rc_released := r, rc_settled := z\<rparr>"] assms(3,4) cr
    unfolding lotHeld_def rc fc by simp
  have "rc_lot g \<in> l_id ` set (cash_lots s) \<and> 0 < rc_reserved g \<and> 0 \<le> rc_reserved g - rc_consumed g - rc_released g"
    if "g \<in> set (refund_cash s')" for g
  proof -
    from that obtain q where q: "q \<in> set (refund_cash s)"
      "g = (if rc_id q = rc_id f then q\<lparr>rc_consumed := c, rc_released := r, rc_settled := z\<rparr> else q)"
      unfolding rc in_update_where by blast
    show ?thesis
    proof (cases "rc_id q = rc_id f")
      case True
      then have "q = f" using distinct_key_eq [OF dist q(1) assms(2)] by blast
      then show ?thesis using q assms(1) cr by (simp add: holds_ok_def)
    qed (use q assms(1) in \<open>simp add: holds_ok_def\<close>)
  qed
  moreover have "map rc_id (refund_cash s') = map rc_id (refund_cash s)" unfolding rc by (simp add: map_update_where)
  ultimately show "holds_ok s'" using assms(1) unfolding holds_ok_def ids fc by simp
qed

lemma refund_consumed_inv:
  assumes "cash_inv s" "f \<in> set (refund_cash s)" "rc_consumed f = 0" "rc_released f = 0" "(rc_lot f, w) \<in> lotOwners s"
    and d: "debitRow w tx (Some (rc_lot f)) (rc_reserved f) s = Inr (v, t)" and e: "settleRefundCash (rc_id f) (rc_reserved f) 0 t = Inr (u, s')"
  shows "cash_inv s'" "attributed tx s' = attributed tx s + rc_reserved f"
proof -
  from d obtain a n where t: "t = s\<lparr>rng_pos := n, cash_allocations := cash_allocations s @ [a]\<rparr>"
    and a: "ca_lot a = Some (rc_lot f)" "ca_source a = None" "ca_direction a = DEBIT_ALLOC" "ca_amount a = rc_reserved f" "ca_tx a = tx"
      "0 < rc_reserved f" "ca_wallet a = w" "(ca_bucket a = CASH_BUCKET) = (ca_lot a \<noteq> None)" "ca_id a \<notin> ca_id ` set (cash_allocations s)"
    by (rule debitRow_Inr)
  from settleRefundCash_Inr [OF e] have tabs: "cash_lots s' = cash_lots s" "cash_allocations s' = cash_allocations s @ [a]"
    "funding_cash s' = funding_cash s" and rc: "refund_cash s' = update_where (\<lambda>g. rc_id g = rc_id f)
       (\<lambda>g. g\<lparr>rc_consumed := rc_reserved f, rc_released := 0, rc_settled := Some (clk s)\<rparr>) (refund_cash s)"
    unfolding t by simp_all
  have own: "lotOwners s' = lotOwners s" by (simp add: lotOwners_def tabs)
  have ad: "alloc_ok s'" "\<And>x. lotSpent s' x = lotSpent s x + (if x = rc_lot f then rc_reserved f else 0)"
    "attributed tx s' = attributed tx s + rc_reserved f"
    using append_debit [of s s' a] assms(1,5) a tabs own by (simp_all add: cash_inv_def)
  have hs: "holds_ok s'" "\<And>x. lotHeld s' x = lotHeld s x - (if x = rc_lot f then rc_reserved f else 0)"
    using refund_hold_settled [OF _ assms(2-4) rc tabs(3)] assms(1) tabs(1) by (simp_all add: cash_inv_def)
  show "cash_inv s'" by (rule lot_step_none [OF assms(1) ad(1) hs(1) tabs(1)]) (simp add: ad(2) hs(2))
  show "attributed tx s' = attributed tx s + rc_reserved f" by (rule ad(3))
qed

lemma refund_released_inv:
  assumes "cash_inv s" "f \<in> set (refund_cash s)" "rc_consumed f = 0" "rc_released f = 0"
    and d: "returnToLot (rc_lot f) w (rc_reserved f) s = Inr (1, t)" and e: "settleRefundCash (rc_id f) 0 (rc_reserved f) t = Inr (u, s')"
  shows "cash_inv s'" "attributed tx s' = attributed tx s"
proof -
  from d have n: "rows_affected (returnsTo (rc_lot f) w (rc_reserved f)) (cash_lots s) = 1"
    and t: "t = s\<lparr>cash_lots := update_where (returnsTo (rc_lot f) w (rc_reserved f)) (\<lambda>l. l\<lparr>l_remaining := l_remaining l + rc_reserved f\<rparr>) (cash_lots s)\<rparr>"
    by (auto simp: returnToLot_Inr)
  have dist: "distinct (map l_id (cash_lots s))" using assms(1) by (simp add: cash_inv_def)
  note hit = returnsTo_hits [OF dist rows_affected_hit [OF n]]
  from settleRefundCash_Inr [OF e] have tabs: "cash_allocations s' = cash_allocations s" "funding_cash s' = funding_cash s"
    and ls: "cash_lots s' = update_where (\<lambda>l. l_id l = rc_lot f) (\<lambda>l. l\<lparr>l_remaining := l_remaining l - (- rc_reserved f)\<rparr>) (cash_lots s)"
    and rc: "refund_cash s' = update_where (\<lambda>g. rc_id g = rc_id f)
       (\<lambda>g. g\<lparr>rc_consumed := 0, rc_released := rc_reserved f, rc_settled := Some (clk s)\<rparr>) (refund_cash s)"
    unfolding t hit by simp_all
  have ids: "l_id ` set (cash_lots s') = l_id ` set (cash_lots s)" unfolding ls by simp
  have hs: "holds_ok s'" "\<And>x. lotHeld s' x = lotHeld s x - (if x = rc_lot f then rc_reserved f else 0)"
    using refund_hold_settled [OF _ assms(2-4) rc tabs(2) ids] assms(1) by (simp_all add: cash_inv_def)
  note al = alloc_same [OF tabs(1) lotOwners_update [OF ls]]
  show "cash_inv s'"
  proof (rule lot_step [OF assms(1) _ hs(1) _ ls])
    show "alloc_ok s'" using assms(1) al by (simp add: cash_inv_def)
    show "\<forall>l \<in> set (cash_lots s). l_id l = rc_lot f \<longrightarrow> - rc_reserved f \<le> l_remaining l"
      using assms(1,2) by (fastforce simp: cash_inv_def lot_sound_def holds_ok_def)
  qed (simp add: al hs(2))
  show "attributed tx s' = attributed tx s" unfolding attributed_def tabs ..
qed

lemma settleRefundCashTx_inv:
  assumes "cash_inv s" "settleRefundCashTx rf w tx ok s = Inr (u, s')"
    and "\<forall>f \<in> set (refund_cash s). rc_refund f = rf \<longrightarrow> rc_consumed f = 0 \<and> rc_released f = 0 \<and> (rc_lot f, w) \<in> lotOwners s"
  shows "cash_inv s'"
    "\<exists>f \<in> set (refund_cash s). rc_refund f = rf \<and> attributed tx s' = attributed tx s + (if ok then rc_reserved f else 0)"
proof -
  from assms(2) obtain f where "find (\<lambda>f. rc_refund f = rf) (refund_cash s) = Some f"
    by (auto simp: settleRefundCashTx_def)
  note row = this
  from find_SomeD [OF row] have f: "f \<in> set (refund_cash s)" "rc_refund f = rf" by auto
  from f assms(3) have un: "rc_consumed f = 0" "rc_released f = 0" "(rc_lot f, w) \<in> lotOwners s" by auto
  have "cash_inv s' \<and> attributed tx s' = attributed tx s + (if ok then rc_reserved f else 0)"
  proof (cases ok)
    case True
    with assms(2) row un obtain v t where "debitRow w tx (Some (rc_lot f)) (rc_reserved f) s = Inr (v, t)"
      "settleRefundCash (rc_id f) (rc_reserved f) 0 t = Inr (u, s')" by (auto simp: settleRefundCashTx_def)
    from refund_consumed_inv [OF assms(1) f(1) un this] True show ?thesis by simp
  next
    case False
    with assms(2) row un obtain t where "returnToLot (rc_lot f) w (rc_reserved f) s = Inr (1, t)"
      "settleRefundCash (rc_id f) 0 (rc_reserved f) t = Inr (u, s')" by (auto simp: settleRefundCashTx_def)
    from refund_released_inv [OF assms(1) f(1) un(1,2) this] False show ?thesis by simp
  qed
  then show "cash_inv s'"
    "\<exists>f \<in> set (refund_cash s). rc_refund f = rf \<and> attributed tx s' = attributed tx s + (if ok then rc_reserved f else 0)"
    using f by blast+
qed

lemma createCashLotTx_inv:
  assumes "cash_inv s" "createCashLotTx w ro tx k ref m cur rfd s = Inr (u, s')"
  shows "cash_inv s'"
proof -
  define l where "l = \<lparr>l_id = rng s (rng_pos s), l_wallet = w, l_recharge = nullString ro, l_source_tx = nullString tx,
                l_kind = k, l_reference = ref, l_original = m, l_remaining = m, l_currency = cur,
                l_refundable = rfd, l_created = clk s\<rparr>"
  from assms(2) have m: "0 < m" and s': "s' = (if list_ex (lotConflicts l) (cash_lots s) then s\<lparr>rng_pos := Suc (rng_pos s)\<rparr>
      else s\<lparr>rng_pos := Suc (rng_pos s), cash_lots := cash_lots s @ [l]\<rparr>)"
    by (auto simp: createCashLotTx_def uuidT_Inr Let_def l_def)
  show ?thesis
  proof (cases "list_ex (lotConflicts l) (cash_lots s)")
    case True
    with s' have "s' = s\<lparr>rng_pos := Suc (rng_pos s)\<rparr>" by simp
    then show ?thesis using cash_inv_cong [of s' s] assms(1) by simp
  next
    case False
    with s' have tabs: "cash_lots s' = cash_lots s @ [l]" "cash_allocations s' = cash_allocations s"
      "funding_cash s' = funding_cash s" "refund_cash s' = refund_cash s" by simp_all
    have fresh: "l_id l \<notin> l_id ` set (cash_lots s)" using False by (auto simp: list_ex_iff lotConflicts_def)
    have al: "alloc_ok s" and hs: "holds_ok s" using assms(1) by (simp_all add: cash_inv_def)
    note o = outstanding_cong [OF tabs(2)]
    have "lotSpent s (l_id l) = 0" unfolding lotSpent_def
      using al fresh by (intro column_sum_zero) (force simp: alloc_ok_def lotOwners_def)
    moreover have "column_sum (\<lambda>f. fc_lot f = l_id l) (\<lambda>f. fc_reserved f - fc_consumed f - fc_released f) (funding_cash s) = 0"
      "column_sum (\<lambda>f. rc_lot f = l_id l) (\<lambda>f. rc_reserved f - rc_consumed f - rc_released f) (refund_cash s) = 0"
      by (rule column_sum_zero; use hs fresh in \<open>metis holds_ok_def\<close>)+
    then have "lotHeld s (l_id l) = 0" by (simp add: lotHeld_def)
    moreover have "lotHeld s' = lotHeld s" "lotSpent s' = lotSpent s"
      by (simp_all add: lotHeld_def [abs_def] lotSpent_def [abs_def] tabs o)
    ultimately have "\<forall>k \<in> set (cash_lots s'). lot_sound s' k"
      using assms(1) m unfolding tabs by (auto simp: cash_inv_def lot_sound_def l_def)
    moreover have "alloc_ok s'" using al unfolding alloc_ok_def tabs o lotOwners_def by auto
    moreover have "holds_ok s'" using hs unfolding holds_ok_def tabs by auto
    ultimately show ?thesis using assms(1) fresh unfolding cash_inv_def tabs by simp
  qed
qed

section \<open>Frames\<close>

lemma keeps_debitRow:
  assumes "\<And>s n. f (s\<lparr>rng_pos := n\<rparr>) = f s" "\<And>s t. f (s\<lparr>cash_allocations := t\<rparr>) = f s"
  shows "keeps f (debitRow w tx lot m)"
  by (rule keepsI, erule debitRow_Inr) (simp add: assms)

lemma keeps_takeFromLot:
  assumes "\<And>s t. f (s\<lparr>cash_lots := t\<rparr>) = f s"
  shows "keeps f (takeFromLot lid m)"
  unfolding takeFromLot_def by (intro frame) (simp add: assms)

lemma keeps_returnToLot:
  assumes "\<And>s t. f (s\<lparr>cash_lots := t\<rparr>) = f s"
  shows "keeps f (returnToLot lid w m)"
  unfolding returnToLot_def by (intro frame) (simp add: assms)

lemma keeps_reserveCashLotsTx:
  assumes "\<And>s n. f (s\<lparr>rng_pos := n\<rparr>) = f s" "\<And>s t. f (s\<lparr>cash_lots := t\<rparr>) = f s" "\<And>s t. f (s\<lparr>funding_cash := t\<rparr>) = f s"
  shows "keeps f (reserveCashLotsTx op w m)"
  unfolding reserveCashLotsTx_def holdFromLot_def insertFundingCash_def
  by (intro frame keeps_takeFromLot keeps_uuidT) (simp_all add: assms)

lemma keeps_allocateCashDebitTx:
  assumes "\<And>s n. f (s\<lparr>rng_pos := n\<rparr>) = f s" "\<And>s t. f (s\<lparr>cash_lots := t\<rparr>) = f s" "\<And>s t. f (s\<lparr>cash_allocations := t\<rparr>) = f s"
  shows "keeps f (allocateCashDebitTx w tx m)"
  unfolding allocateCashDebitTx_def debitFromLot_def
  by (intro frame keeps_takeFromLot keeps_debitRow) (simp_all add: assms)

lemma keeps_settleCashLotsTx:
  assumes "\<And>s n. f (s\<lparr>rng_pos := n\<rparr>) = f s" "\<And>s t. f (s\<lparr>cash_lots := t\<rparr>) = f s" "\<And>s t. f (s\<lparr>cash_allocations := t\<rparr>) = f s"
    "\<And>s t. f (s\<lparr>funding_cash := t\<rparr>) = f s"
  shows "keeps f (settleCashLotsTx op w tx m)"
  unfolding settleCashLotsTx_def settleHold_def settleFundingCash_def
  by (intro frame keeps_returnToLot keeps_debitRow keeps_allocateCashDebitTx) (simp_all add: assms)

lemma keeps_allocateChargebackTx:
  assumes "\<And>s n. f (s\<lparr>rng_pos := n\<rparr>) = f s" "\<And>s t. f (s\<lparr>cash_lots := t\<rparr>) = f s" "\<And>s t. f (s\<lparr>cash_allocations := t\<rparr>) = f s"
  shows "keeps f (allocateChargebackTx w ro tx m)"
  unfolding allocateChargebackTx_def debitRechargeCashLotTx_def debitFromLot_def
  by (intro frame keeps_takeFromLot keeps_debitRow) (simp_all add: assms)

lemma keeps_reserveRefundCashTx:
  assumes "\<And>s n. f (s\<lparr>rng_pos := n\<rparr>) = f s" "\<And>s t. f (s\<lparr>cash_lots := t\<rparr>) = f s" "\<And>s t. f (s\<lparr>refund_cash := t\<rparr>) = f s"
  shows "keeps f (reserveRefundCashTx rf w ro m)"
  unfolding reserveRefundCashTx_def insertRefundCash_def
  by (intro frame keeps_takeFromLot keeps_uuidT) (simp_all add: assms)

lemma keeps_settleRefundCashTx:
  assumes "\<And>s n. f (s\<lparr>rng_pos := n\<rparr>) = f s" "\<And>s t. f (s\<lparr>cash_lots := t\<rparr>) = f s" "\<And>s t. f (s\<lparr>cash_allocations := t\<rparr>) = f s"
    "\<And>s t. f (s\<lparr>refund_cash := t\<rparr>) = f s"
  shows "keeps f (settleRefundCashTx rf w tx ok)"
  unfolding settleRefundCashTx_def settleRefundCash_def
  by (intro frame keeps_returnToLot keeps_debitRow) (simp_all add: assms)

lemma keeps_createCashLotTx:
  assumes "\<And>s n. f (s\<lparr>rng_pos := n\<rparr>) = f s" "\<And>s t. f (s\<lparr>cash_lots := t\<rparr>) = f s"
  shows "keeps f (createCashLotTx w ro tx k ref m cur rfd)"
  unfolding createCashLotTx_def by (intro frame keeps_uuidT) (simp_all add: assms)

lemma keeps_restoreCashAllocationTx:
  assumes "\<And>s n. f (s\<lparr>rng_pos := n\<rparr>) = f s" "\<And>s t. f (s\<lparr>cash_lots := t\<rparr>) = f s" "\<And>s t. f (s\<lparr>cash_allocations := t\<rparr>) = f s"
  shows "keeps f (restoreCashAllocationTx w src rtx m)"
  unfolding restoreCashAllocationTx_def restoreStep_def insertCashAllocation_def
  by (intro frame keeps_returnToLot keeps_uuidT) (simp_all add: assms)

text \<open>Settling an operation's holds leaves the holds of other operations alone, and creates none.\<close>

lemma settleHold_rows:
  assumes "settleHold w tx item c s = Inr (u, s')"
  obtains g where "funding_cash s' = update_where (\<lambda>f. fc_id f = fc_id item) g (funding_cash s)"
    "\<forall>f. fc_id (g f) = fc_id f \<and> fc_operation (g f) = fc_operation f \<and> fc_lot (g f) = fc_lot f"
proof -
  define r where "r = fc_reserved item - c"
  from assms obtain v1 v2 s1 s2 where
    1: "whenT (0 < r) (bindT (returnToLot (fc_lot item) w r) (\<lambda>n. unlessT (n = 1) ErrFinanceState)) s = Inr (v1, s1)"
    and 2: "whenT (0 < c) (thenT (unlessT (tx \<noteq> []) ErrFinanceState) (debitRow w tx (Some (fc_lot item)) c)) s1 = Inr (v2, s2)"
    and 3: "settleFundingCash (fc_id item) c r s2 = Inr (u, s')"
    unfolding settleHold_def Let_def r_def by auto
  have "funding_cash s1 = funding_cash s"
    by (rule keepsD [rotated], rule 1) (intro frame keeps_returnToLot, simp)
  moreover have "funding_cash s2 = funding_cash s1"
    by (rule keepsD [rotated], rule 2) (intro frame keeps_debitRow, simp_all)
  ultimately show thesis
    using settleFundingCash_Inr [OF 3] by (intro that [of "\<lambda>f. f\<lparr>fc_consumed := c, fc_released := r, fc_settled := Some (clk s2)\<rparr>"]) auto
qed

lemma settleCashLotsTx_rows:
  assumes "settleCashLotsTx op w tx m s = Inr (u, s')" "distinct (map fc_id (funding_cash s))" "f' \<in> set (funding_cash s')"
  shows "fc_operation f' \<noteq> op \<longrightarrow> f' \<in> set (funding_cash s)"
    "(fc_operation f', fc_lot f') \<in> (\<lambda>f. (fc_operation f, fc_lot f)) ` set (funding_cash s)"
proof -
  from assms(1) obtain r t where g: "spreadT fc_reserved (settleHold w tx) (heldLots op s) m s = Inr (r, t)"
    and c: "(if 0 < r then allocateCashDebitTx w tx r else returnT ()) t = Inr (u, s')"
    by (auto simp: settleCashLotsTx_def)
  have "funding_cash s' = funding_cash t"
    by (rule keepsD [rotated], rule c) (intro frame keeps_allocateCashDebitTx, simp_all)
  define Q where "Q t \<longleftrightarrow> (\<forall>f' \<in> set (funding_cash t). (fc_operation f' \<noteq> op \<longrightarrow> f' \<in> set (funding_cash s)) \<and>
      (\<exists>f \<in> set (funding_cash s). fc_id f = fc_id f' \<and> fc_operation f = fc_operation f' \<and> fc_lot f = fc_lot f'))" for t :: db
  have "Q t"
  proof (rule spreadT_invariant [OF g])
    show "Q s" by (auto simp: Q_def)
  next
    fix x m s1 u t1
    assume x: "x \<in> set (heldLots op s)" and Q: "Q s1" and step: "settleHold w tx x m s1 = Inr (u, t1)"
    from step obtain g where g: "funding_cash t1 = update_where (\<lambda>f. fc_id f = fc_id x) g (funding_cash s1)"
      "\<forall>f. fc_id (g f) = fc_id f \<and> fc_operation (g f) = fc_operation f \<and> fc_lot (g f) = fc_lot f" by (rule settleHold_rows)
    have x': "x \<in> set (funding_cash s)" "fc_operation x = op" using x by (auto simp: heldLots_def)
    show "Q t1" unfolding Q_def
    proof
      fix f' assume "f' \<in> set (funding_cash t1)"
      then obtain q where q: "q \<in> set (funding_cash s1)" "f' = (if fc_id q = fc_id x then g q else q)"
        unfolding g(1) in_update_where by blast
      from Q q(1) obtain f where f: "f \<in> set (funding_cash s)" "fc_id f = fc_id q" "fc_operation f = fc_operation q" "fc_lot f = fc_lot q"
        and o: "fc_operation q \<noteq> op \<longrightarrow> q \<in> set (funding_cash s)" by (auto simp: Q_def)
      have "fc_id q = fc_id x \<Longrightarrow> fc_operation q = op"
        using distinct_key_eq [OF assms(2) f(1) x'(1)] f x' by metis
      then show "(fc_operation f' \<noteq> op \<longrightarrow> f' \<in> set (funding_cash s)) \<and>
         (\<exists>f \<in> set (funding_cash s). fc_id f = fc_id f' \<and> fc_operation f = fc_operation f' \<and> fc_lot f = fc_lot f')"
        using q f g(2) o by (metis (full_types))
    qed
  qed
  then show "fc_operation f' \<noteq> op \<longrightarrow> f' \<in> set (funding_cash s)"
    "(fc_operation f', fc_lot f') \<in> (\<lambda>f. (fc_operation f, fc_lot f)) ` set (funding_cash s)"
    using assms(3) \<open>funding_cash s' = funding_cash t\<close> by (auto simp: Q_def image_iff) metis
qed

end
