(* ===== verification/Promotion.thy ===== *)
theory Promotion
  imports Store Allocation
begin

text \<open>
  Promotional credit (\<^verbatim>\<open>internal/store/finance.go\<close>, lines 370-528): credit is moved out of a grant
  before the provider call (\<open>reservePromotionTx\<close>), the unused part returns to its grant when the
  request settles (\<open>settlePromotionTx\<close>), and a reversal returns what was consumed
  (\<open>reversePromotionTx\<close>). \<open>creditTotal\<close>, what a grant still has plus what is allocated and has not come
  back, is the same before and after each of them.
\<close>

definition creditChecks :: "PromotionCredit \<Rightarrow> bool" where
  "creditChecks c \<longleftrightarrow> 0 \<le> pc_remaining c \<and> pc_remaining c \<le> pc_granted c"

definition updateCredit :: "string \<Rightarrow> (PromotionCredit \<Rightarrow> PromotionCredit) \<Rightarrow> unit dbtx" where
  "updateCredit cid g =
     thenT (checkT (\<lambda>s. list_all (\<lambda>c. pc_id c = cid \<longrightarrow> creditChecks (g c)) (promotions s))
              (ErrConstraint ''promotion_credit_amount_remaining_check''))
           (modifyT (\<lambda>s. s\<lparr>promotions := update_where (\<lambda>c. pc_id c = cid) g (promotions s)\<rparr>))"

definition insertPromotionAllocation :: "PromotionAllocation \<Rightarrow> unit dbtx" where
  "insertPromotionAllocation a =
     thenT (unlessT (0 < pa_reserved a) (ErrConstraint ''funding_promotion_allocation_reserved_amount_check''))
    (thenT (checkT (\<lambda>s. unused (\<lambda>b. pa_id b = pa_id a) (promotion_allocations s)) (ErrConstraint ''funding_promotion_allocation_pkey''))
    (thenT (checkT (\<lambda>s. unused (\<lambda>b. pa_operation b = pa_operation a \<and> pa_credit b = pa_credit a) (promotion_allocations s))
              (ErrConstraint ''funding_promotion_allocation_operation_id_promotion_credit__key''))
           (modifyT (\<lambda>s. s\<lparr>promotion_allocations := promotion_allocations s @ [a]\<rparr>))))"

text \<open>The row \<open>CHECK\<close>s and the protecting trigger: amounts only grow, within what was reserved.\<close>

definition allocationUpdateAllowed :: "PromotionAllocation \<Rightarrow> PromotionAllocation \<Rightarrow> bool" where
  "allocationUpdateAllowed old new \<longleftrightarrow> pa_consumed old \<le> pa_consumed new \<and> pa_released old \<le> pa_released new \<and>
     pa_reversed old \<le> pa_reversed new \<and> pa_consumed new + pa_released new \<le> pa_reserved new \<and> pa_reversed new \<le> pa_consumed new"

definition updatePromotionAllocation :: "string \<Rightarrow> (PromotionAllocation \<Rightarrow> PromotionAllocation) \<Rightarrow> unit dbtx" where
  "updatePromotionAllocation aid g =
     thenT (checkT (\<lambda>s. list_all (\<lambda>a. pa_id a = aid \<longrightarrow> allocationUpdateAllowed a (g a)) (promotion_allocations s))
              (ErrConstraint ''funding_promotion_allocation_protect_trigger''))
           (modifyT (\<lambda>s. s\<lparr>promotion_allocations := update_where (\<lambda>a. pa_id a = aid) g (promotion_allocations s)\<rparr>))"

text \<open>The credits a request may use: the next to expire first.\<close>

definition usableCredits :: "string \<Rightarrow> string \<Rightarrow> db \<Rightarrow> PromotionCredit list" where
  "usableCredits organizationID currency s =
     sort_key (\<lambda>c. ((case pc_expires c of None \<Rightarrow> (1 :: int, 0) | Some e \<Rightarrow> (0, e)), pc_created c, pc_id c))
       (filter (\<lambda>c. pc_org c = organizationID \<and> pc_currency c = currency \<and> pc_status c = P_ACTIVE \<and> 0 < pc_remaining c \<and>
                    (case pc_expires c of None \<Rightarrow> True | Some e \<Rightarrow> clk s < e)) (promotions s))"

definition reserveCredit :: "string \<Rightarrow> PromotionCredit \<Rightarrow> money \<Rightarrow> unit dbtx" where
  "reserveCredit operationID item amount =
     thenT (updateCredit (pc_id item) (\<lambda>c. c\<lparr>pc_remaining := pc_remaining c - amount,
              pc_status := (if pc_remaining c - amount = 0 then P_EXHAUSTED else pc_status c)\<rparr>))
    (bindT uuidT (\<lambda>aid. bindT (getT clk) (\<lambda>now.
       insertPromotionAllocation \<lparr>pa_id = aid, pa_operation = operationID, pa_credit = pc_id item, pa_reserved = amount,
         pa_consumed = 0, pa_released = 0, pa_reversed = 0, pa_created = now\<rparr>)))"

definition reservePromotionTx :: "string \<Rightarrow> string \<Rightarrow> string \<Rightarrow> money \<Rightarrow> money dbtx" where
  "reservePromotionTx operationID organizationID currency maximum =
     (if maximum \<le> 0 then returnT 0
      else bindT (getT (usableCredits organizationID currency)) (\<lambda>credits.
           bindT (greedyT pc_remaining (reserveCredit operationID) credits maximum) (\<lambda>remaining.
           returnT (maximum - remaining))))"

definition operationCredits :: "string \<Rightarrow> db \<Rightarrow> PromotionAllocation list" where
  "operationCredits operationID s =
     sort_key (\<lambda>a. (pa_created a, pa_id a)) (filter (\<lambda>a. pa_operation a = operationID) (promotion_allocations s))"

definition settleCredit :: "PromotionAllocation \<Rightarrow> money \<Rightarrow> unit dbtx" where
  "settleCredit item used =
     (let release = pa_reserved item - used in
      thenT (updatePromotionAllocation (pa_id item) (\<lambda>a. a\<lparr>pa_consumed := used, pa_released := release\<rparr>))
            (whenT (0 < release) (updateCredit (pa_credit item) (\<lambda>c. c\<lparr>pc_remaining := pc_remaining c + release, pc_status := P_ACTIVE\<rparr>))))"

definition settlePromotionTx :: "string \<Rightarrow> money \<Rightarrow> money dbtx" where
  "settlePromotionTx operationID actualPromotion =
     bindT (getT (operationCredits operationID)) (\<lambda>items.
     bindT (spreadT pa_reserved settleCredit items actualPromotion) (\<lambda>remaining.
     returnT (actualPromotion - remaining)))"

definition releaseAllPromotionTx :: "string \<Rightarrow> unit dbtx" where
  "releaseAllPromotionTx operationID = thenT (settlePromotionTx operationID 0) (returnT ())"

definition reversibleCredits :: "string \<Rightarrow> db \<Rightarrow> PromotionAllocation list" where
  "reversibleCredits operationID s =
     rev (sort_key (\<lambda>a. (pa_created a, pa_id a))
       (filter (\<lambda>a. pa_operation a = operationID \<and> pa_reversed a < pa_consumed a) (promotion_allocations s)))"

definition reverseCredit :: "PromotionAllocation \<Rightarrow> money \<Rightarrow> unit dbtx" where
  "reverseCredit item amount =
     thenT (updatePromotionAllocation (pa_id item) (\<lambda>a. a\<lparr>pa_reversed := pa_reversed a + amount\<rparr>))
    (bindT (getT clk) (\<lambda>now.
       updateCredit (pa_credit item) (\<lambda>c. c\<lparr>pc_remaining := pc_remaining c + amount,
         pc_status := (case pc_expires c of Some e \<Rightarrow> if e \<le> now then P_EXPIRED else P_ACTIVE | None \<Rightarrow> P_ACTIVE)\<rparr>)))"

definition reversePromotionTx :: "string \<Rightarrow> money \<Rightarrow> money dbtx" where
  "reversePromotionTx operationID requested =
     (if requested \<le> 0 then returnT 0
      else bindT (getT (reversibleCredits operationID)) (\<lambda>items.
           bindT (greedyT (\<lambda>a. pa_consumed a - pa_reversed a) reverseCredit items requested) (\<lambda>remaining.
           thenT (unlessT (remaining \<le> 0) ErrFinanceState)
                 (returnT (requested - remaining)))))"

section \<open>Conservation of a grant\<close>

definition creditOut :: "db \<Rightarrow> string \<Rightarrow> money" where
  "creditOut s cid = column_sum (\<lambda>a. pa_credit a = cid) (\<lambda>a. pa_reserved a - pa_released a - pa_reversed a) (promotion_allocations s)"

definition creditLeft :: "db \<Rightarrow> string \<Rightarrow> money" where
  "creditLeft s cid = column_sum (\<lambda>c. pc_id c = cid) pc_remaining (promotions s)"

definition creditTotal :: "db \<Rightarrow> string \<Rightarrow> money" where
  "creditTotal s cid = creditLeft s cid + creditOut s cid"

definition promotion_wf :: "db \<Rightarrow> bool" where
  "promotion_wf s \<longleftrightarrow> distinct (map pc_id (promotions s)) \<and> distinct (map pa_id (promotion_allocations s)) \<and>
     (\<forall>c \<in> set (promotions s). 0 \<le> pc_remaining c \<and> pc_remaining c \<le> pc_granted c) \<and>
     (\<forall>a \<in> set (promotion_allocations s). pa_credit a \<in> pc_id ` set (promotions s) \<and> 0 < pa_reserved a \<and>
        pa_reversed a \<le> pa_consumed a \<and> pa_consumed a + pa_released a \<le> pa_reserved a)"

text \<open>What an operation has reserved, consumed and taken back of promotional credit.\<close>

definition promotionReserved :: "string \<Rightarrow> db \<Rightarrow> money" where
  "promotionReserved op s = column_sum (\<lambda>a. pa_operation a = op) pa_reserved (promotion_allocations s)"

definition promotionConsumed :: "string \<Rightarrow> db \<Rightarrow> money" where
  "promotionConsumed op s = column_sum (\<lambda>a. pa_operation a = op) pa_consumed (promotion_allocations s)"

definition promotionReversed :: "string \<Rightarrow> db \<Rightarrow> money" where
  "promotionReversed op s = column_sum (\<lambda>a. pa_operation a = op) pa_reversed (promotion_allocations s)"

section \<open>Effects of the steps\<close>

lemma updateCredit_Inr:
  "updateCredit cid g s = Inr (u, s') \<longleftrightarrow> s' = s\<lparr>promotions := update_where (\<lambda>c. pc_id c = cid) g (promotions s)\<rparr> \<and>
     (\<forall>c \<in> set (promotions s). pc_id c = cid \<longrightarrow> creditChecks (g c))"
  by (auto simp: updateCredit_def bindT_def thenT_def modifyT_def checkT_def list_all_iff)

lemma updatePromotionAllocation_Inr:
  "updatePromotionAllocation aid g s = Inr (u, s') \<longleftrightarrow>
     s' = s\<lparr>promotion_allocations := update_where (\<lambda>a. pa_id a = aid) g (promotion_allocations s)\<rparr> \<and>
     (\<forall>a \<in> set (promotion_allocations s). pa_id a = aid \<longrightarrow> allocationUpdateAllowed a (g a))"
  by (auto simp: updatePromotionAllocation_def bindT_def thenT_def modifyT_def checkT_def list_all_iff)

lemma insertPromotionAllocation_Inr:
  "insertPromotionAllocation a s = Inr (u, s') \<Longrightarrow>
     s' = s\<lparr>promotion_allocations := promotion_allocations s @ [a]\<rparr> \<and> 0 < pa_reserved a \<and>
     pa_id a \<notin> pa_id ` set (promotion_allocations s)"
  by (auto simp: insertPromotionAllocation_def unused_def list_ex_iff)

text \<open>Writing the row of one grant changes what it has left by the amount written.\<close>

lemma creditLeft_update:
  assumes "distinct (map pc_id (promotions s))" "cid \<in> pc_id ` set (promotions s)"
    and "promotions s' = update_where (\<lambda>c. pc_id c = cid) g (promotions s)"
    and "\<And>c. pc_id (g c) = pc_id c \<and> pc_remaining (g c) = pc_remaining c + m"
  shows "creditLeft s' x = creditLeft s x + (if x = cid then m else 0)"
proof -
  from assms(2) obtain c where c: "c \<in> set (promotions s)" "pc_id c = cid" by auto
  show ?thesis
    using column_sum_update_key [OF assms(1) c(1) c(2), of "\<lambda>c. pc_id c = x" pc_remaining g] assms(4) c
    unfolding creditLeft_def assms(3) by auto
qed

lemma promotions_update_wf:
  assumes "promotion_wf s" "promotions s' = update_where (\<lambda>c. pc_id c = cid) g (promotions s)"
    and "\<forall>c \<in> set (promotions s). pc_id c = cid \<longrightarrow> creditChecks (g c)" "\<And>c. pc_id (g c) = pc_id c"
  shows "distinct (map pc_id (promotions s'))" "pc_id ` set (promotions s') = pc_id ` set (promotions s)"
    "\<forall>c \<in> set (promotions s'). 0 \<le> pc_remaining c \<and> pc_remaining c \<le> pc_granted c"
proof -
  have m: "map pc_id (promotions s') = map pc_id (promotions s)" unfolding assms(2) using assms(4) by (simp add: map_update_where)
  then show "distinct (map pc_id (promotions s'))" using assms(1) by (simp add: promotion_wf_def)
  show "pc_id ` set (promotions s') = pc_id ` set (promotions s)" using m by (metis set_map)
  show "\<forall>c \<in> set (promotions s'). 0 \<le> pc_remaining c \<and> pc_remaining c \<le> pc_granted c"
    unfolding assms(2) using assms(1,3) by (auto simp: in_update_where promotion_wf_def creditChecks_def)
qed

lemma reserveCredit_step:
  assumes "promotion_wf s" "reserveCredit op item m s = Inr (u, s')" "pc_id item \<in> pc_id ` set (promotions s)"
  shows "promotion_wf s'" "creditTotal s' x = creditTotal s x" "promotionReserved op s' = promotionReserved op s + m"
    "pc_id ` set (promotions s') = pc_id ` set (promotions s)"
proof -
  let ?g = "\<lambda>c. c\<lparr>pc_remaining := pc_remaining c - m, pc_status := (if pc_remaining c - m = 0 then P_EXHAUSTED else pc_status c)\<rparr>"
  define a where "a = \<lparr>pa_id = rng s (rng_pos s), pa_operation = op, pa_credit = pc_id item, pa_reserved = m,
         pa_consumed = 0, pa_released = 0, pa_reversed = 0, pa_created = clk s\<rparr>"
  from assms(2) have pr: "promotions s' = update_where (\<lambda>c. pc_id c = pc_id item) ?g (promotions s)"
    and pa: "promotion_allocations s' = promotion_allocations s @ [a]" and a: "0 < m" "pa_id a \<notin> pa_id ` set (promotion_allocations s)"
    and ck: "\<forall>c \<in> set (promotions s). pc_id c = pc_id item \<longrightarrow> creditChecks (?g c)"
    unfolding reserveCredit_def
    by (auto simp: updateCredit_Inr uuidT_def a_def creditChecks_def dest!: insertPromotionAllocation_Inr)
  have d: "distinct (map pc_id (promotions s))" using assms(1) by (simp add: promotion_wf_def)
  have left: "creditLeft s' x = creditLeft s x + (if x = pc_id item then - m else 0)"
    by (rule creditLeft_update [OF d _ pr]) (use assms(3) in auto)
  have "creditOut s' x = creditOut s x + (if x = pc_id item then m else 0)"
    unfolding creditOut_def pa by (simp add: a_def)
  then show "creditTotal s' x = creditTotal s x" using left by (simp add: creditTotal_def)
  show "promotionReserved op s' = promotionReserved op s + m" unfolding promotionReserved_def pa by (simp add: a_def)
  note w = promotions_update_wf [OF assms(1) pr ck]
  show "promotion_wf s'"
    using assms(1,3) w a unfolding promotion_wf_def pa by (auto simp: a_def)
  show "pc_id ` set (promotions s') = pc_id ` set (promotions s)" by (rule w) simp
qed

text \<open>Writing the row of one allocation.\<close>

lemma creditOut_update:
  assumes "distinct (map pa_id (promotion_allocations s))" "item \<in> set (promotion_allocations s)"
    and "promotion_allocations s' = update_where (\<lambda>a. pa_id a = pa_id item) g (promotion_allocations s)"
    and "pa_credit (g item) = pa_credit item"
    and "pa_reserved (g item) - pa_released (g item) - pa_reversed (g item) = pa_reserved item - pa_released item - pa_reversed item - m"
  shows "creditOut s' x = creditOut s x - (if x = pa_credit item then m else 0)"
  using column_sum_update_key [OF assms(1,2) refl, of "\<lambda>a. pa_credit a = x" "\<lambda>a. pa_reserved a - pa_released a - pa_reversed a" g]
    assms(4,5) unfolding creditOut_def assms(3) by auto

lemma allocation_update_wf:
  assumes "promotion_wf s" "promotion_allocations s' = update_where (\<lambda>a. pa_id a = aid) g (promotion_allocations s)"
    and "\<forall>a \<in> set (promotion_allocations s). pa_id a = aid \<longrightarrow> allocationUpdateAllowed a (g a)"
    and "\<And>a. pa_id (g a) = pa_id a \<and> pa_credit (g a) = pa_credit a \<and> pa_reserved (g a) = pa_reserved a"
    and w: "distinct (map pc_id (promotions s'))" "pc_id ` set (promotions s') = pc_id ` set (promotions s)"
    "\<forall>c \<in> set (promotions s'). 0 \<le> pc_remaining c \<and> pc_remaining c \<le> pc_granted c"
  shows "promotion_wf s'"
proof -
  have "map pa_id (promotion_allocations s') = map pa_id (promotion_allocations s)"
    unfolding assms(2) using assms(4) by (simp add: map_update_where)
  moreover have "pa_credit a \<in> pc_id ` set (promotions s) \<and> 0 < pa_reserved a \<and> pa_reversed a \<le> pa_consumed a \<and>
      pa_consumed a + pa_released a \<le> pa_reserved a" if "a \<in> set (promotion_allocations s')" for a
    using that assms(1,3,4) unfolding assms(2) promotion_wf_def
    by (auto simp: in_update_where allocationUpdateAllowed_def)
  ultimately show ?thesis using assms(1) w by (simp add: promotion_wf_def)
qed

lemma settleCredit_step:
  assumes "promotion_wf s" "settleCredit item c s = Inr (u, s')" "item \<in> set (promotion_allocations s)"
    "pa_consumed item = 0" "pa_released item = 0" "0 \<le> c" "c \<le> pa_reserved item"
  shows "promotion_wf s'" "creditTotal s' x = creditTotal s x" "promotionConsumed (pa_operation item) s' = promotionConsumed (pa_operation item) s + c"
    "\<And>a. a \<in> set (promotion_allocations s) \<Longrightarrow> pa_id a \<noteq> pa_id item \<Longrightarrow> a \<in> set (promotion_allocations s')"
proof -
  define r where "r = pa_reserved item - c"
  let ?g = "\<lambda>a. a\<lparr>pa_consumed := c, pa_released := r\<rparr>"
  let ?h = "\<lambda>k. k\<lparr>pc_remaining := pc_remaining k + r, pc_status := P_ACTIVE\<rparr>"
  from assms(2) obtain t v where 1: "updatePromotionAllocation (pa_id item) ?g s = Inr (v, t)"
    and 2: "whenT (0 < r) (updateCredit (pa_credit item) ?h) t = Inr (u, s')"
    unfolding settleCredit_def Let_def r_def by auto
  from 1 have t: "t = s\<lparr>promotion_allocations := update_where (\<lambda>a. pa_id a = pa_id item) ?g (promotion_allocations s)\<rparr>"
    and ck: "\<forall>a \<in> set (promotion_allocations s). pa_id a = pa_id item \<longrightarrow> allocationUpdateAllowed a (?g a)"
    by (auto simp: updatePromotionAllocation_Inr)
  have d: "distinct (map pc_id (promotions s))" "distinct (map pa_id (promotion_allocations s))"
    "pa_credit item \<in> pc_id ` set (promotions s)"
    using assms(1,3) by (auto simp: promotion_wf_def)
  have pa: "promotion_allocations s' = update_where (\<lambda>a. pa_id a = pa_id item) ?g (promotion_allocations s)"
    using 2 t by (auto simp: whenT_Inr updateCredit_Inr split: if_splits)
  have pr: "(\<forall>x. creditLeft s' x = creditLeft s x + (if x = pa_credit item then r else 0)) \<and>
      distinct (map pc_id (promotions s')) \<and> pc_id ` set (promotions s') = pc_id ` set (promotions s) \<and>
      (\<forall>c \<in> set (promotions s'). 0 \<le> pc_remaining c \<and> pc_remaining c \<le> pc_granted c)"
  proof (cases "0 < r")
    case True
    with 2 t have p: "promotions s' = update_where (\<lambda>k. pc_id k = pa_credit item) ?h (promotions s)"
      and k: "\<forall>k \<in> set (promotions s). pc_id k = pa_credit item \<longrightarrow> creditChecks (?h k)"
      by (auto simp: whenT_Inr updateCredit_Inr)
    show ?thesis
      using creditLeft_update [OF d(1,3) p] promotions_update_wf [OF assms(1) p k] by simp
  next
    case False
    then have "r = 0" using assms(7) by (simp add: r_def)
    then show ?thesis using 2 t assms(1) by (simp add: whenT_Inr creditLeft_def promotion_wf_def)
  qed
  have "creditOut s' x = creditOut s x - (if x = pa_credit item then r else 0)"
    by (rule creditOut_update [OF d(2) assms(3) pa]) (simp_all add: assms(4,5))
  then show "creditTotal s' x = creditTotal s x" using pr by (simp add: creditTotal_def)
  show "promotion_wf s'" by (rule allocation_update_wf [OF assms(1) pa ck]) (use pr in simp_all)
  show "promotionConsumed (pa_operation item) s' = promotionConsumed (pa_operation item) s + c"
    using column_sum_update_key [OF d(2) assms(3) refl, of "\<lambda>a. pa_operation a = pa_operation item" pa_consumed ?g] assms(4)
    unfolding promotionConsumed_def pa by simp
  show "\<And>a. a \<in> set (promotion_allocations s) \<Longrightarrow> pa_id a \<noteq> pa_id item \<Longrightarrow> a \<in> set (promotion_allocations s')"
    unfolding pa in_update_where by auto
qed

lemma reverseCredit_step:
  assumes "promotion_wf s" "reverseCredit item m s = Inr (u, s')" "item \<in> set (promotion_allocations s)"
  shows "promotion_wf s'" "creditTotal s' x = creditTotal s x" "promotionReversed (pa_operation item) s' = promotionReversed (pa_operation item) s + m"
    "\<And>a. a \<in> set (promotion_allocations s) \<Longrightarrow> pa_id a \<noteq> pa_id item \<Longrightarrow> a \<in> set (promotion_allocations s')"
proof -
  let ?g = "\<lambda>a. a\<lparr>pa_reversed := pa_reversed a + m\<rparr>"
  define h where "h = (\<lambda>c. c\<lparr>pc_remaining := pc_remaining c + m,
         pc_status := (case pc_expires c of Some e \<Rightarrow> if e \<le> clk s then P_EXPIRED else P_ACTIVE | None \<Rightarrow> P_ACTIVE)\<rparr> :: PromotionCredit)"
  from assms(2) obtain t v where 1: "updatePromotionAllocation (pa_id item) ?g s = Inr (v, t)"
    and 2: "updateCredit (pa_credit item) (\<lambda>c. c\<lparr>pc_remaining := pc_remaining c + m,
         pc_status := (case pc_expires c of Some e \<Rightarrow> if e \<le> clk t then P_EXPIRED else P_ACTIVE | None \<Rightarrow> P_ACTIVE)\<rparr>) t = Inr (u, s')"
    unfolding reverseCredit_def by auto
  from 1 have t: "t = s\<lparr>promotion_allocations := update_where (\<lambda>a. pa_id a = pa_id item) ?g (promotion_allocations s)\<rparr>"
    and ck: "\<forall>a \<in> set (promotion_allocations s). pa_id a = pa_id item \<longrightarrow> allocationUpdateAllowed a (?g a)"
    by (auto simp: updatePromotionAllocation_Inr)
  have now: "clk t = clk s" unfolding t by simp
  have "updateCredit (pa_credit item) h t = Inr (u, s')" using 2 unfolding now h_def .
  then have pa: "promotion_allocations s' = update_where (\<lambda>a. pa_id a = pa_id item) ?g (promotion_allocations s)"
    and p: "promotions s' = update_where (\<lambda>k. pc_id k = pa_credit item) h (promotions s)"
    and k: "\<forall>k \<in> set (promotions s). pc_id k = pa_credit item \<longrightarrow> creditChecks (h k)"
    unfolding updateCredit_Inr t by simp_all
  have d: "distinct (map pc_id (promotions s))" "distinct (map pa_id (promotion_allocations s))"
    "pa_credit item \<in> pc_id ` set (promotions s)"
    using assms(1,3) by (auto simp: promotion_wf_def)
  have left: "creditLeft s' x = creditLeft s x + (if x = pa_credit item then m else 0)"
    by (rule creditLeft_update [OF d(1,3) p]) (simp add: h_def)
  have "creditOut s' x = creditOut s x - (if x = pa_credit item then m else 0)"
    by (rule creditOut_update [OF d(2) assms(3) pa]) simp_all
  then show "creditTotal s' x = creditTotal s x" using left by (simp add: creditTotal_def)
  show "promotion_wf s'"
    by (rule allocation_update_wf [OF assms(1) pa ck]) (use promotions_update_wf [OF assms(1) p k] in \<open>simp_all add: h_def\<close>)
  show "promotionReversed (pa_operation item) s' = promotionReversed (pa_operation item) s + m"
    using column_sum_update_key [OF d(2) assms(3) refl, of "\<lambda>a. pa_operation a = pa_operation item" pa_reversed ?g]
    unfolding promotionReversed_def pa by simp
  show "\<And>a. a \<in> set (promotion_allocations s) \<Longrightarrow> pa_id a \<noteq> pa_id item \<Longrightarrow> a \<in> set (promotion_allocations s')"
    unfolding pa in_update_where by auto
qed

section \<open>The loops\<close>

interpretation promotion_reserve_loop: allocation_loop pc_remaining "reserveCredit op"
    "\<lambda>xs s. promotion_wf s \<and> creditTotal s = tot \<and> (\<forall>x \<in> set xs. 0 < pc_remaining x \<and> pc_id x \<in> pc_id ` set (promotions s))"
    "promotionReserved op"
proof
  fix x xs m u and s s' :: db
  assume P: "promotion_wf s \<and> creditTotal s = tot \<and> (\<forall>x \<in> set (x # xs). 0 < pc_remaining x \<and> pc_id x \<in> pc_id ` set (promotions s))"
    and step: "reserveCredit op x m s = Inr (u, s')"
  then have "pc_id x \<in> pc_id ` set (promotions s)" by simp
  note st = reserveCredit_step [OF _ step this]
  show "(promotion_wf s' \<and> creditTotal s' = tot \<and> (\<forall>x \<in> set xs. 0 < pc_remaining x \<and> pc_id x \<in> pc_id ` set (promotions s'))) \<and>
      promotionReserved op s' = promotionReserved op s + m"
    using P st by (auto simp: fun_eq_iff)
qed simp

definition settleableCredits :: "string \<Rightarrow> (string \<Rightarrow> money) \<Rightarrow> PromotionAllocation list \<Rightarrow> db \<Rightarrow> bool" where
  "settleableCredits op tot xs s \<longleftrightarrow> promotion_wf s \<and> creditTotal s = tot \<and> distinct (map pa_id xs) \<and>
     (\<forall>x \<in> set xs. x \<in> set (promotion_allocations s) \<and> pa_operation x = op \<and> pa_consumed x = 0 \<and> pa_released x = 0)"

interpretation promotion_settle_loop: allocation_loop pa_reserved settleCredit "settleableCredits op tot" "promotionConsumed op"
proof
  fix x xs and s :: db
  assume "settleableCredits op tot (x # xs) s"
  then show "0 < pa_reserved x" by (simp add: settleableCredits_def promotion_wf_def)
next
  fix x xs m u and s s' :: db
  assume P: "settleableCredits op tot (x # xs) s" and m: "0 \<le> m" "m \<le> pa_reserved x" and step: "settleCredit x m s = Inr (u, s')"
  from P have x: "promotion_wf s" "x \<in> set (promotion_allocations s)" "pa_consumed x = 0" "pa_released x = 0" "pa_operation x = op"
    by (simp_all add: settleableCredits_def)
  note st = settleCredit_step [OF x(1) step x(2-4) m]
  have "y \<in> set (promotion_allocations s')" if "y \<in> set xs" for y
  proof (rule st(4))
    show "y \<in> set (promotion_allocations s)" using P that by (simp add: settleableCredits_def)
    have "pa_id x \<notin> pa_id ` set xs" using P by (simp add: settleableCredits_def)
    then show "pa_id y \<noteq> pa_id x" using that by (metis imageI)
  qed
  then show "settleableCredits op tot xs s' \<and> promotionConsumed op s' = promotionConsumed op s + m"
    using P st(1,2,3) x(5) by (auto simp: settleableCredits_def fun_eq_iff)
qed

definition reversibleItems :: "string \<Rightarrow> (string \<Rightarrow> money) \<Rightarrow> PromotionAllocation list \<Rightarrow> db \<Rightarrow> bool" where
  "reversibleItems op tot xs s \<longleftrightarrow> promotion_wf s \<and> creditTotal s = tot \<and> distinct (map pa_id xs) \<and>
     (\<forall>x \<in> set xs. x \<in> set (promotion_allocations s) \<and> pa_operation x = op \<and> pa_reversed x < pa_consumed x)"

interpretation promotion_reverse_loop: allocation_loop "\<lambda>a. pa_consumed a - pa_reversed a" reverseCredit "reversibleItems op tot" "promotionReversed op"
proof
  fix x xs and s :: db
  assume "reversibleItems op tot (x # xs) s"
  then show "0 < pa_consumed x - pa_reversed x" by (simp add: reversibleItems_def)
next
  fix x xs m u and s s' :: db
  assume P: "reversibleItems op tot (x # xs) s" and step: "reverseCredit x m s = Inr (u, s')"
  from P have x: "promotion_wf s" "x \<in> set (promotion_allocations s)" "pa_operation x = op"
    by (simp_all add: reversibleItems_def)
  note st = reverseCredit_step [OF x(1) step x(2)]
  have "y \<in> set (promotion_allocations s')" if "y \<in> set xs" for y
  proof (rule st(4))
    show "y \<in> set (promotion_allocations s)" using P that by (simp add: reversibleItems_def)
    have "pa_id x \<notin> pa_id ` set xs" using P by (simp add: reversibleItems_def)
    then show "pa_id y \<noteq> pa_id x" using that by (metis imageI)
  qed
  then show "reversibleItems op tot xs s' \<and> promotionReversed op s' = promotionReversed op s + m"
    using P st(1,2,3) x(3) by (auto simp: reversibleItems_def fun_eq_iff)
qed

section \<open>The operations\<close>

lemma reservePromotionTx_ok:
  assumes "promotion_wf s" "reservePromotionTx op org cur m s = Inr (r, s')"
  shows "promotion_wf s'" "creditTotal s' = creditTotal s" "promotionReserved op s' = promotionReserved op s + r"
    "r = min (max 0 m) (sum_list (map pc_remaining (usableCredits org cur s)))"
proof -
  let ?cs = "usableCredits org cur s"
  have pos: "\<forall>c \<in> set ?cs. 0 < pc_remaining c" by (auto simp: usableCredits_def)
  have P: "promotion_wf s \<and> creditTotal s = creditTotal s \<and> (\<forall>x \<in> set ?cs. 0 < pc_remaining x \<and> pc_id x \<in> pc_id ` set (promotions s))"
    using assms(1) by (auto simp: usableCredits_def)
  have "promotion_wf s' \<and> creditTotal s' = creditTotal s \<and> promotionReserved op s' = promotionReserved op s + r \<and>
    r = min (max 0 m) (sum_list (map pc_remaining ?cs))"
  proof (cases "m \<le> 0")
    case True
    with assms sum_list_pos [OF pos] show ?thesis by (auto simp: reservePromotionTx_def)
  next
    case False
    with assms(2) obtain k where g: "greedyT pc_remaining (reserveCredit op) ?cs m s = Inr (k, s')" and r: "r = m - k"
      by (auto simp: reservePromotionTx_def)
    from promotion_reserve_loop.greedyT_ok [OF P _ g] greedyT_remaining [OF g _ pos] sum_list_pos [OF pos] False r
    show ?thesis by auto
  qed
  then show "promotion_wf s'" "creditTotal s' = creditTotal s" "promotionReserved op s' = promotionReserved op s + r"
    "r = min (max 0 m) (sum_list (map pc_remaining ?cs))" by auto
qed

lemma settlePromotionTx_ok:
  assumes "promotion_wf s" "settlePromotionTx op m s = Inr (r, s')" "0 \<le> m"
    and "\<forall>a \<in> set (promotion_allocations s). pa_operation a = op \<longrightarrow> pa_consumed a = 0 \<and> pa_released a = 0"
  shows "promotion_wf s'" "creditTotal s' = creditTotal s" "promotionConsumed op s' = promotionConsumed op s + r"
    "0 \<le> r" "r \<le> m"
proof -
  have "distinct (map pa_id (filter (\<lambda>a. pa_operation a = op) (promotion_allocations s)))"
    using assms(1) unfolding promotion_wf_def by (auto intro: distinct_map_filter)
  then have P: "settleableCredits op (creditTotal s) (operationCredits op s) s"
    using assms(1,4) by (auto simp: settleableCredits_def operationCredits_def distinct_map)
  from assms(2) obtain k where g: "spreadT pa_reserved settleCredit (operationCredits op s) m s = Inr (k, s')" and r: "r = m - k"
    by (auto simp: settlePromotionTx_def)
  from promotion_settle_loop.spreadT_ok [OF P assms(3) g] r
  show "promotion_wf s'" "creditTotal s' = creditTotal s" "promotionConsumed op s' = promotionConsumed op s + r" "0 \<le> r" "r \<le> m"
    by (auto simp: settleableCredits_def)
qed

lemma reversePromotionTx_ok:
  assumes "promotion_wf s" "reversePromotionTx op m s = Inr (r, s')"
  shows "promotion_wf s'" "creditTotal s' = creditTotal s" "promotionReversed op s' = promotionReversed op s + r" "r = max 0 m"
proof -
  have "distinct (map pa_id (filter (\<lambda>a. pa_operation a = op \<and> pa_reversed a < pa_consumed a) (promotion_allocations s)))"
    using assms(1) unfolding promotion_wf_def by (auto intro: distinct_map_filter)
  then have P: "reversibleItems op (creditTotal s) (reversibleCredits op s) s"
    using assms(1) by (auto simp: reversibleItems_def reversibleCredits_def distinct_map)
  have "promotion_wf s' \<and> creditTotal s' = creditTotal s \<and> promotionReversed op s' = promotionReversed op s + r \<and> r = max 0 m"
  proof (cases "m \<le> 0")
    case True
    with assms show ?thesis by (auto simp: reversePromotionTx_def)
  next
    case False
    with assms(2) obtain k where g: "greedyT (\<lambda>a. pa_consumed a - pa_reversed a) reverseCredit (reversibleCredits op s) m s = Inr (k, s')"
      and r: "r = m - k" "k \<le> 0"
      by (auto simp: reversePromotionTx_def)
    from promotion_reverse_loop.greedyT_ok [OF P _ g] False r show ?thesis by (auto simp: reversibleItems_def)
  qed
  then show "promotion_wf s'" "creditTotal s' = creditTotal s" "promotionReversed op s' = promotionReversed op s + r" "r = max 0 m" by auto
qed

section \<open>Frames\<close>

lemma keeps_updateCredit: "(\<And>s t. f (s\<lparr>promotions := t\<rparr>) = f s) \<Longrightarrow> keeps f (updateCredit cid g)"
  unfolding updateCredit_def by (intro frame) simp

lemma keeps_updatePromotionAllocation:
  "(\<And>s t. f (s\<lparr>promotion_allocations := t\<rparr>) = f s) \<Longrightarrow> keeps f (updatePromotionAllocation aid g)"
  unfolding updatePromotionAllocation_def by (intro frame) simp

lemma keeps_reservePromotionTx:
  assumes "\<And>s n. f (s\<lparr>rng_pos := n\<rparr>) = f s" "\<And>s t. f (s\<lparr>promotions := t\<rparr>) = f s" "\<And>s t. f (s\<lparr>promotion_allocations := t\<rparr>) = f s"
  shows "keeps f (reservePromotionTx op org cur m)"
  unfolding reservePromotionTx_def reserveCredit_def insertPromotionAllocation_def
  by (intro frame keeps_uuidT keeps_updateCredit) (simp_all add: assms)

lemma keeps_settlePromotionTx:
  assumes "\<And>s t. f (s\<lparr>promotions := t\<rparr>) = f s" "\<And>s t. f (s\<lparr>promotion_allocations := t\<rparr>) = f s"
  shows "keeps f (settlePromotionTx op m)"
  unfolding settlePromotionTx_def settleCredit_def
  by (intro frame keeps_updateCredit keeps_updatePromotionAllocation) (simp_all add: assms)

lemma keeps_reversePromotionTx:
  assumes "\<And>s t. f (s\<lparr>promotions := t\<rparr>) = f s" "\<And>s t. f (s\<lparr>promotion_allocations := t\<rparr>) = f s"
  shows "keeps f (reversePromotionTx op m)"
  unfolding reversePromotionTx_def reverseCredit_def
  by (intro frame keeps_updateCredit keeps_updatePromotionAllocation) (simp_all add: assms)

end
