(* ===== verification/Funding.thy ===== *)
theory Funding
  imports CashLots Promotion
begin

text \<open>
  Funding operations (\<^verbatim>\<open>internal/store/funding.go\<close>): the maximum cost of a request is reserved before
  the provider is called (\<open>ReserveFunding\<close>), the provider attempts are recorded and its budget held
  (\<open>BeginFundingAttempt\<close>, \<open>FinishFundingAttempt\<close>), and the actual cost is settled, the rest released
  (\<open>SettleFunding\<close>); stale operations are settled by the recovery worker (\<open>RecoverStaleFunding\<close>), and
  a settled amount is corrected (\<open>AdjustLateFundingUsage\<close>) or reversed (\<open>ReverseFunding\<close>).

  A text amount of a request is given by the value \<open>big.Rat.SetString\<close> reads from it (\<open>None\<close> when it
  is not a number). Stored amounts are \<open>money\<close>; where the code passes a stored amount to the pricing
  package as text, the text is \<open>numericText\<close>, what PostgreSQL prints for a \<open>NUMERIC(30,12)\<close>. The long
  handlers are cut into definitions in the order of the code; each is a part of the transaction.
\<close>

section \<open>Helpers\<close>

definition fundingRat :: "string \<Rightarrow> store_error + money" where
  "fundingRat value = (case ParseDecimal value of
       Inl e \<Rightarrow> Inl (ErrDecimal e)
     | Inr d \<Rightarrow> (case rat_SetString d of None \<Rightarrow> Inl (ErrInvalid ''invalid funding decimal'') | Some r \<Rightarrow> Inr (round12 r)))"

definition mustFundingRat :: "string \<Rightarrow> store_error + money" where
  "mustFundingRat value = (case fundingRat (zeroIfEmpty value) of Inl e \<Rightarrow> Inl Panic | Inr r \<Rightarrow> Inr r)"

definition isFundingTerminal :: "FundingStatus \<Rightarrow> bool" where
  "isFundingTerminal status \<longleftrightarrow> status = F_SETTLED \<or> status = F_PARTIALLY_SETTLED \<or> status = F_RELEASED \<or>
     status = F_FAILED \<or> status = F_REVERSED"

fun firstNonEmptyStore :: "string list \<Rightarrow> string" where
  "firstNonEmptyStore [] = []"
| "firstNonEmptyStore (value # values) = (if value \<noteq> [] then value else firstNonEmptyStore values)"

definition numericText :: "money \<Rightarrow> string" where
  "numericText m = FloatString 12 (rat_of_money m)"

definition rateText :: "int \<Rightarrow> string" where
  "rateText r = FloatString 8 (of_int r / 10 ^ 8)"

text \<open>The first day of the UTC month of a Unix time, as a date text.\<close>

definition civilMonth :: "int \<Rightarrow> int \<times> int" where
  "civilMonth days =
     (let z = days + 719468; era = z div 146097; doe = z mod 146097;
          yoe = (doe - doe div 1460 + doe div 36524 - doe div 146096) div 365;
          doy = doe - (365 * yoe + yoe div 4 - yoe div 100);
          mp = (5 * doy + 2) div 153;
          m = (if mp < 10 then mp + 3 else mp - 9);
          y = yoe + era * 400 + (if m \<le> 2 then 1 else 0) in (y, m))"

definition providerBudgetMonth :: "int \<Rightarrow> string" where
  "providerBudgetMonth now =
     (let (y, m) = civilMonth (now div 86400) in
      zero_pad 4 (digits_of_nat (nat y)) @ ''-'' @ zero_pad 2 (digits_of_nat (nat m)) @ ''-01'')"

definition insertFundingEvent :: "string \<Rightarrow> FundingStatus \<Rightarrow> money \<Rightarrow> string \<Rightarrow> unit dbtx" where
  "insertFundingEvent operationID status amount source =
     thenT uuidT (thenT (numericT amount)
    (thenT (unlessT (0 \<le> amount) (ErrConstraint ''funding_operation_event_amount_check''))
           (modifyT (\<lambda>s. s\<lparr>op_events := op_events s @ [\<lparr>ev_operation = operationID, ev_status = status, ev_amount = amount, ev_source = source\<rparr>]\<rparr>))))"

text \<open>The row \<open>CHECK\<close>s of \<open>funding_operation\<close>, its insert, and an \<open>UPDATE\<close> by identifier.\<close>

definition opChecks :: "FundingOperation \<Rightarrow> bool" where
  "opChecks o1 \<longleftrightarrow> 0 \<le> o_maximum o1 \<and> 0 \<le> o_promotion o1 \<and> 0 \<le> o_tax o1 \<and> 0 < o_exchange o1 \<and> 0 \<le> o_settled o1 \<and>
     0 \<le> o_released o1 \<and> 0 \<le> o_estimated_input o1 \<and> 0 \<le> o_max_output o1 \<and> 0 \<le> o_observed o1 \<and>
     0 \<le> o_consumed_promotion o1 \<and> o_consumed_promotion o1 \<le> o_promotion o1 \<and> 0 \<le> o_service_fee o1 \<and> 0 \<le> o_shadow o1 \<and>
     0 \<le> o_byok_fixed o1 \<and> 0 \<le> o_byok_input o1 \<and> 0 \<le> o_byok_cached o1 \<and> 0 \<le> o_byok_output o1 \<and> 0 < o_byok_unit o1 \<and>
     0 \<le> o_byok_bps o1 \<and> o_byok_bps o1 \<le> 10000 \<and> 0 \<le> o_byok_allowance o1"

definition opInRange :: "FundingOperation \<Rightarrow> bool" where
  "opInRange o1 \<longleftrightarrow> money_in_range (o_maximum o1) \<and> money_in_range (o_promotion o1) \<and> \<bar>o_tax o1\<bar> < 10 ^ 12 \<and>
     money_in_range (o_exchange o1) \<and> money_in_range (o_settled o1) \<and> money_in_range (o_released o1) \<and>
     money_in_range (o_consumed_promotion o1) \<and> money_in_range (o_service_fee o1) \<and> money_in_range (o_shadow o1)"

definition opById :: "string \<Rightarrow> db \<Rightarrow> FundingOperation option" where
  "opById oid s = find (\<lambda>o1. o_id o1 = oid) (operations s)"

definition insertOperation :: "FundingOperation \<Rightarrow> unit dbtx" where
  "insertOperation o1 =
     thenT (unlessT (opInRange o1) ErrNumericOverflow)
    (thenT (unlessT (opChecks o1) (ErrConstraint ''funding_operation_check''))
    (thenT (checkT (\<lambda>s. unused (\<lambda>q. o_id q = o_id o1) (operations s)) (ErrConstraint ''funding_operation_pkey''))
    (thenT (checkT (\<lambda>s. unused (\<lambda>q. o_request q = o_request o1) (operations s)) (ErrConstraint ''funding_operation_request_id_key''))
    (thenT (checkT (\<lambda>s. unused (\<lambda>q. o_org q = o_org o1 \<and> o_key q = o_key o1) (operations s))
              (ErrConstraint ''funding_operation_organization_id_idempotency_key_key''))
    (thenT (checkT (\<lambda>s. list_ex (\<lambda>w. w_id w = o_wallet o1) (wallets s)) (ErrConstraint ''funding_operation_wallet_id_fkey''))
    (thenT (checkT (\<lambda>s. case o_pricing o1 of None \<Rightarrow> True | Some v \<Rightarrow> list_ex (\<lambda>p. pv_id p = v) (price_versions s))
              (ErrConstraint ''funding_operation_pricing_version_id_fkey''))
           (modifyT (\<lambda>s. s\<lparr>operations := operations s @ [o1]\<rparr>))))))))"

definition updateOperation :: "string \<Rightarrow> (FundingOperation \<Rightarrow> FundingOperation) \<Rightarrow> unit dbtx" where
  "updateOperation oid g =
     thenT (checkT (\<lambda>s. list_all (\<lambda>q. o_id q = oid \<longrightarrow> opInRange (g q)) (operations s)) ErrNumericOverflow)
    (thenT (checkT (\<lambda>s. list_all (\<lambda>q. o_id q = oid \<longrightarrow> opChecks (g q)) (operations s)) (ErrConstraint ''funding_operation_check''))
           (modifyT (\<lambda>s. s\<lparr>operations := update_where (\<lambda>q. o_id q = oid) g (operations s)\<rparr>)))"

section \<open>Reservation\<close>

record FundingReservationRequest =
  fr_org :: string
  fr_project :: string
  fr_api_key :: string
  fr_request :: string
  fr_key :: string
  fr_fingerprint :: string
  fr_pricing :: string
  fr_currency :: string
  fr_maximum :: "rat option"
  fr_promotion :: "rat option"
  fr_tax :: "rat option"
  fr_exchange :: "rat option"
  fr_estimated_input :: int
  fr_max_output :: int
  fr_created_by :: "string option"

definition reservationValid :: "FundingReservationRequest \<Rightarrow> bool" where
  "reservationValid r \<longleftrightarrow> TrimSpace (fr_org r) \<noteq> [] \<and> TrimSpace (fr_project r) \<noteq> [] \<and> TrimSpace (fr_request r) \<noteq> [] \<and>
     TrimSpace (fr_key r) \<noteq> [] \<and> TrimSpace (fr_fingerprint r) \<noteq> [] \<and> 0 \<le> fr_estimated_input r \<and> 0 \<le> fr_max_output r"

text \<open>The admission test: prepaid funds, or the credit line where it is enforced.\<close>

definition walletAdmits :: "Wallet \<Rightarrow> rat \<Rightarrow> bool" where
  "walletAdmits w maximum =
     (let remaining = rat_of_money (w_available w) - maximum in
      if w_mode w = PREPAID then 0 \<le> remaining \<and> w_risk_exposure w \<le> w_risk_limit w
      else if w_credit_enforced w then 0 \<le> remaining + rat_of_money (w_credit_limit w) \<and> w_risk_exposure w \<le> w_risk_limit w
      else True)"

definition newOperation :: "FundingReservationRequest \<Rightarrow> Wallet \<Rightarrow> string \<Rightarrow> money \<Rightarrow> money \<Rightarrow> rat \<Rightarrow> rat \<Rightarrow> int \<Rightarrow> FundingOperation" where
  "newOperation r w oid maximum promotion tax exchange now =
     \<lparr>o_id = oid, o_wallet = w_id w, o_org = fr_org r, o_project = fr_project r, o_api_key = nullString (fr_api_key r),
      o_request = fr_request r, o_key = fr_key r, o_fingerprint = fr_fingerprint r, o_pricing = nullString (fr_pricing r),
      o_status = F_RESERVED, o_currency = w_currency w, o_maximum = maximum, o_promotion = promotion, o_consumed_promotion = 0,
      o_tax = signed_units 8 tax, o_exchange = round12 exchange, o_settled = 0, o_released = 0,
      o_estimated_input = fr_estimated_input r, o_max_output = fr_max_output r, o_actual = None, o_usage_source = [],
      o_observed = 0, o_failure = None, o_settled_at = None, o_released_at = None, o_heartbeat = now, o_created = now,
      o_owner = OwnerPLATFORM, o_credential = None, o_service_fee = 0, o_shadow = 0, o_byok_policy = None, o_byok_fixed = 0,
      o_byok_input = 0, o_byok_cached = 0, o_byok_output = 0, o_byok_unit = 1000000, o_byok_bps = 0, o_byok_allowance = 0\<rparr>"

text \<open>The writes of an admitted reservation.\<close>

definition placeReservation :: "FundingReservationRequest \<Rightarrow> Wallet \<Rightarrow> rat \<Rightarrow> FundingOperation dbtx" where
  "placeReservation r w maximum =
     bindT uuidT (\<lambda>operationID.
     bindT (liftT (case fr_promotion r of Some p \<Rightarrow> if p < 0 then Inl (ErrInvalid ''invalid promotion funding amount'') else Inr p
                     | None \<Rightarrow> Inl (ErrInvalid ''invalid promotion funding amount''))) (\<lambda>promotionRequested.
     bindT (liftT (case (fr_tax r, fr_exchange r) of (Some t, Some x) \<Rightarrow> Inr (t, x) | _ \<Rightarrow> Inl (ErrInvalid ''invalid input syntax for type numeric''))) (\<lambda>(tax, exchange).
     bindT (getT clk) (\<lambda>now.
     let amount = round12 maximum; promotion = round12 promotionRequested;
         walletID = w_id w; currency = w_currency w in
     thenT (insertOperation (newOperation r w operationID amount promotion tax exchange now))
    (thenT (reserveCashLotsTx operationID walletID amount)
    (bindT (reservePromotionTx operationID (fr_org r) currency promotion) (\<lambda>reservedPromotion.
     thenT (unlessT (reservedPromotion = promotion) ErrWalletUnavailable)
    (thenT (whenT (0 < maximum) (thenT (postJournalTx walletID J_RESERVATION (''funding:'' @ operationID @ '':reservation'') currency (fr_request r)
              [\<lparr>jl_key = walletAccountKey walletID ''available'', jl_side = DEBIT, jl_amount = amount\<rparr>,
               \<lparr>jl_key = walletAccountKey walletID ''reserved'', jl_side = CREDIT, jl_amount = amount\<rparr>]) (returnT ())))
    (thenT (updateWallet walletID (\<lambda>v. v\<lparr>w_available := w_available v - amount, w_reserved := w_reserved v + amount, w_version := w_version v + 1\<rparr>))
    (thenT (insertFundingEvent operationID F_RESERVED amount ''admission'')
    (thenT (writeAuditTx (fr_created_by r) ''wallet.funding_reserved'' operationID)
           (rowT ErrNotFound (opById operationID)))))))))))))"

definition ReserveFunding :: "FundingReservationRequest \<Rightarrow> (FundingOperation \<times> bool) dbtx" where
  "ReserveFunding r =
     thenT (unlessT (reservationValid r) (ErrInvalid ''invalid funding reservation''))
    (bindT (liftT (case fr_maximum r of Some m \<Rightarrow> if m < 0 then Inl (ErrInvalid ''invalid maximum funding amount'') else Inr m
                     | None \<Rightarrow> Inl (ErrInvalid ''invalid maximum funding amount''))) (\<lambda>maximum.
     bindT (rowT ErrNotFound (walletByOrg (fr_org r))) (\<lambda>w.
     bindT (getT (\<lambda>s. find (\<lambda>q. o_org q = fr_org r \<and> o_key q = fr_key r) (operations s))) (\<lambda>existing.
     case existing of
       Some q \<Rightarrow>
         if o_fingerprint q \<noteq> fr_fingerprint r \<or> o_project q \<noteq> fr_project r \<or>
            (case o_api_key q of None \<Rightarrow> [] | Some k \<Rightarrow> k) \<noteq> fr_api_key r
         then failT ErrIdempotencyConflict else returnT (q, True)
     | None \<Rightarrow>
         thenT (unlessT (w_status w = WalletACTIVE \<and> w_currency w = ToUpper (if fr_currency r = [] then ''USD'' else fr_currency r)) ErrWalletUnavailable)
        (thenT (unlessT (walletAdmits w maximum) ErrWalletUnavailable)
        (bindT (placeReservation r w maximum) (\<lambda>q. returnT (q, False))))))))"

section \<open>Settlement\<close>

record FundingSettlementRequest =
  fs_operation :: string
  fs_input :: int
  fs_cached :: int
  fs_output :: int
  fs_observed :: int
  fs_usage_source :: string
  fs_failure :: string
  fs_partial :: bool
  fs_waive :: bool
  fs_source :: string

definition zeroRate :: "int \<Rightarrow> string \<Rightarrow> Rate" where
  "zeroRate u currency = \<lparr>Input = ''0'', Cached = ''0'', Output = ''0'', Fixed = ''0'', Unit = u, Currency = currency\<rparr>"

definition tokensOf :: "int \<Rightarrow> int \<Rightarrow> int \<Rightarrow> Tokens" where
  "tokensOf i c out = \<lparr>InputTokens = i, CachedTokens = c, OutputTokens = out\<rparr>"

definition calculateE :: "Rate \<Rightarrow> Rate \<Rightarrow> Tokens \<Rightarrow> string \<Rightarrow> string \<Rightarrow> string \<Rightarrow> store_error + Result" where
  "calculateE cost retail tokens promotion tax exchange =
     (case Calculate cost retail tokens promotion tax exchange of Inl e \<Rightarrow> Inl (ErrPricing e) | Inr r \<Rightarrow> Inr r)"

definition versionById :: "string \<Rightarrow> db \<Rightarrow> PriceVersion option" where
  "versionById vid s = find (\<lambda>v. pv_id v = vid) (price_versions s)"

definition fundingAmountsForVersion ::
  "string \<Rightarrow> int \<Rightarrow> int \<Rightarrow> int \<Rightarrow> string \<Rightarrow> string \<Rightarrow> string \<Rightarrow> (string \<times> string) dbtx" where
  "fundingAmountsForVersion versionID input cached output promotion taxRate exchangeRate =
     bindT (rowT ErrNoRows (versionById versionID)) (\<lambda>v.
     bindT (liftT (calculateE (zeroRate (Unit (pv_retail v)) (Currency (pv_retail v))) (pv_retail v) (tokensOf input cached output)
                     promotion taxRate exchangeRate)) (\<lambda>res.
     returnT (FinalAmount res, PromotionAmount res)))"

definition fundingAmountForVersion ::
  "string \<Rightarrow> int \<Rightarrow> int \<Rightarrow> int \<Rightarrow> string \<Rightarrow> string \<Rightarrow> string \<Rightarrow> string dbtx" where
  "fundingAmountForVersion versionID input cached output promotion taxRate exchangeRate =
     bindT (fundingAmountsForVersion versionID input cached output promotion taxRate exchangeRate) (\<lambda>(amount, _). returnT amount)"

text \<open>The basis-point fee on the part of the month's shadow spend beyond the free allowance.\<close>

definition incrementalBillable :: "money \<Rightarrow> money \<Rightarrow> money \<Rightarrow> money" where
  "incrementalBillable current shadow allowance = max 0 (current + shadow - allowance) - max 0 (current - allowance)"

definition byokFee :: "money \<Rightarrow> money \<Rightarrow> money \<Rightarrow> money \<Rightarrow> int \<Rightarrow> string" where
  "byokFee fee current shadow allowance bps =
     formatRat (rat_of_money fee + rat_of_money (incrementalBillable current shadow allowance) * (of_int bps / 10000))"

definition shadowRow :: "string \<Rightarrow> string \<Rightarrow> string \<Rightarrow> ByokShadow \<Rightarrow> bool" where
  "shadowRow project credential month b \<longleftrightarrow> bs_project b = project \<and> bs_credential b = credential \<and> bs_month b = month"

text \<open>The monthly shadow spend of a customer credential, and the fee it adds.\<close>

definition byokShadowFee :: "FundingOperation \<Rightarrow> FundingSettlementRequest \<Rightarrow> string \<Rightarrow> string \<Rightarrow> string \<Rightarrow> (string \<times> string) dbtx" where
  "byokShadowFee operation r versionID credential platformServiceFee =
     bindT (fundingAmountsForVersion versionID (fs_input r) (fs_cached r) (fs_output r) ''0'' ''0'' ''1'') (\<lambda>(byokShadowAmount, _).
     bindT (getT (\<lambda>s. providerBudgetMonth (clk s))) (\<lambda>month.
     let row = shadowRow (o_project operation) credential month in
     thenT (modifyT (\<lambda>s. if list_ex row (byok_shadow s) then s
              else s\<lparr>byok_shadow := byok_shadow s @ [\<lparr>bs_project = o_project operation, bs_credential = credential, bs_month = month,
                      bs_currency = o_currency operation, bs_amount = 0, bs_fee = 0, bs_requests = 0\<rparr>]\<rparr>))
    (bindT (rowT ErrNoRows (\<lambda>s. find row (byok_shadow s))) (\<lambda>b.
     bindT (liftT (mustFundingRat byokShadowAmount)) (\<lambda>shadow.
     bindT (liftT (mustFundingRat platformServiceFee)) (\<lambda>fee.
     let feeText = byokFee fee (bs_amount b) shadow (o_byok_allowance operation) (o_byok_bps operation) in
     bindT (liftT (mustFundingRat feeText)) (\<lambda>newFee.
     thenT (unlessT (money_in_range (bs_amount b + shadow) \<and> money_in_range (bs_fee b + newFee)) ErrNumericOverflow)
    (thenT (modifyT (\<lambda>s. s\<lparr>byok_shadow := update_where row (\<lambda>b. b\<lparr>bs_amount := bs_amount b + shadow, bs_fee := bs_fee b + newFee,
                              bs_requests := bs_requests b + 1\<rparr>) (byok_shadow s)\<rparr>))
           (returnT (feeText, byokShadowAmount))))))))))"

text \<open>The fee for a customer's own credential: its token card, and the shadow-spend fee.\<close>

definition byokCharges :: "FundingOperation \<Rightarrow> FundingSettlementRequest \<Rightarrow> (string \<times> string) dbtx" where
  "byokCharges operation r =
     bindT (liftT (calculateE (zeroRate (o_byok_unit operation) (o_currency operation))
              \<lparr>Input = numericText (o_byok_input operation), Cached = numericText (o_byok_cached operation),
               Output = numericText (o_byok_output operation), Fixed = numericText (o_byok_fixed operation),
               Unit = o_byok_unit operation, Currency = o_currency operation\<rparr>
              (tokensOf (fs_input r) (fs_cached r) (fs_output r)) ''0'' ''0'' ''1'')) (\<lambda>feeResult.
     case (o_pricing operation, o_credential operation) of
       (Some versionID, Some credential) \<Rightarrow> byokShadowFee operation r versionID credential (FinalAmount feeResult)
     | _ \<Rightarrow> returnT (FinalAmount feeResult, ''0''))"

text \<open>The amounts to settle: charge, promotion, platform fee and shadow spend.\<close>

definition settlementAmounts :: "FundingOperation \<Rightarrow> FundingSettlementRequest \<Rightarrow> (string \<times> string \<times> string \<times> string) dbtx" where
  "settlementAmounts operation r =
     bindT (case o_pricing operation of
              Some versionID \<Rightarrow> if fs_waive r then returnT (''0'', ''0'')
                else fundingAmountsForVersion versionID (fs_input r) (fs_cached r) (fs_output r)
                       (numericText (o_promotion operation)) (rateText (o_tax operation)) (numericText (o_exchange operation))
            | None \<Rightarrow> returnT (''0'', ''0'')) (\<lambda>(actualAmount, actualPromotion).
     if o_owner operation = OwnerCUSTOMER \<and> \<not> fs_waive r
     then bindT (byokCharges operation r) (\<lambda>(fee, shadow). returnT (fee, ''0'', fee, shadow))
     else returnT (actualAmount, actualPromotion, ''0'', ''0''))"

definition settlementJournal :: "FundingOperation \<Rightarrow> money \<Rightarrow> money \<Rightarrow> money \<Rightarrow> string dbtx" where
  "settlementJournal operation actual reservedUsed overage =
     (if 0 < actual
      then postJournalTx (o_wallet operation) J_SETTLEMENT (''funding:'' @ o_id operation @ '':settlement'') (o_currency operation) (o_request operation)
             ((if 0 < reservedUsed then [\<lparr>jl_key = walletAccountKey (o_wallet operation) ''reserved'', jl_side = DEBIT, jl_amount = reservedUsed\<rparr>] else []) @
              (if 0 < overage then [\<lparr>jl_key = walletAccountKey (o_wallet operation) ''available'', jl_side = DEBIT, jl_amount = overage\<rparr>] else []) @
              [\<lparr>jl_key = systemAccountKey ''revenue'' (o_currency operation), jl_side = CREDIT, jl_amount = actual\<rparr>])
      else returnT [])"

definition releaseJournal :: "FundingOperation \<Rightarrow> money \<Rightarrow> unit dbtx" where
  "releaseJournal operation release =
     whenT (0 < release)
       (thenT (postJournalTx (o_wallet operation) J_RELEASE (''funding:'' @ o_id operation @ '':release'') (o_currency operation) (o_request operation)
                [\<lparr>jl_key = walletAccountKey (o_wallet operation) ''reserved'', jl_side = DEBIT, jl_amount = release\<rparr>,
                 \<lparr>jl_key = walletAccountKey (o_wallet operation) ''available'', jl_side = CREDIT, jl_amount = release\<rparr>]) (returnT ()))"

text \<open>The wallet after settlement: overage consumes the risk allowance and may freeze the wallet.\<close>

definition settledStatus :: "Wallet \<Rightarrow> money \<Rightarrow> money \<Rightarrow> WalletStatus" where
  "settledStatus w overage newRiskExposure =
     (let freeze = w_status w \<noteq> WalletACTIVE;
          freeze = (if w_risk_limit w < newRiskExposure \<and> 0 < overage then True else freeze);
          freeze = (if w_mode w = POSTPAID \<and> \<not> w_credit_enforced w then False else freeze) in
      if freeze \<and> w_status w = WalletACTIVE then WalletFROZEN else w_status w)"

definition settledWallet :: "FundingOperation \<Rightarrow> Wallet \<Rightarrow> money \<Rightarrow> money \<Rightarrow> Wallet \<Rightarrow> Wallet" where
  "settledWallet operation w release overage v =
     (let newRiskExposure = (if 0 < overage then w_risk_exposure w + overage else w_risk_exposure w) in
      v\<lparr>w_available := w_available w + release - overage, w_reserved := w_reserved v - o_maximum operation,
        w_risk_exposure := newRiskExposure, w_status := settledStatus w overage newRiskExposure, w_version := w_version v + 1\<rparr>)"

definition settleWallet :: "FundingOperation \<Rightarrow> Wallet \<Rightarrow> money \<Rightarrow> money \<Rightarrow> money dbtx" where
  "settleWallet operation w release overage =
     thenT (updateWallet (o_wallet operation) (settledWallet operation w release overage))
           (returnT (w_available w + release - overage))"

definition settlementStatus :: "FundingSettlementRequest \<Rightarrow> money \<Rightarrow> FundingStatus" where
  "settlementStatus r actual =
     (if actual = 0 then (if fs_failure r \<noteq> [] then F_FAILED else F_RELEASED)
      else if fs_partial r then F_PARTIALLY_SETTLED else F_SETTLED)"

definition settledOperation ::
  "FundingSettlementRequest \<Rightarrow> money \<Rightarrow> money \<Rightarrow> money \<Rightarrow> money \<Rightarrow> money \<Rightarrow> int \<Rightarrow> FundingOperation \<Rightarrow> FundingOperation" where
  "settledOperation r actual release consumedPromotion platformServiceFee byokShadowAmount now q =
     q\<lparr>o_status := settlementStatus r actual, o_settled := actual, o_released := release,
       o_consumed_promotion := consumedPromotion, o_service_fee := platformServiceFee, o_shadow := byokShadowAmount,
       o_actual := Some (fs_input r, fs_cached r, fs_output r), o_usage_source := fs_usage_source r, o_observed := fs_observed r,
       o_failure := nullString (fs_failure r), o_settled_at := (if 0 < actual then Some now else None),
       o_released_at := (if 0 < release \<or> actual = 0 then Some now else None), o_heartbeat := now\<rparr>"

definition settleOperation ::
  "FundingOperation \<Rightarrow> FundingSettlementRequest \<Rightarrow> money \<Rightarrow> money \<Rightarrow> money \<Rightarrow> money \<Rightarrow> money \<Rightarrow> unit dbtx" where
  "settleOperation operation r actual release consumedPromotion platformServiceFee byokShadowAmount =
     bindT (getT clk) (\<lambda>now.
     thenT (updateOperation (o_id operation) (settledOperation r actual release consumedPromotion platformServiceFee byokShadowAmount now))
    (thenT (whenT (0 < release) (insertFundingEvent (o_id operation) F_RELEASED release (firstNonEmptyStore [fs_source r, ''gateway''])))
           (insertFundingEvent (o_id operation) (settlementStatus r actual) actual (firstNonEmptyStore [fs_source r, ''gateway'']))))"

text \<open>The customer's charge row (\<open>ON CONFLICT(wallet_id,idempotency_key) DO NOTHING\<close>) and its attribution.\<close>

definition settlementCharge :: "FundingOperation \<Rightarrow> money \<Rightarrow> money \<Rightarrow> string \<Rightarrow> unit dbtx" where
  "settlementCharge operation actual newAvailable settlementJournalID =
     (if 0 < actual then
        bindT uuidT (\<lambda>transactionID. bindT (getT clk) (\<lambda>now.
        bindT (getT (\<lambda>s. list_ex (\<lambda>u. t_wallet u = o_wallet operation \<and> t_key u = Some (''funding:'' @ o_id operation @ '':charge'')) (wallet_transactions s))) (\<lambda>conflict.
        thenT (whenT (\<not> conflict) (insertWalletTransaction \<lparr>t_id = transactionID, t_wallet = o_wallet operation, t_type = CHARGE, t_amount = - actual,
                 t_balance_after = newAvailable, t_key = Some (''funding:'' @ o_id operation @ '':charge''), t_reference = Some (o_request operation),
                 t_journal = nullString settlementJournalID, t_operation = Some (o_id operation), t_recharge = None, t_refund = None, t_created = now\<rparr>))
              (settleCashLotsTx (o_id operation) (o_wallet operation) transactionID actual))))
      else settleCashLotsTx (o_id operation) (o_wallet operation) [] actual)"

definition setUsageStatus :: "string \<Rightarrow> UsageStatus \<Rightarrow> unit dbtx" where
  "setUsageStatus operationID status =
     modifyT (\<lambda>s. s\<lparr>usage_records := update_where (\<lambda>u. u_operation u = Some operationID) (\<lambda>u. u\<lparr>u_status := status\<rparr>) (usage_records s)\<rparr>)"

text \<open>The provider's budget: the reservation is settled at the actual provider cost.\<close>

definition actualProviderCost :: "FundingOperation \<Rightarrow> FundingSettlementRequest \<Rightarrow> string dbtx" where
  "actualProviderCost operation r =
     (case o_pricing operation of
        Some versionID \<Rightarrow> if fs_waive r then returnT ''0'' else
          bindT (rowT ErrNoRows (versionById versionID)) (\<lambda>v.
          bindT (liftT (calculateE (pv_cost v) (zeroRate (Unit (pv_cost v)) (Currency (pv_cost v))) (tokensOf (fs_input r) (fs_cached r) (fs_output r)) ''0'' ''0'' ''1''))
            (\<lambda>res. returnT (ProviderCost res)))
      | None \<Rightarrow> returnT ''0'')"

definition settleProviderBudget :: "FundingOperation \<Rightarrow> FundingSettlementRequest \<Rightarrow> unit dbtx" where
  "settleProviderBudget operation r =
     bindT (getT (\<lambda>s. find (\<lambda>b. br_operation b = o_id operation \<and> br_status b = B_RESERVED) (budget_reservations s))) (\<lambda>row. case row of
       None \<Rightarrow> returnT ()
     | Some b \<Rightarrow>
         bindT (actualProviderCost operation r) (\<lambda>costText.
         bindT (liftT (mustFundingRat costText)) (\<lambda>cost.
         thenT (unlessT (cost \<le> br_maximum b) ErrProviderBudgetExceeded)
        (bindT (getT (\<lambda>s. providerBudgetMonth (clk s))) (\<lambda>month.
         thenT (modifyT (\<lambda>s. s\<lparr>provider_budgets := update_where (\<lambda>p. pb_provider p = br_provider b \<and> pb_month p = month)
                  (\<lambda>p. p\<lparr>pb_reserved := max 0 (pb_reserved p - br_maximum b), pb_cost := pb_cost p + cost\<rparr>) (provider_budgets s)\<rparr>))
               (modifyT (\<lambda>s. s\<lparr>budget_reservations := update_where (\<lambda>q. br_operation q = o_id operation)
                  (\<lambda>q. q\<lparr>br_settled := cost, br_status := (if 0 < cost then B_SETTLED else B_RELEASED)\<rparr>) (budget_reservations s)\<rparr>)))))))"

text \<open>The writes of a settlement, from the amounts.\<close>

definition writeSettlement ::
  "FundingOperation \<Rightarrow> Wallet \<Rightarrow> FundingSettlementRequest \<Rightarrow> string \<Rightarrow> string \<Rightarrow> string \<Rightarrow> string \<Rightarrow> unit dbtx" where
  "writeSettlement operation w r actualAmount actualPromotion platformServiceFee byokShadowAmount =
     bindT (liftT (mustFundingRat actualPromotion)) (\<lambda>promotion.
     bindT (settlePromotionTx (o_id operation) promotion) (\<lambda>consumedPromotion.
     bindT (liftT (fundingRat actualAmount)) (\<lambda>actual.
     bindT (liftT (mustFundingRat platformServiceFee)) (\<lambda>fee.
     bindT (liftT (mustFundingRat byokShadowAmount)) (\<lambda>shadow.
     let reservedUsed = min actual (o_maximum operation);
         release = o_maximum operation - reservedUsed;
         overage = actual - reservedUsed in
     bindT (settlementJournal operation actual reservedUsed overage) (\<lambda>settlementJournalID.
     thenT (releaseJournal operation release)
    (bindT (settleWallet operation w release overage) (\<lambda>newAvailable.
     thenT (settleOperation operation r actual release consumedPromotion fee shadow)
    (thenT (settlementCharge operation actual newAvailable settlementJournalID)
    (thenT (setUsageStatus (o_id operation) (if 0 < actual then U_CHARGED else U_WAIVED))
    (thenT (writeAuditTx None ''wallet.funding_settled'' (o_id operation))
           (settleProviderBudget operation r))))))))))))"

definition SettleFunding :: "FundingSettlementRequest \<Rightarrow> FundingOperation dbtx" where
  "SettleFunding r =
     thenT (unlessT (0 \<le> fs_input r \<and> 0 \<le> fs_cached r \<and> 0 \<le> fs_output r \<and> fs_cached r \<le> fs_input r \<and> 0 \<le> fs_observed r)
              (ErrInvalid ''invalid funding settlement usage''))
    (bindT (rowT ErrNotFound (opById (fs_operation r))) (\<lambda>operation.
       if isFundingTerminal (o_status operation) then returnT operation
       else bindT (rowT ErrNoRows (walletById (o_wallet operation))) (\<lambda>w.
            bindT (settlementAmounts operation r) (\<lambda>(actualAmount, actualPromotion, platformServiceFee, byokShadowAmount).
            thenT (writeSettlement operation w r actualAmount actualPromotion platformServiceFee byokShadowAmount)
                  (rowT ErrNotFound (opById (o_id operation)))))))"

section \<open>Provider attempts\<close>

definition HeartbeatFunding :: "string \<Rightarrow> int \<Rightarrow> unit dbtx" where
  "HeartbeatFunding operationID observedBytes =
     thenT (unlessT (0 \<le> observedBytes) (ErrInvalid ''observed bytes cannot be negative''))
           (modifyT (\<lambda>s. s\<lparr>operations := update_where (\<lambda>q. o_id q = operationID \<and> o_status q \<in> {F_PENDING, F_RESERVED})
              (\<lambda>q. q\<lparr>o_observed := max (o_observed q) observedBytes, o_heartbeat := clk s\<rparr>) (operations s)\<rparr>))"

text \<open>The last check before dispatch, in the transaction that records the attempt. The quality and
  marketplace subqueries are columns of the provider row.\<close>

definition recheckProviderDispatchTx :: "string \<Rightarrow> string \<Rightarrow> string \<Rightarrow> unit dbtx" where
  "recheckProviderDispatchTx organizationID providerID credentialID =
     bindT (rowT ErrProviderCommercialUnavailable (\<lambda>s.
        case (find (\<lambda>p. p_id p = providerID) (providers s), find (\<lambda>c. cr_id c = credentialID \<and> cr_provider c = providerID) (credentials s)) of
          (Some p, Some c) \<Rightarrow> Some (p, c) | _ \<Rightarrow> None)) (\<lambda>(p, c).
     bindT (getT clk) (\<lambda>now.
     let allowed = p_enabled p \<and> \<not> p_pricing_disabled p \<and> \<not> p_kill_switch p \<and> p_commercial_approved p \<and> p_resale_approved p \<and>
           (case p_contract_start p of None \<Rightarrow> True | Some t \<Rightarrow> t \<le> now) \<and> (case p_contract_end p of None \<Rightarrow> True | Some t \<Rightarrow> now < t) \<and>
           (cr_owner c = OwnerPLATFORM \<or> cr_org c = Some organizationID) in
     thenT (unlessT (allowed \<and> p_marketplace_allowed p) ErrProviderCommercialUnavailable)
           (unlessT (\<not> p_quality_enabled p \<or> p_circuit_closed p) ErrProviderQualityCircuitOpen)))"

text \<open>The fee policy of a customer credential: the most specific, then the latest.\<close>

definition byokPolicyFor :: "string \<Rightarrow> string \<Rightarrow> db \<Rightarrow> ByokPolicy option" where
  "byokPolicyFor organizationID providerID s =
     (case rev (sort_key (\<lambda>b. (bp_org b \<noteq> None, bp_provider b \<noteq> None, bp_effective b, bp_id b))
       (filter (\<lambda>b. bp_enabled b \<and> (bp_org b = Some organizationID \<or> bp_org b = None) \<and> (bp_provider b = Some providerID \<or> bp_provider b = None) \<and>
                  bp_effective b \<le> clk s \<and> (case bp_expires b of None \<Rightarrow> True | Some e \<Rightarrow> clk s < e)) (byok_policies s))) of
        [] \<Rightarrow> None | b # _ \<Rightarrow> Some b)"

definition applyByokPolicy :: "string \<Rightarrow> string \<Rightarrow> string \<Rightarrow> string \<Rightarrow> unit dbtx" where
  "applyByokPolicy operationID organizationID providerID operationCurrency =
     bindT (rowT ErrPricingUnavailable (byokPolicyFor organizationID providerID)) (\<lambda>b.
     thenT (unlessT (bp_currency b = operationCurrency) ErrPricingCurrencyMismatch)
           (updateOperation operationID (\<lambda>q. q\<lparr>o_byok_policy := Some (bp_id b), o_byok_fixed := bp_fixed b, o_byok_input := bp_input b,
              o_byok_cached := bp_cached b, o_byok_output := bp_output b, o_byok_unit := bp_unit b, o_byok_bps := bp_bps b,
              o_byok_allowance := bp_allowance b\<rparr>)))"

definition budgetRow :: "string \<Rightarrow> string \<Rightarrow> ProviderBudget \<Rightarrow> bool" where
  "budgetRow providerID month b \<longleftrightarrow> pb_provider b = providerID \<and> pb_month b = month"

text \<open>The provider's monthly budget: its maximum cost is reserved once per operation, within the limit.\<close>

definition reserveBudgetRow :: "string \<Rightarrow> string \<Rightarrow> string \<Rightarrow> unit dbtx" where
  "reserveBudgetRow operationID providerID month =
     bindT (rowT ErrNoRows (\<lambda>s.
        case (opById operationID s, find (\<lambda>p. p_id p = providerID) (providers s), find (budgetRow providerID month) (provider_budgets s)) of
          (Some q, Some p, Some b) \<Rightarrow> map_option (\<lambda>v. (q, v, p, b)) (Option.bind (o_pricing q) (\<lambda>vid. versionById vid s))
        | _ \<Rightarrow> None)) (\<lambda>(q, v, p, b).
     thenT (unlessT (Currency (pv_cost v) = p_settlement_currency p) ErrPricingCurrencyMismatch)
    (bindT (liftT (calculateE (pv_cost v) (zeroRate (Unit (pv_cost v)) (Currency (pv_cost v))) (tokensOf (o_estimated_input q) 0 (o_max_output q)) ''0'' ''0'' ''1'')) (\<lambda>res.
     bindT (liftT (mustFundingRat (ProviderCost res))) (\<lambda>maximumProviderCost.
     let limit = (case p_cost_limit p of None \<Rightarrow> 0 | Some l \<Rightarrow> l) in
     thenT (unlessT (\<not> (0 < limit \<and> limit < pb_cost b + pb_reserved b + maximumProviderCost)) ErrProviderBudgetExceeded)
    (thenT (numericT (pb_reserved b + maximumProviderCost))
    (thenT (modifyT (\<lambda>s. s\<lparr>provider_budgets := update_where (budgetRow providerID month)
              (\<lambda>b. b\<lparr>pb_requests := pb_requests b + 1, pb_reserved := pb_reserved b + maximumProviderCost\<rparr>) (provider_budgets s)\<rparr>))
    (bindT uuidT (\<lambda>rid.
      modifyT (\<lambda>s. s\<lparr>budget_reservations := budget_reservations s @ [\<lparr>br_id = rid, br_operation = operationID, br_provider = providerID,
         br_month = month, br_currency = p_settlement_currency p, br_maximum = maximumProviderCost, br_settled = 0, br_status = B_RESERVED\<rparr>]\<rparr>)))))))))"

definition reserveProviderBudget :: "string \<Rightarrow> string \<Rightarrow> unit dbtx" where
  "reserveProviderBudget operationID providerID =
     bindT (getT (\<lambda>s. providerBudgetMonth (clk s))) (\<lambda>month.
     thenT (modifyT (\<lambda>s. if list_ex (budgetRow providerID month) (provider_budgets s) then s
              else s\<lparr>provider_budgets := provider_budgets s @ [\<lparr>pb_provider = providerID, pb_month = month, pb_requests = 0, pb_reserved = 0, pb_cost = 0\<rparr>]\<rparr>))
    (bindT (getT (\<lambda>s. list_ex (\<lambda>r. br_operation r = operationID) (budget_reservations s))) (\<lambda>reservationExists.
     whenT (\<not> reservationExists) (reserveBudgetRow operationID providerID month))))"

definition insertAttempt :: "string \<Rightarrow> string \<Rightarrow> string \<Rightarrow> bool \<Rightarrow> FundingAttempt dbtx" where
  "insertAttempt operationID providerID credentialID isFallback =
     bindT uuidT (\<lambda>aid.
     bindT (getT (\<lambda>s. Suc (foldr max (map fa_no (filter (\<lambda>a. fa_operation a = operationID) (op_attempts s))) 0))) (\<lambda>no.
     let a = \<lparr>fa_id = aid, fa_operation = operationID, fa_no = no, fa_provider = providerID, fa_credential = nullString credentialID,
              fa_fallback = isFallback, fa_status = A_STARTED\<rparr> in
     thenT (checkT (\<lambda>s. unused (\<lambda>b. fa_id b = aid) (op_attempts s)) (ErrConstraint ''funding_provider_attempt_pkey''))
    (thenT (modifyT (\<lambda>s. s\<lparr>op_attempts := op_attempts s @ [a]\<rparr>)) (returnT a))))"

definition BeginFundingAttempt :: "string \<Rightarrow> string \<Rightarrow> string \<Rightarrow> bool \<Rightarrow> FundingAttempt dbtx" where
  "BeginFundingAttempt operationID providerID credentialID isFallback =
     bindT (rowT ErrNoRows (opById operationID)) (\<lambda>q.
     thenT (unlessT (o_status q = F_RESERVED \<or> o_status q = F_PENDING) ErrFundingTerminal)
    (thenT (recheckProviderDispatchTx (o_org q) providerID credentialID)
    (bindT (rowT ErrNoRows (\<lambda>s. find (\<lambda>c. cr_id c = credentialID) (credentials s))) (\<lambda>c.
     thenT (updateOperation operationID (\<lambda>q. q\<lparr>o_owner := cr_owner c, o_credential := Some credentialID\<rparr>))
    (thenT (whenT (cr_owner c = OwnerCUSTOMER) (applyByokPolicy operationID (o_org q) providerID (o_currency q)))
    (thenT (whenT (cr_owner c = OwnerPLATFORM) (reserveProviderBudget operationID providerID))
           (insertAttempt operationID providerID credentialID isFallback)))))))"

definition FinishFundingAttempt :: "string \<Rightarrow> string \<Rightarrow> unit dbtx" where
  "FinishFundingAttempt attemptID status =
     bindT (liftT (if status = ''SUCCEEDED'' then Inr A_SUCCEEDED else if status = ''FAILED'' then Inr A_FAILED
                   else if status = ''CANCELLED'' then Inr A_CANCELLED else if status = ''TIMED_OUT'' then Inr A_TIMED_OUT
                   else Inl (ErrInvalid ''invalid funding provider attempt status''))) (\<lambda>st.
     bindT (getT (\<lambda>s. rows_affected (\<lambda>a. fa_id a = attemptID \<and> fa_status a = A_STARTED) (op_attempts s))) (\<lambda>n.
     thenT (modifyT (\<lambda>s. s\<lparr>op_attempts := update_where (\<lambda>a. fa_id a = attemptID \<and> fa_status a = A_STARTED) (\<lambda>a. a\<lparr>fa_status := st\<rparr>) (op_attempts s)\<rparr>))
           (unlessT (n \<noteq> 0) ErrFundingTerminal)))"

section \<open>Recovery of stale operations\<close>

definition clamp :: "int \<Rightarrow> nat" where
  "clamp limit = nat (if limit \<le> 0 then 50 else if 200 < limit then 200 else limit)"

definition staleOperations :: "int \<Rightarrow> nat \<Rightarrow> db \<Rightarrow> FundingOperation list" where
  "staleOperations staleBefore n s =
     take n (sort_key (\<lambda>q. (o_heartbeat q, o_id q))
       (filter (\<lambda>q. o_status q \<in> {F_PENDING, F_RESERVED} \<and> o_heartbeat q < staleBefore) (operations s)))"

definition recoveryRequest :: "FundingOperation \<Rightarrow> FundingSettlementRequest" where
  "recoveryRequest q = \<lparr>fs_operation = o_id q, fs_input = o_estimated_input q, fs_cached = 0, fs_output = o_observed q div 4,
     fs_observed = o_observed q, fs_usage_source = ''ESTIMATED_CRASH_RECOVERY'', fs_failure = ''settlement_recovered'',
     fs_partial = (0 < o_observed q), fs_waive = False, fs_source = ''recovery_worker''\<rparr>"

text \<open>Each operation is settled in a transaction of its own; the first failure stops the pass.\<close>

fun settleStale :: "FundingOperation list \<Rightarrow> int \<Rightarrow> db \<Rightarrow> int \<times> store_error option \<times> db" where
  "settleStale [] recovered s = (recovered, None, s)"
| "settleStale (item # items) recovered s =
     (case commit (SettleFunding (recoveryRequest item)) s of
        (Inl e, s') \<Rightarrow> if e = ErrFundingTerminal then settleStale items (recovered + 1) s' else (recovered, Some e, s')
      | (Inr _, s') \<Rightarrow> settleStale items (recovered + 1) s')"

definition RecoverStaleFunding :: "int \<Rightarrow> int \<Rightarrow> db \<Rightarrow> int \<times> store_error option \<times> db" where
  "RecoverStaleFunding staleBefore limit s =
     (let items = staleOperations staleBefore (clamp limit) s;
          s1 = s\<lparr>operations := update_where (\<lambda>q. o_id q \<in> set (map o_id items)) (\<lambda>q. q\<lparr>o_heartbeat := clk s\<rparr>) (operations s)\<rparr> in
      settleStale items 0 s1)"

section \<open>Late usage and reversal\<close>

record LateUsageRequest =
  lu_operation :: string
  lu_key :: string
  lu_input :: int
  lu_cached :: int
  lu_output :: int
  lu_usage_source :: string
  lu_created_by :: "string option"

definition firstCharge :: "string \<Rightarrow> db \<Rightarrow> WalletTransaction option" where
  "firstCharge operationID s =
     (case sort_key (\<lambda>t. (t_created t, t_id t)) (filter (\<lambda>t. t_operation t = Some operationID \<and> t_type t = CHARGE) (wallet_transactions s)) of
        [] \<Rightarrow> None | t # _ \<Rightarrow> Some t)"

text \<open>The wallet after a correction by \<open>difference\<close>.\<close>

definition adjustedWallet :: "money \<Rightarrow> Wallet \<Rightarrow> Wallet" where
  "adjustedWallet difference v = v\<lparr>w_available := w_available v - difference, w_risk_exposure := max (w_risk_exposure v + difference) 0,
     w_status := (if 0 < difference \<and> (w_mode v = PREPAID \<or> w_credit_enforced v) \<and> w_risk_limit v < max (w_risk_exposure v + difference) 0
                  then WalletFROZEN else w_status v), w_version := w_version v + 1\<rparr>"

definition lateKey :: "FundingOperation \<Rightarrow> LateUsageRequest \<Rightarrow> string" where
  "lateKey operation r = ''funding:'' @ o_id operation @ '':late:'' @ lu_key r"

definition adjustmentJournal :: "FundingOperation \<Rightarrow> LateUsageRequest \<Rightarrow> money \<Rightarrow> string dbtx" where
  "adjustmentJournal operation r difference =
     postJournalTx (o_wallet operation) J_LATE_USAGE_ADJUSTMENT (lateKey operation r) (o_currency operation) (o_request operation)
       (if 0 < difference
        then [\<lparr>jl_key = walletAccountKey (o_wallet operation) ''available'', jl_side = DEBIT, jl_amount = \<bar>difference\<bar>\<rparr>,
              \<lparr>jl_key = systemAccountKey ''revenue'' (o_currency operation), jl_side = CREDIT, jl_amount = \<bar>difference\<bar>\<rparr>]
        else [\<lparr>jl_key = systemAccountKey ''revenue'' (o_currency operation), jl_side = DEBIT, jl_amount = \<bar>difference\<bar>\<rparr>,
              \<lparr>jl_key = walletAccountKey (o_wallet operation) ''available'', jl_side = CREDIT, jl_amount = \<bar>difference\<bar>\<rparr>])"

text \<open>The money of a correction: journal, wallet, transaction and its attribution.\<close>

definition applyDifference :: "FundingOperation \<Rightarrow> LateUsageRequest \<Rightarrow> money \<Rightarrow> string dbtx" where
  "applyDifference operation r difference =
     bindT (adjustmentJournal operation r difference) (\<lambda>journalID.
     bindT (updateWalletReturning (o_wallet operation) (adjustedWallet difference)) (\<lambda>w.
     bindT uuidT (\<lambda>transactionID. bindT (getT clk) (\<lambda>now.
     thenT (insertWalletTransaction \<lparr>t_id = transactionID, t_wallet = o_wallet operation, t_type = (if difference < 0 then REFUND else CHARGE),
              t_amount = - difference, t_balance_after = w_available w, t_key = Some (lateKey operation r), t_reference = Some (o_request operation),
              t_journal = Some journalID, t_operation = None, t_recharge = None, t_refund = None, t_created = now\<rparr>)
    (thenT (if 0 < difference then allocateCashDebitTx (o_wallet operation) transactionID difference
            else bindT (rowT ErrNoRows (firstCharge (o_id operation))) (\<lambda>src.
                 restoreCashAllocationTx (o_wallet operation) (t_id src) transactionID \<bar>difference\<bar>))
           (returnT journalID))))))"

definition insertAdjustment :: "UsageAdjustment \<Rightarrow> unit dbtx" where
  "insertAdjustment a =
     thenT (unlessT (money_in_range (ad_corrected a) \<and> money_in_range (ad_difference a)) ErrNumericOverflow)
    (thenT (unlessT (0 \<le> ad_previous a \<and> 0 \<le> ad_corrected a) (ErrConstraint ''funding_usage_adjustment_check''))
    (thenT (checkT (\<lambda>s. unused (\<lambda>b. ad_operation b = ad_operation a \<and> ad_key b = ad_key a) (adjustments s))
              (ErrConstraint ''funding_usage_adjustment_operation_id_idempotency_key_key''))
           (modifyT (\<lambda>s. s\<lparr>adjustments := adjustments s @ [a]\<rparr>))))"

definition correctedAmount :: "FundingOperation \<Rightarrow> LateUsageRequest \<Rightarrow> string dbtx" where
  "correctedAmount operation r =
     (case o_pricing operation of
        None \<Rightarrow> returnT ''0''
      | Some versionID \<Rightarrow> fundingAmountForVersion versionID (lu_input r) (lu_cached r) (lu_output r)
          (numericText (o_promotion operation)) (rateText (o_tax operation)) (numericText (o_exchange operation)))"

definition correctedOperation :: "LateUsageRequest \<Rightarrow> FundingStatus \<Rightarrow> money \<Rightarrow> int \<Rightarrow> FundingOperation \<Rightarrow> FundingOperation" where
  "correctedOperation r status corrected now q = q\<lparr>o_status := status, o_settled := corrected,
     o_actual := Some (lu_input r, lu_cached r, lu_output r), o_usage_source := lu_usage_source r,
     o_settled_at := (if 0 < corrected then Some now else o_settled_at q)\<rparr>"

text \<open>The writes of a correction.\<close>

definition writeAdjustment :: "FundingOperation \<Rightarrow> LateUsageRequest \<Rightarrow> money \<Rightarrow> unit dbtx" where
  "writeAdjustment operation r corrected =
     (let difference = corrected - o_settled operation;
          status = (if corrected = 0 then F_RELEASED else F_SETTLED) in
      bindT (if difference \<noteq> 0 then applyDifference operation r difference else returnT []) (\<lambda>journalID.
      thenT uuidT
     (thenT (insertAdjustment \<lparr>ad_operation = o_id operation, ad_key = lu_key r, ad_previous = o_settled operation, ad_corrected = corrected,
               ad_difference = difference, ad_journal = nullString journalID\<rparr>)
     (bindT (getT clk) (\<lambda>now.
      thenT (updateOperation (o_id operation) (correctedOperation r status corrected now))
     (thenT (setUsageStatus (o_id operation) (if corrected = 0 then U_WAIVED else U_CHARGED))
     (thenT (insertFundingEvent (o_id operation) status \<bar>difference\<bar> ''late_usage'')
            (writeAuditTx (lu_created_by r) ''wallet.late_usage_adjusted'' (o_id operation)))))))))"

definition AdjustLateFundingUsage :: "LateUsageRequest \<Rightarrow> FundingOperation dbtx" where
  "AdjustLateFundingUsage r =
     thenT (unlessT (lu_key r \<noteq> [] \<and> 0 \<le> lu_input r \<and> 0 \<le> lu_cached r \<and> 0 \<le> lu_output r \<and> lu_cached r \<le> lu_input r)
              (ErrInvalid ''invalid late usage adjustment''))
    (bindT (rowT ErrNotFound (opById (lu_operation r))) (\<lambda>operation.
     thenT (unlessT (o_status operation \<noteq> F_RESERVED \<and> o_status operation \<noteq> F_PENDING) ErrFundingInProgress)
    (bindT (getT (\<lambda>s. list_ex (\<lambda>a. ad_operation a = o_id operation \<and> ad_key a = lu_key r) (adjustments s))) (\<lambda>replay.
       if replay then returnT operation
       else bindT (correctedAmount operation r) (\<lambda>correctedText.
            bindT (liftT (mustFundingRat correctedText)) (\<lambda>corrected.
            thenT (writeAdjustment operation r corrected)
                  (rowT ErrNotFound (opById (o_id operation)))))))))"

definition reversalKey :: "FundingOperation \<Rightarrow> string \<Rightarrow> string" where
  "reversalKey operation idempotencyKey = ''funding:'' @ o_id operation @ '':reversal:'' @ idempotencyKey"

text \<open>The writes of a reversal.\<close>

definition writeReversal :: "FundingOperation \<Rightarrow> string \<Rightarrow> string \<Rightarrow> string option \<Rightarrow> unit dbtx" where
  "writeReversal operation idempotencyKey reason actor =
     (let amount = o_settled operation in
     bindT (postJournalTx (o_wallet operation) J_REVERSAL (reversalKey operation idempotencyKey) (o_currency operation) reason
              [\<lparr>jl_key = systemAccountKey ''revenue'' (o_currency operation), jl_side = DEBIT, jl_amount = amount\<rparr>,
               \<lparr>jl_key = walletAccountKey (o_wallet operation) ''available'', jl_side = CREDIT, jl_amount = amount\<rparr>]) (\<lambda>journalID.
     bindT (updateWalletReturning (o_wallet operation) (\<lambda>v. v\<lparr>w_available := w_available v + amount, w_version := w_version v + 1\<rparr>)) (\<lambda>w.
     bindT uuidT (\<lambda>transactionID. bindT (getT clk) (\<lambda>now.
     thenT (insertWalletTransaction \<lparr>t_id = transactionID, t_wallet = o_wallet operation, t_type = REFUND, t_amount = amount,
              t_balance_after = w_available w, t_key = Some (reversalKey operation idempotencyKey), t_reference = Some reason,
              t_journal = Some journalID, t_operation = None, t_recharge = None, t_refund = None, t_created = now\<rparr>)
    (bindT (rowT ErrNoRows (firstCharge (o_id operation))) (\<lambda>src.
     thenT (restoreCashAllocationTx (o_wallet operation) (t_id src) transactionID amount)
    (bindT (reversePromotionTx (o_id operation) (o_consumed_promotion operation)) (\<lambda>reversedPromotion.
     thenT (updateOperation (o_id operation) (\<lambda>q. q\<lparr>o_status := F_REVERSED,
              o_consumed_promotion := max (o_consumed_promotion q - reversedPromotion) 0\<rparr>))
    (thenT (insertFundingEvent (o_id operation) F_REVERSED amount ''admin_reversal'')
    (thenT (writeAuditTx actor ''wallet.funding_reversed'' (o_id operation))
           (setUsageStatus (o_id operation) U_REFUNDED))))))))))))"

definition ReverseFunding :: "string \<Rightarrow> string \<Rightarrow> string \<Rightarrow> string option \<Rightarrow> FundingOperation dbtx" where
  "ReverseFunding operationID idempotencyKey reason actor =
     thenT (unlessT (idempotencyKey \<noteq> [] \<and> TrimSpace reason \<noteq> []) (ErrInvalid ''idempotency key and reversal reason are required''))
    (bindT (rowT ErrNotFound (opById operationID)) (\<lambda>operation.
       if o_status operation = F_REVERSED then returnT operation
       else thenT (unlessT (0 < o_settled operation) ErrFundingTerminal)
           (thenT (writeReversal operation idempotencyKey reason actor)
                  (rowT ErrNotFound (opById (o_id operation))))))"

section \<open>Lookups\<close>

definition FundingOperationByID :: "string \<Rightarrow> FundingOperation dbtx" where
  "FundingOperationByID operationID = rowT ErrNotFound (opById operationID)"

definition FundingOperationByRequestID :: "string \<Rightarrow> FundingOperation dbtx" where
  "FundingOperationByRequestID requestID = rowT ErrNotFound (\<lambda>s. find (\<lambda>q. o_request q = requestID) (operations s))"

text \<open>\<open>ORDER BY created_at DESC,id DESC LIMIT clamp(limit) OFFSET max(offset,0)\<close>.\<close>

definition newestPage :: "('r \<Rightarrow> int) \<Rightarrow> ('r \<Rightarrow> string) \<Rightarrow> int \<Rightarrow> int \<Rightarrow> 'r list \<Rightarrow> 'r list" where
  "newestPage created rid limit offset rows = take (clamp limit) (drop (nat offset) (rev (sort_key (\<lambda>r. (created r, rid r)) rows)))"

definition ListFundingOperations :: "string \<Rightarrow> int \<Rightarrow> int \<Rightarrow> db \<Rightarrow> FundingOperation list" where
  "ListFundingOperations walletID limit offset s =
     newestPage o_created o_id limit offset (filter (\<lambda>q. o_wallet q = walletID) (operations s))"

definition ListJournals :: "string \<Rightarrow> int \<Rightarrow> int \<Rightarrow> db \<Rightarrow> (Journal \<times> JournalEntry list) list" where
  "ListJournals walletID limit offset s =
     map (\<lambda>j. (j, sort_key e_id (filter (\<lambda>e. e_journal e = j_id j) (entries s))))
       (newestPage j_created j_id limit offset (filter (\<lambda>j. j_wallet j = Some walletID) (journals s)))"

end
