(* ===== verification/Wallets.thy ===== *)
theory Wallets
  imports Funding
begin

text \<open>
  Wallets (\<^verbatim>\<open>internal/store/billing.go\<close> and \<open>WalletBalanceComposition\<close> of
  \<^verbatim>\<open>internal/store/finance.go\<close>): lookups, the request gate, the administrator's settings, manual
  transactions and the composition of a balance. \<open>scanWallet\<close> and \<open>scanWalletTransaction\<close> read a row;
  their decimals are the columns' values (\<open>ParseDecimal_FloatString12\<close>).
\<close>

section \<open>A wallet for every organization\<close>

text \<open>The triggers of the schema: an organization gets a wallet (\<open>create_organization_wallet\<close>, with the column defaults), a
  wallet gets its ledger accounts and those of its currency (\<open>create_wallet_ledger_accounts\<close>).\<close>

definition ensureAccount :: "string \<Rightarrow> EntrySide \<Rightarrow> string \<Rightarrow> unit dbtx" where
  "ensureAccount key side currency =
     bindT uuidT (\<lambda>aid. bindT (getT (\<lambda>s. list_ex (\<lambda>a. a_key a = key) (ledger_accounts s))) (\<lambda>conflict.
     whenT (\<not> conflict)
       (thenT (checkT (\<lambda>s. unused (\<lambda>a. a_id a = aid) (ledger_accounts s)) (ErrConstraint ''ledger_account_pkey''))
              (modifyT (\<lambda>s. s\<lparr>ledger_accounts := ledger_accounts s @ [\<lparr>a_id = aid, a_key = key, a_currency = currency, a_active = True, a_normal = side\<rparr>]\<rparr>)))))"

definition createWalletAccounts :: "Wallet \<Rightarrow> unit dbtx" where
  "createWalletAccounts w = forT
     [(systemAccountKey ''cash'' (w_currency w), DEBIT), (systemAccountKey ''revenue'' (w_currency w), CREDIT),
      (systemAccountKey ''migration-equity'' (w_currency w), CREDIT), (systemAccountKey ''adjustment-equity'' (w_currency w), CREDIT),
      (walletAccountKey (w_id w) ''available'', CREDIT), (walletAccountKey (w_id w) ''reserved'', CREDIT)]
     (\<lambda>(key, side). ensureAccount key side (w_currency w))"

definition newWallet :: "string \<Rightarrow> string \<Rightarrow> Wallet" where
  "newWallet wid organizationID = \<lparr>w_id = wid, w_org = organizationID, w_currency = ''USD'', w_mode = POSTPAID, w_available = 0, w_reserved = 0,
     w_credit_limit = 0, w_risk_limit = 10 ^ 10, w_risk_exposure = 0, w_credit_enforced = True, w_status = WalletACTIVE, w_version = 0\<rparr>"

definition createOrganizationWallet :: "string \<Rightarrow> unit dbtx" where
  "createOrganizationWallet organizationID =
     bindT uuidT (\<lambda>wid. bindT (getT (walletByOrg organizationID)) (\<lambda>existing.
     whenT (existing = None)
       (thenT (checkT (\<lambda>s. unused (\<lambda>w. w_id w = wid) (wallets s)) (ErrConstraint ''wallets_pkey''))
       (thenT (modifyT (\<lambda>s. s\<lparr>wallets := wallets s @ [newWallet wid organizationID]\<rparr>))
              (createWalletAccounts (newWallet wid organizationID))))))"

section \<open>Lookups, the request gate and settings\<close>

definition WalletByOrganization :: "string \<Rightarrow> Wallet dbtx" where
  "WalletByOrganization organizationID = rowT ErrNotFound (walletByOrg organizationID)"

definition WalletByID :: "string \<Rightarrow> Wallet dbtx" where
  "WalletByID walletID = rowT ErrNotFound (walletById walletID)"

definition WalletAllowsRequest :: "string \<Rightarrow> bool dbtx" where
  "WalletAllowsRequest organizationID =
     bindT (WalletByOrganization organizationID) (\<lambda>wallet.
       if w_status wallet \<noteq> WalletACTIVE then returnT False
       else if w_mode wallet \<noteq> PREPAID then returnT True
       else thenT (unlessT (money_in_range (w_available wallet + w_credit_limit wallet)) (ErrDecimal ErrInvalidNumeric))
                  (returnT (0 < w_available wallet + w_credit_limit wallet)))"

definition UpdateWallet :: "Wallet \<Rightarrow> Wallet dbtx" where
  "UpdateWallet wallet =
     thenT (updateWallet (w_id wallet) (\<lambda>v. v\<lparr>w_mode := w_mode wallet, w_credit_limit := w_credit_limit wallet, w_risk_limit := w_risk_limit wallet,
              w_credit_enforced := w_credit_enforced wallet, w_status := w_status wallet, w_version := w_version v + 1\<rparr>))
           (rowT ErrNotFound (walletById (w_id wallet)))"

record TransactionRequest =
  tr_wallet :: string
  tr_type :: TransactionType
  tr_amount :: money
  tr_key :: string
  tr_reference :: string
  tr_created_by :: "string option"

definition transactionLines :: "TransactionRequest \<Rightarrow> string \<Rightarrow> journalLine list" where
  "transactionLines r currency =
     (let counterpart = systemAccountKey (if tr_type r = TOPUP then ''cash'' else ''adjustment-equity'') currency;
          available = walletAccountKey (tr_wallet r) ''available'' in
      if 0 < tr_amount r
      then [\<lparr>jl_key = counterpart, jl_side = DEBIT, jl_amount = \<bar>tr_amount r\<bar>\<rparr>, \<lparr>jl_key = available, jl_side = CREDIT, jl_amount = \<bar>tr_amount r\<bar>\<rparr>]
      else [\<lparr>jl_key = available, jl_side = DEBIT, jl_amount = \<bar>tr_amount r\<bar>\<rparr>, \<lparr>jl_key = counterpart, jl_side = CREDIT, jl_amount = \<bar>tr_amount r\<bar>\<rparr>])"

text \<open>The writes of a transaction that is not a replay.\<close>

definition writeTransaction :: "TransactionRequest \<Rightarrow> Wallet \<Rightarrow> WalletTransaction dbtx" where
  "writeTransaction r wallet =
     bindT uuidT (\<lambda>transactionID.
     thenT (unlessT (0 \<le> tr_amount r \<or> 0 \<le> w_available wallet + tr_amount r + w_credit_limit wallet) ErrWalletUnavailable)
    (bindT (updateWalletReturning (tr_wallet r) (\<lambda>v. v\<lparr>w_available := w_available v + tr_amount r, w_version := w_version v + 1\<rparr>)) (\<lambda>w.
     bindT (postJournalTx (tr_wallet r) (if tr_type r = TOPUP then J_TOPUP else J_ADJUSTMENT)
              (''wallet-transaction:'' @ tr_wallet r @ '':'' @ tr_key r) (w_currency w) (tr_reference r) (transactionLines r (w_currency w))) (\<lambda>journalID.
     bindT (getT clk) (\<lambda>now.
     let t = \<lparr>t_id = transactionID, t_wallet = tr_wallet r, t_type = tr_type r, t_amount = tr_amount r, t_balance_after = w_available w,
              t_key = nullString (tr_key r), t_reference = nullString (tr_reference r), t_journal = Some journalID, t_operation = None,
              t_recharge = None, t_refund = None, t_created = now\<rparr> in
     thenT (insertWalletTransaction t)
    (thenT (if 0 < tr_amount r
            then createCashLotTx (tr_wallet r) [] transactionID (if tr_type r = TOPUP then LotTOPUP else LotADJUSTMENT)
                   (''wallet-transaction:'' @ transactionID) (tr_amount r) (w_currency w) False
            else whenT (tr_amount r < 0) (allocateCashDebitTx (tr_wallet r) transactionID \<bar>tr_amount r\<bar>))
    (thenT (writeAuditTx (tr_created_by r) ''wallet.transaction.committed'' (tr_wallet r))
           (returnT t))))))))"

definition CreateWalletTransaction :: "TransactionRequest \<Rightarrow> WalletTransaction dbtx" where
  "CreateWalletTransaction r =
     bindT (rowT ErrNotFound (walletById (tr_wallet r))) (\<lambda>wallet.
     thenT (unlessT (w_status wallet = WalletACTIVE) ErrWalletUnavailable)
    (bindT (getT (\<lambda>s. if tr_key r = [] then None
                else find (\<lambda>t. t_wallet t = tr_wallet r \<and> t_key t = Some (tr_key r)) (wallet_transactions s))) (\<lambda>existing.
     case existing of
       Some t \<Rightarrow> if t_type t \<noteq> tr_type r \<or> t_amount t \<noteq> tr_amount r \<or> (case t_reference t of None \<Rightarrow> [] | Some x \<Rightarrow> x) \<noteq> tr_reference r
                 then failT ErrIdempotencyConflict else returnT t
     | None \<Rightarrow> writeTransaction r wallet)))"

definition ListWalletTransactions :: "string \<Rightarrow> int \<Rightarrow> int \<Rightarrow> db \<Rightarrow> WalletTransaction list" where
  "ListWalletTransactions walletID limit offset s =
     newestPage t_created t_id limit offset (filter (\<lambda>t. t_wallet t = walletID) (wallet_transactions s))"

record WalletComposition =
  wc_cash :: money
  wc_refundable :: money
  wc_bonus :: money
  wc_credit_used :: money
  wc_credit_available :: money
  wc_credit_limit :: money
  wc_reserved :: money
  wc_aggregate :: money
  wc_gap :: money

definition WalletBalanceComposition :: "string \<Rightarrow> WalletComposition dbtx" where
  "WalletBalanceComposition organizationID =
     bindT (rowT ErrNotFound (walletByOrg organizationID)) (\<lambda>w.
     getT (\<lambda>s.
       let cash = column_sum (\<lambda>l. l_wallet l = w_id w) l_remaining (cash_lots s);
           creditUsed = max (- w_available w) 0 in
       \<lparr>wc_cash = cash,
        wc_refundable = column_sum (\<lambda>l. l_wallet l = w_id w \<and> l_refundable l) l_remaining (cash_lots s),
        wc_bonus = column_sum (\<lambda>c. pc_org c = w_org w \<and> pc_currency c = w_currency w \<and> pc_status c = P_ACTIVE \<and>
                     (case pc_expires c of None \<Rightarrow> True | Some e \<Rightarrow> clk s < e)) pc_remaining (promotions s),
        wc_credit_used = creditUsed,
        wc_credit_available = max (w_credit_limit w - creditUsed) 0,
        wc_credit_limit = w_credit_limit w,
        wc_reserved = w_reserved w,
        wc_aggregate = w_available w,
        wc_gap = max (w_available w - cash) 0\<rparr>))"

end
