(* ===== verification/Payments.thy ===== *)
theory Payments
  imports Wallets
begin

text \<open>
  Recharge orders, webhooks, refunds and reconciliation records (\<^verbatim>\<open>internal/store/payments.go\<close>), with
  the risk check of \<^verbatim>\<open>internal/store/governance.go\<close> and the provisioning job a credited order enqueues
  (\<^verbatim>\<open>internal/store/provider_accounts.go\<close>).

  Amounts of requests and provider messages are decimal texts, as in the code. SHA-256 is a parameter
  \<open>sha\<close> of the definitions that fingerprint a request. Advisory locks order concurrent transactions
  and have no other effect: a definition here is one transaction.
\<close>

section \<open>Decimal texts\<close>

definition decimalEqual :: "string \<Rightarrow> string \<Rightarrow> bool" where
  "decimalEqual a b = (case (rat_SetString (zeroIfEmpty a), rat_SetString (zeroIfEmpty b)) of
      (Some left, Some right) \<Rightarrow> left = right | _ \<Rightarrow> False)"

text \<open>A decimal text written to a \<open>NUMERIC(30,12)\<close> column.\<close>

definition columnValue :: "string \<Rightarrow> store_error + money" where
  "columnValue t = (case decimalRat t of Inl e \<Rightarrow> Inl (ErrDecimal e) | Inr r \<Rightarrow> Inr (round12 r))"

section \<open>Statements\<close>

definition paidStatuses :: "RechargeStatus set" where
  "paidStatuses = {R_PAID, R_CREDITED, R_REFUND_PENDING, R_REFUNDED, R_CHARGEBACK}"

definition creditedStatuses :: "RechargeStatus set" where
  "creditedStatuses = {R_CREDITED, R_REFUND_PENDING, R_REFUNDED, R_CHARGEBACK}"

definition rechargeChecks :: "RechargeOrder \<Rightarrow> bool" where
  "rechargeChecks r \<longleftrightarrow> 0 < ro_amount r \<and> (ro_status r \<in> paidStatuses) = (ro_paid_at r \<noteq> None) \<and>
     (ro_status r \<in> creditedStatuses) = (ro_credited_at r \<noteq> None) \<and> (ro_tx r = None) = (ro_journal r = None) \<and>
     (ro_status r \<in> creditedStatuses \<longrightarrow> ro_tx r \<noteq> None)"

definition lowerAlpha :: "char \<Rightarrow> bool" where
  "lowerAlpha c = (let n = (of_char c :: nat) in 97 \<le> n \<and> n \<le> 122)"

text \<open>\<^verbatim>\<open>^[a-z][a-z0-9_-]{1,31}$\<close>\<close>

definition providerNameOk :: "string \<Rightarrow> bool" where
  "providerNameOk p = (case p of [] \<Rightarrow> False
     | c # r \<Rightarrow> lowerAlpha c \<and> 1 \<le> length r \<and> length r \<le> 31 \<and>
         list_all (\<lambda>x. lowerAlpha x \<or> is_digit x \<or> x = CHR ''_'' \<or> x = CHR ''-'') r)"

definition regionOk :: "string \<Rightarrow> bool" where
  "regionOk s \<longleftrightarrow> length s = 2 \<and> list_all (\<lambda>c. let n = (of_char c :: nat) in 65 \<le> n \<and> n \<le> 90) s"

definition rechargeById :: "string \<Rightarrow> db \<Rightarrow> RechargeOrder option" where
  "rechargeById oid s = find (\<lambda>r. ro_id r = oid) (recharge_orders s)"

definition insertRecharge :: "RechargeOrder \<Rightarrow> unit dbtx" where
  "insertRecharge r =
     thenT (numericT (ro_amount r))
    (thenT (unlessT (rechargeChecks r \<and> providerNameOk (ro_provider r) \<and> currencyPattern (ro_currency r) \<and> regionOk (ro_region r)) (ErrConstraint ''recharge_order_check''))
    (thenT (checkT (\<lambda>s. unused (\<lambda>q. ro_id q = ro_id r) (recharge_orders s)) (ErrConstraint ''recharge_order_pkey''))
    (thenT (checkT (\<lambda>s. unused (\<lambda>q. ro_platform_no q = ro_platform_no r) (recharge_orders s)) (ErrConstraint ''recharge_order_platform_order_no_key''))
    (thenT (checkT (\<lambda>s. unused (\<lambda>q. ro_org q = ro_org r \<and> ro_key q = ro_key r) (recharge_orders s)) (ErrConstraint ''recharge_order_organization_id_idempotency_key_key''))
           (modifyT (\<lambda>s. s\<lparr>recharge_orders := recharge_orders s @ [r]\<rparr>))))))"

text \<open>An \<open>UPDATE\<close> of the orders that satisfy \<open>p\<close>, which sets \<open>updated_at\<close> to the time of the statement unless \<open>g\<close>
  sets it; the row \<open>CHECK\<close>s apply to the new rows.\<close>

definition updateRecharge :: "(RechargeOrder \<Rightarrow> bool) \<Rightarrow> (RechargeOrder \<Rightarrow> RechargeOrder) \<Rightarrow> unit dbtx" where
  "updateRecharge p g =
     thenT (checkT (\<lambda>s. list_all (\<lambda>r. p r \<longrightarrow> rechargeChecks (g r)) (recharge_orders s)) (ErrConstraint ''recharge_order_check''))
           (modifyT (\<lambda>s. s\<lparr>recharge_orders := update_where p (\<lambda>r. g (r\<lparr>ro_updated := clk s\<rparr>)) (recharge_orders s)\<rparr>))"

definition rechargesAffected :: "(RechargeOrder \<Rightarrow> bool) \<Rightarrow> nat dbtx" where
  "rechargesAffected p = getT (\<lambda>s. rows_affected p (recharge_orders s))"

definition refundChecks :: "RefundOrder \<Rightarrow> bool" where
  "refundChecks r \<longleftrightarrow> 0 < rf_amount r \<and> currencyPattern (rf_currency r) \<and> (rf_tx r = None) = (rf_journal r = None) \<and> (rf_status r = RF_SUCCEEDED \<longrightarrow> rf_tx r \<noteq> None)"

definition refundById :: "string \<Rightarrow> db \<Rightarrow> RefundOrder option" where
  "refundById rid s = find (\<lambda>r. rf_id r = rid) (refund_orders s)"

definition insertRefund :: "RefundOrder \<Rightarrow> unit dbtx" where
  "insertRefund r =
     thenT (numericT (rf_amount r))
    (thenT (unlessT (refundChecks r) (ErrConstraint ''refund_order_check''))
    (thenT (checkT (\<lambda>s. unused (\<lambda>q. rf_id q = rf_id r) (refund_orders s)) (ErrConstraint ''refund_order_pkey''))
    (thenT (checkT (\<lambda>s. unused (\<lambda>q. rf_platform_no q = rf_platform_no r) (refund_orders s)) (ErrConstraint ''refund_order_platform_refund_no_key''))
    (thenT (checkT (\<lambda>s. unused (\<lambda>q. rf_recharge q = rf_recharge r \<and> rf_key q = rf_key r) (refund_orders s)) (ErrConstraint ''refund_order_recharge_order_id_idempotency_key_key''))
    (thenT (checkT (\<lambda>s. rf_provider_no r = None \<or> unused (\<lambda>q. rf_provider q = rf_provider r \<and> rf_provider_no q = rf_provider_no r) (refund_orders s))
              (ErrConstraint ''refund_order_payment_provider_provider_refund_no_key''))
    (thenT (checkT (\<lambda>s. rf_application r = None \<or> unused (\<lambda>q. rf_application q = rf_application r) (refund_orders s)) (ErrConstraint ''refund_order_application_uq''))
           (modifyT (\<lambda>s. s\<lparr>refund_orders := refund_orders s @ [r]\<rparr>))))))))"

definition updateRefund :: "(RefundOrder \<Rightarrow> bool) \<Rightarrow> (RefundOrder \<Rightarrow> RefundOrder) \<Rightarrow> unit dbtx" where
  "updateRefund p g =
     thenT (checkT (\<lambda>s. list_all (\<lambda>r. p r \<longrightarrow> refundChecks (g r)) (refund_orders s)) (ErrConstraint ''refund_order_check''))
           (modifyT (\<lambda>s. s\<lparr>refund_orders := update_where p g (refund_orders s)\<rparr>))"

text \<open>\<open>UNIQUE(payment_provider,provider_refund_no)\<close> for the refund \<open>rid\<close>.\<close>

definition refundNoFree :: "string \<Rightarrow> string \<Rightarrow> db \<Rightarrow> bool" where
  "refundNoFree rid no s = list_all (\<lambda>r. rf_id r = rid \<longrightarrow>
     unused (\<lambda>q. rf_id q \<noteq> rid \<and> rf_provider q = rf_provider r \<and> rf_provider_no q = Some no) (refund_orders s)) (refund_orders s)"

section \<open>Creating an order\<close>

record CreateRechargeOrderRequest =
  cr_platform_no :: string
  cr_organization :: string
  cr_payment_provider :: string
  cr_amount :: string
  cr_currency :: string
  cr_region :: string
  cr_key :: string
  cr_expires :: int
  cr_created_by :: "string option"
  cr_target_provider :: string
  cr_target_mode :: string

definition normalizeRecharge :: "CreateRechargeOrderRequest \<Rightarrow> CreateRechargeOrderRequest" where
  "normalizeRecharge r = r\<lparr>cr_currency := ToUpper (TrimSpace (cr_currency r)), cr_region := ToUpper (TrimSpace (cr_region r)),
     cr_payment_provider := ToLower (TrimSpace (cr_payment_provider r)), cr_target_provider := TrimSpace (cr_target_provider r),
     cr_target_mode := ToUpper (TrimSpace (cr_target_mode r))\<rparr>"

fun joinNul :: "string list \<Rightarrow> string" where
  "joinNul [] = []"
| "joinNul [x] = x"
| "joinNul (x # xs) = x @ [CHR 0x00] @ joinNul xs"

definition rechargeFingerprint :: "(string \<Rightarrow> string) \<Rightarrow> CreateRechargeOrderRequest \<Rightarrow> string" where
  "rechargeFingerprint sha r = sha (joinNul [cr_organization r, cr_payment_provider r, cr_amount r, cr_currency r, cr_region r,
     cr_target_provider r, cr_target_mode r])"

definition validProvisioningMode :: "string \<Rightarrow> bool" where
  "validProvisioningMode value \<longleftrightarrow> value = ''OFFICIAL_ENTERPRISE'' \<or> value = ''BYOK'' \<or> value = ''MANUAL'' \<or> value = ''MOCK_ENTERPRISE''"

definition rechargeValid :: "CreateRechargeOrderRequest \<Rightarrow> int \<Rightarrow> bool" where
  "rechargeValid r now \<longleftrightarrow> cr_platform_no r \<noteq> [] \<and> cr_organization r \<noteq> [] \<and> cr_key r \<noteq> [] \<and> length (cr_key r) \<le> 200 \<and>
     Decimal_IsPositive (cr_amount r) = Inr True \<and> length (cr_currency r) = 3 \<and> length (cr_region r) = 2 \<and> now \<le> cr_expires r \<and>
     (cr_target_provider r = []) = (cr_target_mode r = []) \<and> (cr_target_mode r = [] \<or> validProvisioningMode (cr_target_mode r))"

definition checkRechargeRisk :: "string \<Rightarrow> string \<Rightarrow> money \<Rightarrow> unit dbtx" where
  "checkRechargeRisk organizationID userID amount =
     bindT (rowT ErrNotFound (\<lambda>s. case (find (\<lambda>u. rk_id u = userID) (user_risks s), find (\<lambda>o1. rk_id o1 = organizationID) (org_risks s)) of
          (Some u, Some o1) \<Rightarrow> Some (u, o1) | _ \<Rightarrow> None)) (\<lambda>(u, o1).
     thenT (unlessT (\<not> (rk_payment u = RiskBLOCKED \<or> rk_payment o1 = RiskBLOCKED \<or> rk_abuse u = AbuseFROZEN \<or> rk_abuse o1 = AbuseFROZEN)) ErrRiskFrozen)
    (thenT (unlessT (\<not> (rk_payment u = RiskHIGH \<or> rk_payment o1 = RiskHIGH \<or> rk_abuse u = AbuseRESTRICTED \<or> rk_abuse o1 = AbuseRESTRICTED \<or>
                        90 \<le> rk_score u \<or> 90 \<le> rk_score o1)) ErrRiskRestricted)
           (unlessT (list_all (\<lambda>l. case l of None \<Rightarrow> True | Some limit \<Rightarrow> amount \<le> limit) [rk_limit u, rk_limit o1]) ErrRiskRestricted)))"

text \<open>The binding of a user to a provider account: inserted, or found with the same mode.\<close>

definition bindProviderAccount :: "string \<Rightarrow> string \<Rightarrow> string \<Rightarrow> string \<Rightarrow> string dbtx" where
  "bindProviderAccount organizationID userID providerID mode =
     bindT uuidT (\<lambda>bid.
     bindT (getT (\<lambda>s. find (\<lambda>b. ab_org b = organizationID \<and> ab_user b = userID \<and> ab_provider b = providerID) (account_bindings s))) (\<lambda>row.
     case row of
       Some b \<Rightarrow> if ab_mode b = mode then returnT (ab_id b) else failT ErrBindingMode
     | None \<Rightarrow> thenT (checkT (\<lambda>s. unused (\<lambda>b. ab_id b = bid) (account_bindings s)) (ErrConstraint ''provider_account_binding_pkey''))
              (thenT (modifyT (\<lambda>s. s\<lparr>account_bindings := account_bindings s @ [\<lparr>ab_id = bid, ab_org = organizationID, ab_user = userID,
                        ab_provider = providerID, ab_mode = mode, ab_status = ''PENDING''\<rparr>]\<rparr>)) (returnT bid))))"

definition bindTarget :: "CreateRechargeOrderRequest \<Rightarrow> unit dbtx" where
  "bindTarget r =
     (case cr_created_by r of
        None \<Rightarrow> failT (ErrInvalid ''target provider recharge requires a user'')
      | Some user \<Rightarrow>
          thenT (unlessT (TrimSpace user \<noteq> []) (ErrInvalid ''target provider recharge requires a user''))
         (thenT (checkT (\<lambda>s. list_ex (\<lambda>p. p_id p = cr_target_provider r \<and> p_enabled p) (providers s) \<and>
                             (cr_organization r, user) \<in> set (memberships s)) ErrNotFound)
         (thenT (bindProviderAccount (cr_organization r) user (cr_target_provider r) (cr_target_mode r)) (returnT ()))))"

definition placeRecharge :: "(string \<Rightarrow> string) \<Rightarrow> CreateRechargeOrderRequest \<Rightarrow> RechargeOrder dbtx" where
  "placeRecharge sha r =
     bindT (liftT (columnValue (cr_amount r))) (\<lambda>amount.
     thenT (case cr_created_by r of
              Some user \<Rightarrow> whenT (TrimSpace user \<noteq> []) (checkRechargeRisk (cr_organization r) user amount)
            | None \<Rightarrow> returnT ())
    (thenT (whenT (cr_target_provider r \<noteq> []) (bindTarget r))
    (bindT (rowT ErrNotFound (walletByOrg (cr_organization r))) (\<lambda>w.
     thenT (unlessT (w_status w \<noteq> WalletCLOSED \<and> w_currency w = cr_currency r) ErrWalletUnavailable)
    (bindT uuidT (\<lambda>orderID. bindT (getT clk) (\<lambda>now.
     thenT (insertRecharge \<lparr>ro_id = orderID, ro_platform_no = cr_platform_no r, ro_org = cr_organization r, ro_wallet = w_id w,
              ro_created_by = cr_created_by r, ro_provider = cr_payment_provider r, ro_provider_no = None, ro_status = R_CREATED,
              ro_amount = amount, ro_currency = cr_currency r, ro_region = cr_region r, ro_key = cr_key r,
              ro_fingerprint = rechargeFingerprint sha r, ro_tx = None, ro_journal = None, ro_expires = cr_expires r, ro_paid_at = None,
              ro_credited_at = None, ro_closed_at = None, ro_failure = None, ro_created = now, ro_updated = now,
              ro_target_provider = nullString (cr_target_provider r), ro_target_mode = nullString (cr_target_mode r)\<rparr>)
    (thenT (writeAuditTx (cr_created_by r) ''payment.recharge_created'' orderID)
           (rowT ErrNotFound (rechargeById orderID))))))))))"

definition CreateRechargeOrder :: "(string \<Rightarrow> string) \<Rightarrow> CreateRechargeOrderRequest \<Rightarrow> (RechargeOrder \<times> bool) dbtx" where
  "CreateRechargeOrder sha request =
     (let r = normalizeRecharge request in
     bindT (getT clk) (\<lambda>now.
     thenT (unlessT (rechargeValid r now) (ErrInvalid ''invalid recharge order''))
    (bindT (getT (\<lambda>s. find (\<lambda>q. ro_org q = cr_organization r \<and> ro_key q = cr_key r) (recharge_orders s))) (\<lambda>existing.
     case existing of
       Some q \<Rightarrow> if ro_fingerprint q \<noteq> rechargeFingerprint sha r then failT ErrIdempotencyConflict else returnT (q, True)
     | None \<Rightarrow> bindT (placeRecharge sha r) (\<lambda>q. returnT (q, False))))))"

section \<open>Attempts and simple transitions\<close>

definition nextAttemptNo :: "string \<Rightarrow> db \<Rightarrow> nat" where
  "nextAttemptNo orderID s = Suc (foldr max (map pt_no (filter (\<lambda>a. pt_order a = orderID) (payment_attempts s))) 0)"

definition insertPaymentAttempt :: "PaymentAttempt \<Rightarrow> unit dbtx" where
  "insertPaymentAttempt a =
     thenT (checkT (\<lambda>s. unused (\<lambda>b. pt_id b = pt_id a) (payment_attempts s)) (ErrConstraint ''payment_attempt_pkey''))
    (thenT (checkT (\<lambda>s. list_ex (\<lambda>r. ro_id r = pt_order a) (recharge_orders s)) (ErrConstraint ''payment_attempt_recharge_order_id_fkey''))
    (thenT (unlessT (pt_operation a \<in> {''CREATE'', ''QUERY'', ''VERIFY_WEBHOOK'', ''REFUND'', ''CLOSE'', ''RECONCILE'', ''MANUAL_REVIEW''})
              (ErrConstraint ''payment_attempt_operation_check''))
           (modifyT (\<lambda>s. s\<lparr>payment_attempts := payment_attempts s @ [a]\<rparr>))))"

definition StartPaymentAttempt :: "string \<Rightarrow> string \<Rightarrow> PaymentAttempt dbtx" where
  "StartPaymentAttempt orderID operation =
     bindT (getT (nextAttemptNo orderID)) (\<lambda>no. bindT uuidT (\<lambda>aid.
     let a = \<lparr>pt_id = aid, pt_order = orderID, pt_no = no, pt_operation = operation, pt_status = PA_STARTED, pt_provider_no = None\<rparr> in
     thenT (insertPaymentAttempt a) (returnT a)))"

definition FinishPaymentAttempt :: "string \<Rightarrow> string \<Rightarrow> string \<Rightarrow> unit dbtx" where
  "FinishPaymentAttempt attemptID status providerOrderNo =
     bindT (liftT (if status = ''SUCCEEDED'' then Inr PA_SUCCEEDED else if status = ''FAILED'' then Inr PA_FAILED
                   else if status = ''PENDING'' then Inr PA_PENDING else Inl (ErrInvalid ''invalid payment attempt status''))) (\<lambda>st.
     bindT (getT (\<lambda>s. rows_affected (\<lambda>a. pt_id a = attemptID \<and> pt_status a = PA_STARTED) (payment_attempts s))) (\<lambda>n.
     thenT (modifyT (\<lambda>s. s\<lparr>payment_attempts := update_where (\<lambda>a. pt_id a = attemptID \<and> pt_status a = PA_STARTED)
              (\<lambda>a. a\<lparr>pt_status := st, pt_provider_no := nullString providerOrderNo\<rparr>) (payment_attempts s)\<rparr>))
           (unlessT (n \<noteq> 0) ErrPaymentState)))"

definition MarkRechargePending :: "string \<Rightarrow> string \<Rightarrow> RechargeOrder dbtx" where
  "MarkRechargePending orderID providerOrderNo =
     (let p = (\<lambda>r. ro_id r = orderID \<and> ro_status r = R_CREATED) in
     bindT (rechargesAffected p) (\<lambda>n.
     thenT (checkT (\<lambda>s. list_all (\<lambda>r. p r \<longrightarrow> unused (\<lambda>q. ro_id q \<noteq> orderID \<and> ro_provider q = ro_provider r \<and> ro_provider_no q = Some providerOrderNo)
                                              (recharge_orders s)) (recharge_orders s))
              (ErrConstraint ''recharge_order_payment_provider_provider_order_no_key''))
    (thenT (updateRecharge p (\<lambda>r. r\<lparr>ro_provider_no := Some providerOrderNo, ro_status := R_PENDING\<rparr>))
    (thenT (unlessT (n \<noteq> 0) ErrPaymentState)
           (rowT ErrNotFound (rechargeById orderID))))))"

definition MarkRechargeFailed :: "string \<Rightarrow> string \<Rightarrow> unit dbtx" where
  "MarkRechargeFailed orderID code =
     updateRecharge (\<lambda>r. ro_id r = orderID \<and> ro_status r \<in> {R_CREATED, R_PENDING}) (\<lambda>r. r\<lparr>ro_status := R_FAILED, ro_failure := Some code\<rparr>)"

record VerifiedWebhook =
  vw_event :: string
  vw_provider_no :: string
  vw_platform_no :: string
  vw_type :: string
  vw_status :: string
  vw_amount :: string
  vw_currency :: string
  vw_replay :: string

definition providerOrderNo :: "RechargeOrder \<Rightarrow> string" where
  "providerOrderNo r = (case ro_provider_no r of None \<Rightarrow> [] | Some n \<Rightarrow> n)"

definition validateVerifiedPayment :: "RechargeOrder \<Rightarrow> VerifiedWebhook \<Rightarrow> bool" where
  "validateVerifiedPayment order verified \<longleftrightarrow> \<not> (ro_provider order = [] \<or> providerOrderNo order \<noteq> vw_provider_no verified \<or>
     \<not> decimalEqual (numericText (ro_amount order)) (vw_amount verified) \<or> ro_currency order \<noteq> vw_currency verified)"

record PaymentResult =
  pr_provider_no :: string
  pr_status :: string
  pr_amount :: string
  pr_currency :: string

definition payOrder :: "string \<Rightarrow> unit dbtx" where
  "payOrder orderID = bindT (getT clk) (\<lambda>now.
     updateRecharge (\<lambda>r. ro_id r = orderID) (\<lambda>r. r\<lparr>ro_status := R_PAID, ro_paid_at := Some now\<rparr>))"

definition failOrder :: "string \<Rightarrow> RechargeStatus \<Rightarrow> string \<Rightarrow> unit dbtx" where
  "failOrder orderID status code =
     updateRecharge (\<lambda>r. ro_id r = orderID) (\<lambda>r. r\<lparr>ro_status := status, ro_failure := Some code\<rparr>)"

definition ApplyPaymentQueryResult :: "string \<Rightarrow> PaymentResult \<Rightarrow> string option \<Rightarrow> RechargeOrder dbtx" where
  "ApplyPaymentQueryResult orderID result actor =
     bindT (rowT ErrNotFound (rechargeById orderID)) (\<lambda>order.
     thenT (unlessT (pr_provider_no result = providerOrderNo order \<and>
              (pr_amount result = ''0'' \<or> decimalEqual (pr_amount result) (numericText (ro_amount order))) \<and>
              (pr_currency result = [] \<or> pr_currency result = ro_currency order)) ErrPaymentMismatch)
    (thenT (let st = ToUpper (pr_status result) in
            if st = ''PAID'' then whenT (ro_status order \<in> {R_CREATED, R_PENDING, R_EXPIRED}) (payOrder (ro_id order))
            else if st = ''FAILED'' then whenT (ro_status order \<in> {R_CREATED, R_PENDING}) (failOrder (ro_id order) R_FAILED ''provider_query_failed'')
            else if st = ''EXPIRED'' then whenT (ro_status order \<in> {R_CREATED, R_PENDING}) (failOrder (ro_id order) R_EXPIRED ''provider_query_expired'')
            else returnT ())
    (thenT (writeAuditTx actor ''payment.query_applied'' (ro_id order))
           (rowT ErrNotFound (rechargeById (ro_id order))))))"

definition MarkRechargePaid :: "string \<Rightarrow> string \<Rightarrow> string option \<Rightarrow> RechargeOrder dbtx" where
  "MarkRechargePaid orderID evidenceReference actor =
     bindT (rowT ErrNotFound (rechargeById orderID)) (\<lambda>order.
       if ro_status order = R_PAID \<or> ro_status order = R_CREDITED then returnT order
       else thenT (unlessT (ro_status order = R_PENDING \<and> ro_provider order = ''manual_transfer'' \<and> TrimSpace evidenceReference \<noteq> []) ErrPaymentState)
           (thenT (payOrder (ro_id order))
           (thenT (writeAuditTx actor ''payment.manual_approved'' (ro_id order))
                  (rowT ErrNotFound (rechargeById (ro_id order))))))"

section \<open>Chargeback, webhooks and the credit\<close>

definition applyChargebackTx :: "RechargeOrder \<Rightarrow> string \<Rightarrow> unit dbtx" where
  "applyChargebackTx order providerEventID =
     bindT (rowT ErrNoRows (walletById (ro_wallet order))) (\<lambda>w0.
     thenT (unlessT (w_status w0 \<noteq> WalletCLOSED \<and> w_currency w0 = ro_currency order) ErrWalletUnavailable)
    (bindT (updateWalletReturning (ro_wallet order) (\<lambda>v. v\<lparr>w_available := w_available v - ro_amount order, w_version := w_version v + 1\<rparr>)) (\<lambda>w.
     bindT uuidT (\<lambda>refundID. bindT (getT clk) (\<lambda>now.
     thenT (insertRefund \<lparr>rf_id = refundID, rf_platform_no = ''CB'' @ filter (\<lambda>c. c \<noteq> CHR ''_'') (ro_platform_no order), rf_recharge = ro_id order,
              rf_application = None, rf_provider = ro_provider order, rf_provider_no = Some (''chargeback:'' @ providerEventID), rf_status = RF_CREATED,
              rf_amount = ro_amount order, rf_currency = ro_currency order, rf_reason = ''Provider chargeback'', rf_key = ''chargeback:'' @ providerEventID,
              rf_tx = None, rf_journal = None, rf_created_by = None, rf_failure = None, rf_created = now\<rparr>)
    (bindT (postLinkedJournalTx (ro_wallet order) J_PAYMENT_REFUND (''chargeback:'' @ ro_id order) (ro_currency order) providerEventID None (Some refundID)
              [\<lparr>jl_key = walletAccountKey (ro_wallet order) ''available'', jl_side = DEBIT, jl_amount = ro_amount order\<rparr>,
               \<lparr>jl_key = systemAccountKey ''cash'' (ro_currency order), jl_side = CREDIT, jl_amount = ro_amount order\<rparr>]) (\<lambda>journalID.
     bindT uuidT (\<lambda>transactionID.
     thenT (insertWalletTransaction \<lparr>t_id = transactionID, t_wallet = ro_wallet order, t_type = REFUND, t_amount = - ro_amount order,
              t_balance_after = w_available w, t_key = Some (''chargeback:'' @ ro_id order), t_reference = Some providerEventID, t_journal = Some journalID,
              t_operation = None, t_recharge = None, t_refund = Some refundID, t_created = now\<rparr>)
    (thenT (allocateChargebackTx (ro_wallet order) (ro_id order) transactionID (ro_amount order))
    (thenT (updateRefund (\<lambda>r. rf_id r = refundID) (\<lambda>r. r\<lparr>rf_status := RF_SUCCEEDED, rf_tx := Some transactionID, rf_journal := Some journalID\<rparr>))
    (thenT (updateRecharge (\<lambda>r. ro_id r = ro_id order) (\<lambda>r. r\<lparr>ro_status := R_CHARGEBACK\<rparr>))
           (writeAuditTx None ''payment.chargeback_applied'' (ro_id order)))))))))))))"

definition hashOk :: "string \<Rightarrow> bool" where
  "hashOk h \<longleftrightarrow> length h = 64 \<and> list_all (\<lambda>c. is_digit c \<or> (let n = (of_char c :: nat) in 97 \<le> n \<and> n \<le> 102)) h"

definition webhookConflict :: "string \<Rightarrow> VerifiedWebhook \<Rightarrow> string \<Rightarrow> WebhookEvent \<Rightarrow> bool" where
  "webhookConflict provider v eid e \<longleftrightarrow> we_id e = eid \<or> (we_provider e = provider \<and> (we_event e = vw_event v \<or> we_replay e = vw_replay v))"

text \<open>A delivery seen before: the same bytes replay the result, other bytes under a used key are refused.\<close>

definition replayWebhook :: "string \<Rightarrow> VerifiedWebhook \<Rightarrow> string \<Rightarrow> RechargeOrder \<Rightarrow> (RechargeOrder \<times> bool) dbtx" where
  "replayWebhook provider v rawBodySHA256 order =
     bindT (rowT ErrNoRows (\<lambda>s. find (\<lambda>e. we_provider e = provider \<and> (we_event e = vw_event v \<or> we_replay e = vw_replay v)) (webhook_events s))) (\<lambda>e.
     thenT (unlessT (we_hash e = rawBodySHA256 \<and> we_order e = Some (ro_id order) \<and> we_provider_no e = vw_provider_no v \<and> we_status e = vw_status v \<and>
              decimalEqual (numericText (we_amount e)) (vw_amount v) \<and> we_currency e = vw_currency v) ErrPaymentMismatch)
           (bindT (rowT ErrNotFound (rechargeById (ro_id order))) (\<lambda>r. returnT (r, True))))"

text \<open>A new delivery: the event and the attempt are recorded and the transition applied.\<close>

definition applyWebhook :: "RechargeOrder \<Rightarrow> VerifiedWebhook \<Rightarrow> unit dbtx" where
  "applyWebhook order v =
     (if vw_status v = ''PAID'' then whenT (ro_status order \<in> {R_CREATED, R_PENDING, R_EXPIRED}) (payOrder (ro_id order))
      else if vw_status v = ''FAILED'' then whenT (ro_status order \<in> {R_CREATED, R_PENDING}) (failOrder (ro_id order) R_FAILED ''provider_failed'')
      else if vw_status v = ''CHARGEBACK'' then whenT (ro_status order = R_CREDITED) (applyChargebackTx order (vw_event v))
      else returnT ())"

definition firstWebhook :: "string \<Rightarrow> VerifiedWebhook \<Rightarrow> string \<Rightarrow> string \<Rightarrow> money \<Rightarrow> RechargeOrder \<Rightarrow> (RechargeOrder \<times> bool) dbtx" where
  "firstWebhook provider v rawBodySHA256 eventID amount order =
     thenT (modifyT (\<lambda>s. s\<lparr>webhook_events := webhook_events s @ [\<lparr>we_id = eventID, we_provider = provider, we_event = vw_event v, we_replay = vw_replay v,
              we_provider_no = vw_provider_no v, we_order = Some (ro_id order), we_status = vw_status v, we_amount = amount, we_currency = vw_currency v,
              we_hash = rawBodySHA256, we_processed = False\<rparr>]\<rparr>))
    (bindT uuidT (\<lambda>attemptID. bindT (getT (nextAttemptNo (ro_id order))) (\<lambda>no.
     thenT (insertPaymentAttempt \<lparr>pt_id = attemptID, pt_order = ro_id order, pt_no = no, pt_operation = ''VERIFY_WEBHOOK'', pt_status = PA_SUCCEEDED,
              pt_provider_no = Some (vw_provider_no v)\<rparr>)
    (thenT (applyWebhook order v)
    (thenT (modifyT (\<lambda>s. s\<lparr>webhook_events := update_where (\<lambda>e. we_id e = eventID) (\<lambda>e. e\<lparr>we_processed := True\<rparr>) (webhook_events s)\<rparr>))
    (thenT (writeAuditTx None ''payment.webhook_verified'' (ro_id order))
           (bindT (rowT ErrNotFound (rechargeById (ro_id order))) (\<lambda>r. returnT (r, False)))))))))"

definition RecordVerifiedPaymentWebhook :: "string \<Rightarrow> VerifiedWebhook \<Rightarrow> string \<Rightarrow> (RechargeOrder \<times> bool) dbtx" where
  "RecordVerifiedPaymentWebhook provider v rawBodySHA256 =
     bindT (rowT ErrNotFound (\<lambda>s. find (\<lambda>r. ro_platform_no r = vw_platform_no v) (recharge_orders s))) (\<lambda>order.
     thenT (unlessT (ro_provider order = provider \<and> validateVerifiedPayment order v) ErrPaymentMismatch)
    (bindT uuidT (\<lambda>eventID.
     bindT (liftT (columnValue (vw_amount v))) (\<lambda>amount.
     thenT (unlessT (0 < amount \<and> currencyPattern (vw_currency v) \<and> hashOk rawBodySHA256) (ErrConstraint ''payment_webhook_event_check''))
    (bindT (getT (\<lambda>s. list_ex (webhookConflict provider v eventID) (webhook_events s))) (\<lambda>conflict.
       if conflict then replayWebhook provider v rawBodySHA256 order
       else firstWebhook provider v rawBodySHA256 eventID amount order))))))"

definition createProviderProvisioningJobTx ::
  "string \<Rightarrow> string option \<Rightarrow> string \<Rightarrow> string \<Rightarrow> money option \<Rightarrow> string \<Rightarrow> (string \<times> bool) dbtx" where
  "createProviderProvisioningJobTx bindingID rechargeOrderID operation idempotencyKey amount currency =
     bindT (getT (\<lambda>s. find (\<lambda>j. jb_binding j = bindingID \<and> jb_key j = idempotencyKey) (provisioning_jobs s))) (\<lambda>existing.
     case existing of
       Some j \<Rightarrow> returnT (jb_id j, True)
     | None \<Rightarrow> bindT uuidT (\<lambda>jobID.
         thenT (checkT (\<lambda>s. unused (\<lambda>j. jb_id j = jobID) (provisioning_jobs s)) (ErrConstraint ''provider_provisioning_job_pkey''))
        (thenT (modifyT (\<lambda>s. s\<lparr>provisioning_jobs := provisioning_jobs s @ [\<lparr>jb_id = jobID, jb_binding = bindingID, jb_order = rechargeOrderID,
                  jb_operation = operation, jb_key = idempotencyKey, jb_amount = amount, jb_currency = nullString currency\<rparr>]\<rparr>))
               (returnT (jobID, False)))))"

definition enqueueProviderAllocationTx :: "RechargeOrder \<Rightarrow> unit dbtx" where
  "enqueueProviderAllocationTx order =
     (case (ro_target_provider order, ro_target_mode order, ro_created_by order) of
        (Some provider, Some mode, Some user) \<Rightarrow>
          bindT (bindProviderAccount (ro_org order) user provider mode) (\<lambda>bindingID.
          thenT (createProviderProvisioningJobTx bindingID (Some (ro_id order)) ''ALLOCATE_CREDIT'' (''recharge:'' @ ro_id order)
                   (Some (ro_amount order)) (ro_currency order)) (returnT ()))
      | _ \<Rightarrow> returnT ())"

definition creditOrder :: "RechargeOrder \<Rightarrow> unit dbtx" where
  "creditOrder order =
     bindT (rowT ErrNoRows (walletById (ro_wallet order))) (\<lambda>w0.
     thenT (unlessT (w_status w0 \<noteq> WalletCLOSED \<and> w_currency w0 = ro_currency order) ErrWalletUnavailable)
    (bindT (updateWalletReturning (ro_wallet order) (\<lambda>v. v\<lparr>w_available := w_available v + ro_amount order, w_version := w_version v + 1\<rparr>)) (\<lambda>w.
     bindT (postLinkedJournalTx (ro_wallet order) J_PAYMENT_CREDIT (''recharge:'' @ ro_id order) (ro_currency order) (ro_platform_no order) (Some (ro_id order)) None
              [\<lparr>jl_key = systemAccountKey ''cash'' (ro_currency order), jl_side = DEBIT, jl_amount = ro_amount order\<rparr>,
               \<lparr>jl_key = walletAccountKey (ro_wallet order) ''available'', jl_side = CREDIT, jl_amount = ro_amount order\<rparr>]) (\<lambda>journalID.
     bindT uuidT (\<lambda>transactionID. bindT (getT clk) (\<lambda>now.
     thenT (insertWalletTransaction \<lparr>t_id = transactionID, t_wallet = ro_wallet order, t_type = TOPUP, t_amount = ro_amount order,
              t_balance_after = w_available w, t_key = Some (''recharge:'' @ ro_id order), t_reference = Some (ro_platform_no order), t_journal = Some journalID,
              t_operation = None, t_recharge = Some (ro_id order), t_refund = None, t_created = now\<rparr>)
    (thenT (createCashLotTx (ro_wallet order) (ro_id order) transactionID LotRECHARGE (ro_platform_no order) (ro_amount order) (ro_currency order) True)
    (thenT (updateRecharge (\<lambda>r. ro_id r = ro_id order) (\<lambda>r. r\<lparr>ro_status := R_CREDITED, ro_tx := Some transactionID, ro_journal := Some journalID,
              ro_credited_at := Some now\<rparr>))
    (thenT (enqueueProviderAllocationTx order)
           (writeAuditTx None ''payment.recharge_credited'' (ro_id order)))))))))))"

definition CreditPaidRecharge :: "string \<Rightarrow> (RechargeOrder \<times> bool) dbtx" where
  "CreditPaidRecharge orderID =
     bindT (rowT ErrNotFound (rechargeById orderID)) (\<lambda>order.
       if ro_status order \<in> {R_CREDITED, R_REFUND_PENDING, R_REFUNDED, R_CHARGEBACK} then returnT (order, True)
       else thenT (unlessT (ro_status order = R_PAID) ErrPaymentState)
           (thenT (creditOrder order)
                  (bindT (rowT ErrNotFound (rechargeById (ro_id order))) (\<lambda>r. returnT (r, False)))))"

section \<open>Expiry and recovery queries\<close>

definition ListRecoverableRechargeOrders :: "int \<Rightarrow> db \<Rightarrow> RechargeOrder list" where
  "ListRecoverableRechargeOrders limit s =
     take (clamp limit) (sort_key (\<lambda>r. (case ro_paid_at r of None \<Rightarrow> (1 :: int, 0) | Some t \<Rightarrow> (0, t), ro_id r))
       (filter (\<lambda>r. ro_status r = R_PAID) (recharge_orders s)))"

definition ExpireRechargeOrders :: "int \<Rightarrow> int \<Rightarrow> RechargeOrder list dbtx" where
  "ExpireRechargeOrders now limit =
     bindT (getT (\<lambda>s. take (clamp limit) (sort_key ro_expires
              (filter (\<lambda>r. ro_status r \<in> {R_CREATED, R_PENDING} \<and> ro_expires r \<le> now) (recharge_orders s))))) (\<lambda>orders.
     thenT (forT orders (\<lambda>order. updateRecharge (\<lambda>r. ro_id r = ro_id order) (\<lambda>r. r\<lparr>ro_status := R_EXPIRED, ro_failure := Some ''expired'', ro_updated := now\<rparr>)))
           (returnT orders))"

definition ListUnclosedExpiredRechargeOrders :: "int \<Rightarrow> db \<Rightarrow> RechargeOrder list" where
  "ListUnclosedExpiredRechargeOrders limit s =
     take (clamp limit) (sort_key (\<lambda>r. (ro_updated r, ro_id r)) (filter (\<lambda>r. ro_status r = R_EXPIRED \<and> ro_closed_at r = None) (recharge_orders s)))"

definition MarkRechargeProviderClosed :: "string \<Rightarrow> unit dbtx" where
  "MarkRechargeProviderClosed orderID =
     (let p = (\<lambda>r. ro_id r = orderID \<and> ro_status r = R_EXPIRED \<and> ro_closed_at r = None) in
     bindT (rechargesAffected p) (\<lambda>n. bindT (getT clk) (\<lambda>now.
     thenT (updateRecharge p (\<lambda>r. r\<lparr>ro_closed_at := Some now\<rparr>))
           (unlessT (n \<noteq> 0) ErrPaymentState))))"

definition ListRechargeOrders :: "string \<Rightarrow> int \<Rightarrow> int \<Rightarrow> db \<Rightarrow> RechargeOrder list" where
  "ListRechargeOrders organizationID limit offset s =
     newestPage ro_created ro_id limit offset
       (if organizationID \<noteq> [] then filter (\<lambda>r. ro_org r = organizationID) (recharge_orders s) else recharge_orders s)"

section \<open>Refunds\<close>

record CreateRefundOrderRequest =
  rq_platform_no :: string
  rq_recharge :: string
  rq_application :: string
  rq_amount :: string
  rq_reason :: string
  rq_key :: string
  rq_created_by :: "string option"

text \<open>Without an application only the whole recharge may be refunded; with one, the approved amount.\<close>

definition refundAuthorized :: "CreateRefundOrderRequest \<Rightarrow> RechargeOrder \<Rightarrow> unit dbtx" where
  "refundAuthorized r order =
     (if rq_application r = [] then unlessT (decimalEqual (rq_amount r) (numericText (ro_amount order))) ErrPaymentState
      else bindT (rowT ErrPaymentState (\<lambda>s. find (\<lambda>a. ap_id a = rq_application r \<and> ap_org a = ro_org order \<and> ap_from_recharge a \<and>
                    ap_recharge a = Some (ro_id order) \<and> ap_status a = AP_APPROVED \<and> ap_refund a = None) (refund_applications s))) (\<lambda>a.
           unlessT (decimalEqual (numericText (ap_amount a)) (rq_amount r)) ErrPaymentState))"

definition placeRefund :: "CreateRefundOrderRequest \<Rightarrow> RechargeOrder \<Rightarrow> RefundOrder dbtx" where
  "placeRefund r order =
     thenT (refundAuthorized r order)
    (bindT (rowT ErrRefundNotEligible (refundableLot (ro_wallet order) (ro_id order))) (\<lambda>lot.
     bindT (liftT (mustFundingRat (rq_amount r))) (\<lambda>amount.
     thenT (unlessT (amount \<le> l_remaining lot) ErrRefundNotEligible)
    (bindT uuidT (\<lambda>refundID. bindT (getT clk) (\<lambda>now.
     thenT (insertRefund \<lparr>rf_id = refundID, rf_platform_no = rq_platform_no r, rf_recharge = ro_id order, rf_application = nullString (rq_application r),
              rf_provider = ro_provider order, rf_provider_no = None, rf_status = RF_CREATED, rf_amount = amount, rf_currency = ro_currency order,
              rf_reason = TrimSpace (rq_reason r), rf_key = rq_key r, rf_tx = None, rf_journal = None, rf_created_by = rq_created_by r,
              rf_failure = None, rf_created = now\<rparr>)
    (thenT (reserveRefundCashTx refundID (ro_wallet order) (ro_id order) amount)
    (thenT (updateRecharge (\<lambda>q. ro_id q = ro_id order) (\<lambda>q. q\<lparr>ro_status := R_REFUND_PENDING\<rparr>))
    (thenT (whenT (rq_application r \<noteq> []) (modifyT (\<lambda>s. s\<lparr>refund_applications := update_where (\<lambda>a. ap_id a = rq_application r)
              (\<lambda>a. a\<lparr>ap_status := AP_PROCESSING, ap_refund := Some refundID\<rparr>) (refund_applications s)\<rparr>)))
    (thenT (writeAuditTx (rq_created_by r) ''payment.refund_created'' refundID)
           (rowT ErrNotFound (refundById refundID))))))))))))"

definition CreateRefundOrder :: "CreateRefundOrderRequest \<Rightarrow> (RefundOrder \<times> bool) dbtx" where
  "CreateRefundOrder r =
     bindT (rowT ErrNotFound (rechargeById (rq_recharge r))) (\<lambda>order.
     bindT (getT (\<lambda>s. find (\<lambda>q. rf_recharge q = ro_id order \<and> rf_key q = rq_key r) (refund_orders s))) (\<lambda>existing.
     case existing of
       Some q \<Rightarrow> if \<not> decimalEqual (numericText (rf_amount q)) (rq_amount r) \<or> rf_reason q \<noteq> TrimSpace (rq_reason r) \<or>
                    (case rf_application q of None \<Rightarrow> [] | Some a \<Rightarrow> a) \<noteq> TrimSpace (rq_application r)
                 then failT ErrIdempotencyConflict else returnT (q, True)
     | None \<Rightarrow>
         thenT (unlessT (ro_status order = R_CREDITED \<and> Decimal_IsPositive (rq_amount r) = Inr True \<and> rq_key r \<noteq> [] \<and> TrimSpace (rq_reason r) \<noteq> []) ErrPaymentState)
        (bindT (placeRefund r order) (\<lambda>q. returnT (q, False)))))"

definition RefundOrderByID :: "string \<Rightarrow> RefundOrder dbtx" where
  "RefundOrderByID refundID = rowT ErrNotFound (refundById refundID)"

definition ListRecoverableRefundOrders :: "int \<Rightarrow> db \<Rightarrow> RefundOrder list" where
  "ListRecoverableRefundOrders limit s =
     take (clamp limit) (sort_key (\<lambda>r. (rf_created r, rf_id r)) (filter (\<lambda>r. rf_status r \<in> {RF_CREATED, RF_PENDING}) (refund_orders s)))"

definition MarkRefundPending :: "string \<Rightarrow> string \<Rightarrow> unit dbtx" where
  "MarkRefundPending refundID providerRefundNo =
     (let p = (\<lambda>r. rf_id r = refundID \<and> rf_status r = RF_CREATED) in
     bindT (getT (\<lambda>s. rows_affected p (refund_orders s))) (\<lambda>n.
     thenT (checkT (\<lambda>s. n = 0 \<or> refundNoFree refundID providerRefundNo s) (ErrConstraint ''refund_order_payment_provider_provider_refund_no_key''))
    (thenT (updateRefund p (\<lambda>r. r\<lparr>rf_status := RF_PENDING, rf_provider_no := Some providerRefundNo\<rparr>))
           (unlessT (n \<noteq> 0) ErrPaymentState))))"

definition updateApplications :: "string \<Rightarrow> ApplicationStatus \<Rightarrow> unit dbtx" where
  "updateApplications refundID status =
     modifyT (\<lambda>s. s\<lparr>refund_applications := update_where (\<lambda>a. ap_refund a = Some refundID \<and> ap_status a = AP_PROCESSING)
       (\<lambda>a. a\<lparr>ap_status := status\<rparr>) (refund_applications s)\<rparr>)"

definition FailRefund :: "string \<Rightarrow> string \<Rightarrow> unit dbtx" where
  "FailRefund refundID rawCode =
     (let code = TrimSpace rawCode in
     thenT (unlessT (refundID \<noteq> [] \<and> code \<noteq> []) ErrPaymentState)
    (bindT (rowT ErrNotFound (refundById refundID)) (\<lambda>refund.
       if rf_status refund = RF_FAILED then unlessT (rf_failure refund = Some code) ErrIdempotencyConflict
       else thenT (unlessT (rf_status refund = RF_CREATED \<or> rf_status refund = RF_PENDING) ErrPaymentState)
           (bindT (rowT ErrNoRows (rechargeById (rf_recharge refund))) (\<lambda>order.
            thenT (settleRefundCashTx (rf_id refund) (ro_wallet order) [] False)
           (thenT (updateRefund (\<lambda>r. rf_id r = rf_id refund) (\<lambda>r. r\<lparr>rf_status := RF_FAILED, rf_failure := Some code\<rparr>))
           (thenT (updateRecharge (\<lambda>r. ro_id r = rf_recharge refund \<and> ro_status r = R_REFUND_PENDING) (\<lambda>r. r\<lparr>ro_status := R_CREDITED\<rparr>))
           (thenT (updateApplications (rf_id refund) AP_FAILED)
                  (writeAuditTx (rf_created_by refund) ''payment.refund_failed'' (rf_id refund))))))))))"

definition completeRefundWrites :: "RefundOrder \<Rightarrow> RechargeOrder \<Rightarrow> string \<Rightarrow> unit dbtx" where
  "completeRefundWrites refund order providerRefundNo =
     bindT (updateWalletReturning (ro_wallet order) (\<lambda>v. v\<lparr>w_available := w_available v - rf_amount refund, w_version := w_version v + 1\<rparr>)) (\<lambda>w.
     bindT (postLinkedJournalTx (ro_wallet order) J_PAYMENT_REFUND (''refund:'' @ rf_id refund) (rf_currency refund) (rf_platform_no refund) None (Some (rf_id refund))
              [\<lparr>jl_key = walletAccountKey (ro_wallet order) ''available'', jl_side = DEBIT, jl_amount = rf_amount refund\<rparr>,
               \<lparr>jl_key = systemAccountKey ''cash'' (rf_currency refund), jl_side = CREDIT, jl_amount = rf_amount refund\<rparr>]) (\<lambda>journalID.
     bindT uuidT (\<lambda>transactionID. bindT (getT clk) (\<lambda>now.
     thenT (insertWalletTransaction \<lparr>t_id = transactionID, t_wallet = ro_wallet order, t_type = REFUND, t_amount = - rf_amount refund,
              t_balance_after = w_available w, t_key = Some (''refund:'' @ rf_id refund), t_reference = Some (rf_platform_no refund), t_journal = Some journalID,
              t_operation = None, t_recharge = None, t_refund = Some (rf_id refund), t_created = now\<rparr>)
    (thenT (settleRefundCashTx (rf_id refund) (ro_wallet order) transactionID True)
    (thenT (checkT (refundNoFree (rf_id refund) providerRefundNo) (ErrConstraint ''refund_order_payment_provider_provider_refund_no_key''))
    (thenT (updateRefund (\<lambda>r. rf_id r = rf_id refund) (\<lambda>r. r\<lparr>rf_status := RF_SUCCEEDED, rf_provider_no := Some providerRefundNo,
              rf_tx := Some transactionID, rf_journal := Some journalID\<rparr>))
    (thenT (updateRecharge (\<lambda>r. ro_id r = ro_id order) (\<lambda>r. r\<lparr>ro_status := R_REFUNDED\<rparr>))
    (thenT (whenT (rf_amount refund < ro_amount order) (updateRecharge (\<lambda>r. ro_id r = ro_id order) (\<lambda>r. r\<lparr>ro_status := R_CREDITED\<rparr>)))
    (thenT (updateApplications (rf_id refund) AP_COMPLETED)
           (writeAuditTx (rf_created_by refund) ''payment.refund_completed'' (rf_id refund))))))))))))"

definition CompleteRefund :: "string \<Rightarrow> string \<Rightarrow> (RefundOrder \<times> bool) dbtx" where
  "CompleteRefund refundID providerRefundNo =
     bindT (rowT ErrNotFound (refundById refundID)) (\<lambda>refund.
       if rf_status refund = RF_SUCCEEDED then returnT (refund, True)
       else thenT (unlessT (rf_status refund = RF_CREATED \<or> rf_status refund = RF_PENDING) ErrPaymentState)
           (bindT (rowT ErrNotFound (rechargeById (rf_recharge refund))) (\<lambda>order.
            thenT (unlessT (ro_status order = R_REFUND_PENDING) ErrPaymentState)
           (thenT (completeRefundWrites refund order providerRefundNo)
                  (bindT (rowT ErrNotFound (refundById (rf_id refund))) (\<lambda>r. returnT (r, False)))))))"

section \<open>Reconciliation records\<close>

record ReconcileResult =
  rr_status :: string
  rr_amount :: string
  rr_currency :: string
  rr_evidence :: string
  rr_details :: string

definition rechargeStatusText :: "RechargeStatus \<Rightarrow> string" where
  "rechargeStatusText st = (case st of R_CREATED \<Rightarrow> ''CREATED'' | R_PENDING \<Rightarrow> ''PENDING'' | R_PAID \<Rightarrow> ''PAID'' | R_CREDITED \<Rightarrow> ''CREDITED''
     | R_FAILED \<Rightarrow> ''FAILED'' | R_EXPIRED \<Rightarrow> ''EXPIRED'' | R_REFUND_PENDING \<Rightarrow> ''REFUND_PENDING'' | R_REFUNDED \<Rightarrow> ''REFUNDED''
     | R_CHARGEBACK \<Rightarrow> ''CHARGEBACK'')"

definition expectedPaymentProviderStatus :: "RechargeStatus \<Rightarrow> string" where
  "expectedPaymentProviderStatus localStatus =
     (if localStatus \<in> {R_CREDITED, R_REFUND_PENDING, R_REFUNDED} then ''PAID'' else rechargeStatusText localStatus)"

definition reconciliationResult :: "RechargeOrder \<Rightarrow> ReconcileResult \<Rightarrow> string" where
  "reconciliationResult order result =
     (if rr_status result \<noteq> expectedPaymentProviderStatus (ro_status order) \<or>
         \<not> decimalEqual (rr_amount result) (numericText (ro_amount order)) \<or> rr_currency result \<noteq> ro_currency order
      then ''MISMATCH'' else ''MATCHED'')"

definition sameReconciliation :: "RechargeOrder \<Rightarrow> ReconcileResult \<Rightarrow> string option \<Rightarrow> Reconciliation \<Rightarrow> bool" where
  "sameReconciliation order result actor e \<longleftrightarrow>
     rn_order e = Some (ro_id order) \<and> (case rn_provider_no e of None \<Rightarrow> [] | Some n \<Rightarrow> n) = providerOrderNo order \<and>
     rn_provider_status e = rr_status result \<and> rn_local_status e = ro_status order \<and>
     decimalEqual (numericText (case rn_provider_amount e of None \<Rightarrow> 0 | Some a \<Rightarrow> a)) (rr_amount result) \<and>
     (case rn_local_amount e of None \<Rightarrow> 0 | Some a \<Rightarrow> a) = ro_amount order \<and> rn_currency e = ro_currency order \<and>
     rn_result e = reconciliationResult order result \<and> (rn_details e = rr_details result \<and> rn_evidence e = rr_evidence result \<and> rn_error e = []) \<and>
     rn_actor e = actor"

definition insertReconciliation :: "Reconciliation \<Rightarrow> unit dbtx" where
  "insertReconciliation e =
     thenT (unlessT ((case rn_provider_amount e of None \<Rightarrow> True | Some a \<Rightarrow> 0 \<le> a) \<and> currencyPattern (rn_currency e))
              (ErrConstraint ''payment_reconciliation_record_check''))
    (thenT (checkT (\<lambda>s. unused (\<lambda>q. rn_id q = rn_id e) (reconciliations s)) (ErrConstraint ''payment_reconciliation_record_pkey''))
    (thenT (checkT (\<lambda>s. list_ex (\<lambda>r. rn_order e = Some (ro_id r)) (recharge_orders s)) (ErrConstraint ''payment_reconciliation_record_recharge_order_id_fkey''))
           (modifyT (\<lambda>s. s\<lparr>reconciliations := reconciliations s @ [e]\<rparr>))))"

definition RecordReconciliation :: "RechargeOrder \<Rightarrow> string \<Rightarrow> ReconcileResult \<Rightarrow> string option \<Rightarrow> Reconciliation dbtx" where
  "RecordReconciliation order key result actor =
     thenT (unlessT (rr_evidence result \<in> {''PROVIDER_API'', ''PROVIDER_SIGNED_WEBHOOK'', ''OPERATOR_VERIFIED_MANUAL''}) ErrReconcileUnsupported)
    (bindT uuidT (\<lambda>rid. bindT (getT clk) (\<lambda>now.
     bindT (getT (\<lambda>s. find (\<lambda>e. rn_provider e = ro_provider order \<and> rn_key e = key) (reconciliations s))) (\<lambda>existing.
     case existing of
       Some e \<Rightarrow> if sameReconciliation order result actor e
                 then returnT (e\<lparr>rn_key := [], rn_actor := None, rn_provider_amount := Some (case rn_provider_amount e of None \<Rightarrow> 0 | Some a \<Rightarrow> a)\<rparr>)
                 else failT ErrIdempotencyConflict
     | None \<Rightarrow>
         bindT (liftT (columnValue (rr_amount result))) (\<lambda>amount.
         let e = \<lparr>rn_id = rid, rn_order = Some (ro_id order), rn_provider = ro_provider order, rn_provider_no = nullString (providerOrderNo order),
                  rn_key = key, rn_provider_status = rr_status result, rn_local_status = ro_status order, rn_provider_amount = Some amount,
                  rn_local_amount = Some (ro_amount order), rn_currency = ro_currency order, rn_result = reconciliationResult order result,
                  rn_details = rr_details result, rn_evidence = rr_evidence result, rn_error = [], rn_actor = actor, rn_at = now\<rparr> in
         thenT (insertReconciliation e) (returnT e))))))"

text \<open>A failed query leaves a record of its own. Under a key already used, \<open>ON CONFLICT DO UPDATE\<close> touches the
  existing row, and the trigger \<open>payment_reconciliation_immutable_trigger\<close> rejects every update.\<close>

definition RecordReconciliationFailure :: "RechargeOrder \<Rightarrow> string \<Rightarrow> string \<Rightarrow> string \<Rightarrow> Reconciliation dbtx" where
  "RecordReconciliationFailure order key errorCode details =
     bindT uuidT (\<lambda>rid. bindT (getT clk) (\<lambda>now.
     let e = \<lparr>rn_id = rid, rn_order = Some (ro_id order), rn_provider = ro_provider order, rn_provider_no = nullString (providerOrderNo order),
              rn_key = key, rn_provider_status = ''ERROR'', rn_local_status = ro_status order, rn_provider_amount = None,
              rn_local_amount = Some (ro_amount order), rn_currency = ro_currency order, rn_result = ''ERROR'',
              rn_details = details, rn_evidence = ''PROVIDER_API_ERROR'', rn_error = TrimSpace errorCode, rn_actor = None, rn_at = now\<rparr> in
     bindT (getT (\<lambda>s. find (\<lambda>q. rn_provider q = ro_provider order \<and> rn_key q = key) (reconciliations s))) (\<lambda>existing.
     case existing of
       Some q \<Rightarrow> failT (ErrConstraint ''payment_reconciliation_record records are immutable'')
     | None \<Rightarrow> thenT (insertReconciliation e) (returnT e))))"

end
