(* ===== verification/Books.thy ===== *)
theory Books
  imports Payments
begin

text \<open>
  The books of the store: over every operation, the balances of a wallet row are what replaying the
  ledger gives, the reserved balance is the sum of the maxima of the operations in flight, and every
  posted journal is balanced.

  A transaction moves money in several statements, so between them the books are off by known
  amounts. \<open>books wid a r h\<close> says that they are right for every wallet but \<open>wid\<close>, whose available balance
  is \<open>a\<close> above the ledger, whose reserved balance is \<open>r\<close> above the ledger and \<open>h\<close> above the holds. Every
  statement shifts the three numbers (\<open>triple\<close>s below); an operation starts and ends with zeros.
\<close>

section \<open>Triples\<close>

definition triple :: "('s \<Rightarrow> bool) \<Rightarrow> ('s, 'e, 'a) tx \<Rightarrow> ('a \<Rightarrow> 's \<Rightarrow> bool) \<Rightarrow> bool" where
  "triple P m Q \<longleftrightarrow> (\<forall>s x s'. P s \<longrightarrow> m s = Inr (x, s') \<longrightarrow> Q x s')"

named_theorems triples

lemma tripleI: "(\<And>s x s'. P s \<Longrightarrow> m s = Inr (x, s') \<Longrightarrow> Q x s') \<Longrightarrow> triple P m Q"
  by (auto simp: triple_def)

lemma tripleD: "triple P m Q \<Longrightarrow> P s \<Longrightarrow> m s = Inr (x, s') \<Longrightarrow> Q x s'"
  by (auto simp: triple_def)

lemma triple_bindT: "triple P m R \<Longrightarrow> (\<And>x. triple (R x) (g x) Q) \<Longrightarrow> triple P (bindT m g) Q"
  by (auto simp: triple_def; blast)

lemma triple_thenT: "triple P m (\<lambda>_. R) \<Longrightarrow> triple R n Q \<Longrightarrow> triple P (thenT m n) Q"
  by (auto simp: triple_def; blast)

lemma triple_post: "triple P m Q' \<Longrightarrow> (\<And>x s. Q' x s \<Longrightarrow> Q x s) \<Longrightarrow> triple P m Q"
  by (auto simp: triple_def)

lemma triple_pre: "triple P' m Q \<Longrightarrow> (\<And>s. P s \<Longrightarrow> P' s) \<Longrightarrow> triple P m Q"
  by (auto simp: triple_def)

lemma triple_conj: "(b \<Longrightarrow> triple P m Q) \<Longrightarrow> triple (\<lambda>s. b \<and> P s) m Q"
  by (auto simp: triple_def)

lemma triple_returnT: "(\<And>s. P s \<Longrightarrow> Q x s) \<Longrightarrow> triple P (returnT x) Q"
  by (auto simp: triple_def)

lemma triple_failT: "triple P (failT e) Q"
  by (auto simp: triple_def)

lemma triple_getT: "triple P (getT f) (\<lambda>x s. P s \<and> x = f s)"
  by (auto simp: triple_def)

lemma triple_unlessT: "triple P (unlessT b e) (\<lambda>_ s. b \<and> P s)"
  by (auto simp: triple_def)

lemma triple_liftT: "triple P (liftT r) (\<lambda>x s. r = Inr x \<and> P s)"
  by (auto simp: triple_def)

lemma triple_rowT: "triple P (rowT e q) (\<lambda>x s. P s \<and> q s = Some x)"
  by (auto simp: triple_def)

lemma triple_checkT: "triple P (checkT p e) (\<lambda>_ s. P s \<and> p s)"
  by (auto simp: triple_def)

lemma triple_whenT: "(b \<Longrightarrow> triple P m (\<lambda>_. Q)) \<Longrightarrow> (\<And>s. \<not> b \<Longrightarrow> P s \<Longrightarrow> Q s) \<Longrightarrow> triple P (whenT b m) (\<lambda>_. Q)"
  by (auto simp: triple_def whenT_Inr)

lemma triple_if: "(b \<Longrightarrow> triple P m Q) \<Longrightarrow> (\<not> b \<Longrightarrow> triple P n Q) \<Longrightarrow> triple P (if b then m else n) Q"
  by auto

text \<open>Where a predicate reads only a part of the state that a transaction keeps, it is kept.\<close>

lemma triple_keeps:
  assumes "keeps f m" "\<And>s s'. f s' = f s \<Longrightarrow> P s \<Longrightarrow> P s'"
  shows "triple P m (\<lambda>_. P)"
  using assms by (auto simp: triple_def keeps_def)

section \<open>The books\<close>

text \<open>What the operations in flight hold of a wallet.\<close>

definition inFlight :: "FundingOperation \<Rightarrow> bool" where
  "inFlight q \<longleftrightarrow> \<not> isFundingTerminal (o_status q)"

definition heldMaximum :: "string \<Rightarrow> FundingOperation list \<Rightarrow> money" where
  "heldMaximum wid qs = column_sum (\<lambda>q. o_wallet q = wid \<and> inFlight q) o_maximum qs"

definition availableKey :: "string \<Rightarrow> string" where
  "availableKey wid = walletAccountKey wid ''available''"

definition reservedKey :: "string \<Rightarrow> string" where
  "reservedKey wid = walletAccountKey wid ''reserved''"

definition off :: "string \<Rightarrow> money \<Rightarrow> Wallet \<Rightarrow> money" where
  "off wid a w = (if w_id w = wid then a else 0)"

text \<open>An entry on an account of a wallet belongs to a journal of that wallet.\<close>

definition scoped :: "db \<Rightarrow> bool" where
  "scoped s \<longleftrightarrow> (\<forall>e \<in> set (entries s). \<forall>v. v \<noteq> [] \<longrightarrow> accountKey s e = Some (availableKey v) \<or> accountKey s e = Some (reservedKey v) \<longrightarrow>
     (\<exists>j \<in> set (journals s). j_id j = e_journal e \<and> j_wallet j = Some v))"

definition tables_wf :: "db \<Rightarrow> bool" where
  "tables_wf s \<longleftrightarrow> ledger_wf s \<and> journals_balanced s \<and> scoped s \<and> distinct (map w_id (wallets s)) \<and> [] \<notin> set (map w_id (wallets s)) \<and> distinct (map o_id (operations s)) \<and>
     (\<forall>q \<in> set (operations s). inFlight q \<longrightarrow> o_settled q = 0) \<and>
     (\<forall>wid. normalSide s (availableKey wid) = CREDIT \<and> normalSide s (reservedKey wid) = CREDIT)"

definition books :: "(string \<Rightarrow> money) \<Rightarrow> string \<Rightarrow> money \<Rightarrow> money \<Rightarrow> money \<Rightarrow> db \<Rightarrow> bool" where
  "books K wid a r h s \<longleftrightarrow> tables_wf s \<and>
     (\<forall>w \<in> set (wallets s). w_available w = ledgerBalance s (availableKey (w_id w)) + off wid a w \<and>
        w_reserved w = ledgerBalance s (reservedKey (w_id w)) + off wid r w \<and>
        w_reserved w = heldMaximum (w_id w) (operations s) + K (w_id w) + off wid h w)"

lemma books_zero: "books K wid 0 0 0 s = books K v 0 0 0 s"
  by (simp add: books_def off_def)

lemma books_cong:
  assumes "books K wid a r h s" "a = a'" "r = r'" "h = h'"
  shows "books K wid a' r' h' s"
  using assms by simp

definition money_tables :: "db \<Rightarrow> Wallet list \<times> LedgerAccount list \<times> Journal list \<times> JournalEntry list \<times> FundingOperation list" where
  "money_tables s = (wallets s, ledger_accounts s, journals s, entries s, operations s)"

lemma ledgerBalance_cong:
  "ledger_accounts s' = ledger_accounts s \<Longrightarrow> journals s' = journals s \<Longrightarrow> entries s' = entries s \<Longrightarrow>
   ledgerBalance s' = ledgerBalance s"
  for s s' :: db
proof -
  assume t: "ledger_accounts s' = ledger_accounts s" "journals s' = journals s" "entries s' = entries s"
  have "entryOn s' = entryOn s" "signedEntry s' = signedEntry s"
    by (simp_all add: fun_eq_iff entryOn_def signedEntry_def accountOf_def journalPosted_def t)
  then have "ledgerBalance s' key = ledgerBalance s key" for key by (simp only: ledgerBalance_def t)
  then show ?thesis by blast
qed

lemma tables_wf_cong:
  assumes "map w_id (wallets s') = map w_id (wallets s)" "operations s' = operations s"
    "ledger_accounts s' = ledger_accounts s" "journals s' = journals s" "entries s' = entries s"
  shows "tables_wf s' = tables_wf s"
  unfolding tables_wf_def ledger_wf_def journals_balanced_def normalSide_def scoped_def accountKey_def accountOf_def assms ..

lemma books_frame: "money_tables s' = money_tables s \<Longrightarrow> books K wid a r h s \<Longrightarrow> books K wid a r h s'"
  for s s' :: db
proof -
  assume "money_tables s' = money_tables s" and b: "books K wid a r h s"
  then have t: "wallets s' = wallets s" "ledger_accounts s' = ledger_accounts s" "journals s' = journals s"
    "entries s' = entries s" "operations s' = operations s" by (simp_all add: money_tables_def)
  have "tables_wf s' = tables_wf s" by (rule tables_wf_cong) (simp_all add: t)
  then show ?thesis using b unfolding books_def t ledgerBalance_cong [OF t(2-4)] by blast
qed

lemma books_keeps: "keeps money_tables m \<Longrightarrow> triple (books K wid a r h) m (\<lambda>_. books K wid a r h)"
  by (rule triple_keeps) (auto intro: books_frame)

section \<open>Account keys\<close>

lemma system_not_wallet [simp]:
  "systemAccountKey k c \<noteq> availableKey w" "systemAccountKey k c \<noteq> reservedKey w"
  "availableKey w \<noteq> systemAccountKey k c" "reservedKey w \<noteq> systemAccountKey k c"
  by (simp_all add: systemAccountKey_def availableKey_def reservedKey_def walletAccountKey_def)

lemma walletKey_inj [simp]:
  "availableKey v = availableKey w \<longleftrightarrow> v = w" "reservedKey v = reservedKey w \<longleftrightarrow> v = w"
  by (simp_all add: availableKey_def reservedKey_def walletAccountKey_def)

lemma available_not_reserved [simp]: "availableKey v \<noteq> reservedKey w" "reservedKey w \<noteq> availableKey v"
proof -
  have "last (availableKey v) \<noteq> last (reservedKey w)"
    by (simp add: availableKey_def reservedKey_def walletAccountKey_def)
  then show "availableKey v \<noteq> reservedKey w" "reservedKey w \<noteq> availableKey v" by auto
qed

section \<open>Statements\<close>

text \<open>The lines of a journal of one wallet: its own accounts and system accounts.\<close>

definition lineOf :: "string \<Rightarrow> journalLine \<Rightarrow> bool" where
  "lineOf wid l \<longleftrightarrow> jl_key l = availableKey wid \<or> jl_key l = reservedKey wid \<or> (\<exists>k c. jl_key l = systemAccountKey k c)"

lemma scoped_appends:
  assumes "scoped s" "appends s j es s'"
    and "\<forall>e \<in> set es. \<forall>v. v \<noteq> [] \<longrightarrow> accountKey s e = Some (availableKey v) \<or> accountKey s e = Some (reservedKey v) \<longrightarrow> j_wallet j = Some v"
  shows "scoped s'"
proof -
  from assms(2) have t: "journals s' = journals s @ [j]" "entries s' = entries s @ es" "ledger_accounts s' = ledger_accounts s"
    and es: "\<forall>e \<in> set es. e_journal e = j_id j" by (auto simp: appends_def)
  have "accountKey s' = accountKey s" by (simp add: fun_eq_iff accountKey_def accountOf_def t)
  then show ?thesis using assms(1,3) es unfolding scoped_def t by auto
qed

lemma scoped_post:
  assumes "postLinkedJournalTx wid ty k cur ref rc rf ls s = Inr (x, s')" "\<forall>l \<in> set ls. lineOf wid l" "ledger_wf s" "scoped s"
  shows "scoped s'"
proof -
  from assms(1) obtain es j where a: "appends s j es s'" and es: "list_all2 (records_line (ledger_accounts s) x) ls es"
    and j: "j_wallet j = nullString wid" by (rule post_appends)
  have "v = wid" if "e \<in> set es" and "accountKey s e = Some (availableKey v) \<or> accountKey s e = Some (reservedKey v)" for e v
  proof -
    from es that(1) obtain l where l: "l \<in> set ls" "records_line (ledger_accounts s) x l e"
      by (metis in_set_conv_nth list_all2_conv_all_nth)
    then obtain ac where "ac \<in> set (ledger_accounts s)" "a_id ac = e_account e" "a_key ac = jl_key l" by (auto simp: records_line_def)
    then have "accountKey s e = Some (jl_key l)"
      using find_by_unique_id [of "ledger_accounts s" ac] assms(3) by (simp add: accountKey_def accountOf_def ledger_wf_def)
    then show ?thesis using assms(2) l(1) that(2) by (auto simp: lineOf_def)
  qed
  then show ?thesis by (intro scoped_appends [OF assms(4) a]) (auto simp: j nullString_def)
qed

lemma books_post:
  assumes "\<forall>l \<in> set ls. lineOf wid l"
  shows "triple (books K wid a r h) (postLinkedJournalTx wid ty k cur ref rc rf ls)
     (\<lambda>_. books K wid (a - lineEffect (\<lambda>_. CREDIT) (availableKey wid) ls) (r - lineEffect (\<lambda>_. CREDIT) (reservedKey wid) ls) h)"
proof (rule tripleI)
  fix s x s'
  assume b: "books K wid a r h s" and p: "postLinkedJournalTx wid ty k cur ref rc rf ls s = Inr (x, s')"
  from b have wf: "ledger_wf s" "journals_balanced s" by (simp_all add: books_def tables_wf_def)
  have side: "normalSide s (availableKey v) = CREDIT" "normalSide s (reservedKey v) = CREDIT" for v
    using b by (simp_all add: books_def tables_wf_def)
  have same: "wallets s' = wallets s" "operations s' = operations s" "ledger_accounts s' = ledger_accounts s"
    by (rule postLinkedJournalTx_Inr [OF p], simp)+
  have eff: "lineEffect (normalSide s) key ls = (if key = availableKey wid \<or> key = reservedKey wid then lineEffect (\<lambda>_. CREDIT) key ls else 0)"
    if "key = availableKey v \<or> key = reservedKey v" for key v
  proof (cases "v = wid")
    case True
    then show ?thesis using that side by (auto simp: lineEffect_def)
  next
    case False
    have "jl_key l \<noteq> key" if "l \<in> set ls" for l
      using assms that \<open>key = availableKey v \<or> key = reservedKey v\<close> False by (auto simp: lineOf_def)
    then have "lineEffect (normalSide s) key ls = 0" unfolding lineEffect_def by (intro column_sum_zero) blast
    then show ?thesis using that False by auto
  qed
  have bal: "ledgerBalance s' (availableKey v) = ledgerBalance s (availableKey v) + (if v = wid then lineEffect (\<lambda>_. CREDIT) (availableKey wid) ls else 0)"
    "ledgerBalance s' (reservedKey v) = ledgerBalance s (reservedKey v) + (if v = wid then lineEffect (\<lambda>_. CREDIT) (reservedKey wid) ls else 0)" for v
    using linked_journal.balance_post [OF wf(1) p] eff [of "availableKey v" v] eff [of "reservedKey v" v] by auto
  have "scoped s'" using scoped_post [OF p assms wf(1)] b by (simp add: books_def tables_wf_def)
  then have "tables_wf s'"
    using b same linked_journal.wf_post [OF wf(1) p] post_balanced [OF wf(2) p] by (simp add: books_def tables_wf_def normalSide_def)
  then show "books K wid (a - lineEffect (\<lambda>_. CREDIT) (availableKey wid) ls) (r - lineEffect (\<lambda>_. CREDIT) (reservedKey wid) ls) h s'"
    using b unfolding books_def same bal off_def by auto
qed

lemma updateWallet_Inr: "updateWallet wid f s = Inr (u, s') \<Longrightarrow> s' = s\<lparr>wallets := update_where (\<lambda>w. w_id w = wid) f (wallets s)\<rparr>"
  unfolding updateWallet_def by auto

lemma books_updateWallet:
  assumes "\<And>w. w_id (f w) = w_id w"
  shows "triple (\<lambda>s. books K wid a r h s \<and> (\<forall>w \<in> set (wallets s). w_id w = wid \<longrightarrow> w_available (f w) = w_available w + da \<and> w_reserved (f w) = w_reserved w + dr))
     (updateWallet wid f) (\<lambda>_. books K wid (a + da) (r + dr) (h + dr))"
proof (rule tripleI, elim conjE)
  fix s x s'
  assume b: "books K wid a r h s" and u: "updateWallet wid f s = Inr (x, s')"
    and f: "\<forall>w \<in> set (wallets s). w_id w = wid \<longrightarrow> w_available (f w) = w_available w + da \<and> w_reserved (f w) = w_reserved w + dr"
  have s': "wallets s' = update_where (\<lambda>w. w_id w = wid) f (wallets s)" "operations s' = operations s"
    "ledger_accounts s' = ledger_accounts s" "journals s' = journals s" "entries s' = entries s"
    using updateWallet_Inr [OF u] by simp_all
  have lb: "ledgerBalance s' = ledgerBalance s" by (rule ledgerBalance_cong) (rule s')+
  have "map w_id (wallets s') = map w_id (wallets s)" unfolding s' by (rule map_update_where) (rule assms)
  then have "tables_wf s' = tables_wf s" by (rule tables_wf_cong) (simp_all add: s')
  then have "tables_wf s'" using b by (simp add: books_def)
  moreover have "w_available w = ledgerBalance s (availableKey (w_id w)) + off wid (a + da) w \<and>
        w_reserved w = ledgerBalance s (reservedKey (w_id w)) + off wid (r + dr) w \<and>
        w_reserved w = heldMaximum (w_id w) (operations s) + K (w_id w) + off wid (h + dr) w" if w: "w \<in> set (wallets s')" for w
  proof -
    from w obtain v where v: "v \<in> set (wallets s)" "w = (if w_id v = wid then f v else v)" unfolding s' in_update_where by blast
    show ?thesis
    proof (cases "w_id v = wid")
      case True
      then show ?thesis using b f v assms [of v] unfolding books_def off_def by auto
    next
      case False
      then show ?thesis using b v unfolding books_def off_def by auto
    qed
  qed
  ultimately show "books K wid (a + da) (r + dr) (h + dr) s'" unfolding books_def s'(2) lb by blast
qed

lemma updateOperation_Inr:
  "updateOperation oid g s = Inr (u, s') \<Longrightarrow> s' = s\<lparr>operations := update_where (\<lambda>q. o_id q = oid) g (operations s)\<rparr> \<and>
     (\<forall>q \<in> set (operations s). o_id q = oid \<longrightarrow> opInRange (g q) \<and> opChecks (g q))"
  unfolding updateOperation_def by (auto simp: list_all_iff)

lemma insertOperation_Inr:
  "insertOperation q s = Inr (u, s') \<Longrightarrow> s' = s\<lparr>operations := operations s @ [q]\<rparr> \<and> opInRange q \<and> opChecks q \<and>
     (\<forall>p \<in> set (operations s). o_id p \<noteq> o_id q \<and> o_request p \<noteq> o_request q \<and> \<not> (o_org p = o_org q \<and> o_key p = o_key q)) \<and>
     (\<exists>w \<in> set (wallets s). w_id w = o_wallet q)"
  unfolding insertOperation_def by (auto simp: unused_iff list_ex_iff)

text \<open>An update of the row \<open>q\<close> alone.\<close>

lemma settled_update:
  assumes "\<And>p. p \<in> set t \<Longrightarrow> o_id p = o_id q \<Longrightarrow> p = q" "\<forall>p \<in> set t. inFlight p \<longrightarrow> o_settled p = 0"
    and "inFlight (g q) \<longrightarrow> o_settled (g q) = 0"
  shows "\<forall>p \<in> set (update_where (\<lambda>p. o_id p = o_id q) g t). inFlight p \<longrightarrow> o_settled p = 0"
proof (intro ballI impI)
  fix p assume "p \<in> set (update_where (\<lambda>p. o_id p = o_id q) g t)" and fl: "inFlight p"
  then obtain r where r: "r \<in> set t" "p = (if o_id r = o_id q then g r else r)" unfolding in_update_where by blast
  show "o_settled p = 0"
  proof (cases "o_id r = o_id q")
    case True
    then have "p = g q" using r assms(1) [OF r(1)] by simp
    then show ?thesis using fl assms(3) by simp
  next
    case False
    then show ?thesis using r fl assms(2) by simp
  qed
qed

lemma books_operations:
  assumes "books K wid a r h s" and "distinct (map o_id t)" and "\<forall>q \<in> set t. inFlight q \<longrightarrow> o_settled q = 0"
    and "\<And>v. heldMaximum v t = heldMaximum v (operations s) + (if v = wid then d else 0)"
  shows "books K wid a r (h - d) (s\<lparr>operations := t\<rparr>)"
proof -
  have "ledgerBalance (s\<lparr>operations := t\<rparr>) = ledgerBalance s" by (rule ledgerBalance_cong) simp_all
  moreover have "ledger_wf (s\<lparr>operations := t\<rparr>) = ledger_wf s" "journals_balanced (s\<lparr>operations := t\<rparr>) = journals_balanced s"
    "scoped (s\<lparr>operations := t\<rparr>) = scoped s" "normalSide (s\<lparr>operations := t\<rparr>) = normalSide s"
    by (simp_all add: ledger_wf_def journals_balanced_def normalSide_def scoped_def accountKey_def accountOf_def fun_eq_iff)
  then have "tables_wf (s\<lparr>operations := t\<rparr>)" using assms(1-3) by (simp add: books_def tables_wf_def)
  ultimately show ?thesis using assms(1) unfolding books_def by (auto simp: off_def assms(4))
qed

lemma books_insertOperation:
  assumes "o_wallet q = wid" "inFlight q" "o_settled q = 0"
  shows "triple (books K wid a r h) (insertOperation q) (\<lambda>_. books K wid a r (h - o_maximum q))"
proof (rule tripleI)
  fix s x s'
  assume b: "books K wid a r h s" and i: "insertOperation q s = Inr (x, s')"
  note i = insertOperation_Inr [OF i]
  have "books K wid a r (h - o_maximum q) (s\<lparr>operations := operations s @ [q]\<rparr>)"
  proof (rule books_operations [OF b])
    show "distinct (map o_id (operations s @ [q]))" using b i by (auto simp: books_def tables_wf_def)
    show "\<forall>p \<in> set (operations s @ [q]). inFlight p \<longrightarrow> o_settled p = 0" using b assms by (auto simp: books_def tables_wf_def)
    show "heldMaximum v (operations s @ [q]) = heldMaximum v (operations s) + (if v = wid then o_maximum q else 0)" for v
      using assms by (auto simp: heldMaximum_def)
  qed
  then show "books K wid a r (h - o_maximum q) s'" using i by simp
qed

text \<open>An update of one operation, which was \<open>q\<close>.\<close>

definition holdOf :: "FundingOperation \<Rightarrow> money" where
  "holdOf q = (if inFlight q then o_maximum q else 0)"

lemma books_updateOperation:
  assumes "\<And>p. o_id (g p) = o_id p \<and> o_wallet (g p) = o_wallet p" "o_wallet q = wid" "inFlight (g q) \<longrightarrow> o_settled (g q) = 0"
  shows "triple (\<lambda>s. books K wid a r h s \<and> q \<in> set (operations s)) (updateOperation (o_id q) g)
     (\<lambda>_ s. opChecks (g q) \<and> books K wid a r (h - (holdOf (g q) - holdOf q)) s)"
proof (rule tripleI, elim conjE)
  fix s x s'
  assume b: "books K wid a r h s" and q: "q \<in> set (operations s)" and u: "updateOperation (o_id q) g s = Inr (x, s')"
  note u = updateOperation_Inr [OF u]
  have d: "distinct (map o_id (operations s))" using b by (simp add: books_def tables_wf_def)
  have "books K wid a r (h - (holdOf (g q) - holdOf q)) (s\<lparr>operations := update_where (\<lambda>p. o_id p = o_id q) g (operations s)\<rparr>)"
  proof (rule books_operations [OF b])
    have "map o_id (update_where (\<lambda>p. o_id p = o_id q) g (operations s)) = map o_id (operations s)"
      by (rule map_update_where) (simp add: assms)
    then show "distinct (map o_id (update_where (\<lambda>p. o_id p = o_id q) g (operations s)))" using d by simp
    have "p = q" if "p \<in> set (operations s)" "o_id p = o_id q" for p using d q that by (metis distinct_key_eq)
    moreover have "\<forall>p \<in> set (operations s). inFlight p \<longrightarrow> o_settled p = 0" using b by (simp add: books_def tables_wf_def)
    ultimately show "\<forall>p \<in> set (update_where (\<lambda>p. o_id p = o_id q) g (operations s)). inFlight p \<longrightarrow> o_settled p = 0"
      using assms(3) by (rule settled_update)
    show "heldMaximum v (update_where (\<lambda>p. o_id p = o_id q) g (operations s)) =
        heldMaximum v (operations s) + (if v = wid then holdOf (g q) - holdOf q else 0)" for v
      unfolding heldMaximum_def column_sum_update_key [OF d q refl] using assms by (auto simp: holdOf_def)
  qed
  then show "opChecks (g q) \<and> books K wid a r (h - (holdOf (g q) - holdOf q)) s'" using u q by simp
qed

section \<open>Rules for a chain of statements\<close>

lemma triple_frame:
  assumes "triple P m Q" "keeps f m" "\<And>s s'. f s' = f s \<Longrightarrow> R s \<Longrightarrow> R s'"
  shows "triple (\<lambda>s. P s \<and> R s) m (\<lambda>x s. Q x s \<and> R s)"
  using assms unfolding triple_def keeps_def by blast

lemma books_bind: "keeps money_tables m \<Longrightarrow> (\<And>x. triple (books K wid a r h) (g x) Q) \<Longrightarrow> triple (books K wid a r h) (bindT m g) Q"
  by (rule triple_bindT [OF books_keeps])

lemma books_then: "keeps money_tables m \<Longrightarrow> triple (books K wid a r h) n Q \<Longrightarrow> triple (books K wid a r h) (thenT m n) Q"
  by (rule triple_thenT [OF books_keeps])

lemma books_end: "keeps money_tables m \<Longrightarrow> a = a' \<Longrightarrow> r = r' \<Longrightarrow> h = h' \<Longrightarrow> triple (books K wid a r h) m (\<lambda>_. books K wid a' r' h')"
  using books_keeps by blast

lemma money_frame:
  "keeps money_tables uuidT" "keeps money_tables (writeAuditTx x y z)" "keeps money_tables (insertWalletTransaction t)"
  "keeps money_tables (reserveCashLotsTx op w m)" "keeps money_tables (allocateCashDebitTx w tx m)"
  "keeps money_tables (settleCashLotsTx op w tx m)" "keeps money_tables (allocateChargebackTx w ro tx m)"
  "keeps money_tables (reserveRefundCashTx rf w ro m)" "keeps money_tables (settleRefundCashTx rf w tx ok)"
  "keeps money_tables (createCashLotTx w ro tx k ref m cur rfd)" "keeps money_tables (restoreCashAllocationTx w src rtx m)"
  "keeps money_tables (reservePromotionTx op org cur m)" "keeps money_tables (settlePromotionTx op m)"
  "keeps money_tables (reversePromotionTx op m)"
  by (intro keeps_uuidT keeps_writeAuditTx keeps_insertWalletTransaction keeps_reserveCashLotsTx keeps_allocateCashDebitTx
        keeps_settleCashLotsTx keeps_allocateChargebackTx keeps_reserveRefundCashTx keeps_settleRefundCashTx keeps_createCashLotTx
        keeps_restoreCashAllocationTx keeps_reservePromotionTx keeps_settlePromotionTx keeps_reversePromotionTx;
      simp add: money_tables_def)+

lemma keeps_insertFundingEvent:
  "(\<And>s n. f (s\<lparr>rng_pos := n\<rparr>) = f s) \<Longrightarrow> (\<And>s t. f (s\<lparr>op_events := t\<rparr>) = f s) \<Longrightarrow> keeps f (insertFundingEvent op st m src)"
  unfolding insertFundingEvent_def by (intro frame keeps_uuidT) auto

lemma keeps_setUsageStatus: "(\<And>s t. f (s\<lparr>usage_records := t\<rparr>) = f s) \<Longrightarrow> keeps f (setUsageStatus op st)"
  unfolding setUsageStatus_def by (intro frame) auto

lemma money_frame_funding:
  "keeps money_tables (insertFundingEvent op st m src)" "keeps money_tables (setUsageStatus op ust)"
  by (intro keeps_insertFundingEvent keeps_setUsageStatus; simp add: money_tables_def)+

lemma books_updateWallet_by:
  assumes "\<And>w. w_id (f w) = w_id w" "\<And>w. w_available (f w) = w_available w + da" "\<And>w. w_reserved (f w) = w_reserved w + dr"
  shows "triple (books K wid a r h) (updateWallet wid f) (\<lambda>_. books K wid (a + da) (r + dr) (h + dr))"
  by (rule triple_pre [OF books_updateWallet [where da = da and dr = dr]]) (simp_all add: assms)

lemma books_updateWalletReturning_by:
  assumes "\<And>w. w_id (f w) = w_id w" "\<And>w. w_available (f w) = w_available w + da" "\<And>w. w_reserved (f w) = w_reserved w + dr"
  shows "triple (books K wid a r h) (updateWalletReturning wid f) (\<lambda>_. books K wid (a + da) (r + dr) (h + dr))"
  unfolding updateWalletReturning_def
  by (rule triple_thenT, rule books_updateWallet_by [of f da dr], (rule assms)+, rule books_keeps, intro frame)

text \<open>A journal between an account of the wallet and another account.\<close>

lemma books_post2:
  assumes "lineOf wid \<lparr>jl_key = k1, jl_side = DEBIT, jl_amount = m\<rparr>" "lineOf wid \<lparr>jl_key = k2, jl_side = CREDIT, jl_amount = m\<rparr>"
  shows "triple (books K wid a r h)
     (postLinkedJournalTx wid ty k cur ref rc rf [\<lparr>jl_key = k1, jl_side = DEBIT, jl_amount = m\<rparr>, \<lparr>jl_key = k2, jl_side = CREDIT, jl_amount = m\<rparr>])
     (\<lambda>_. books K wid (a + (if k1 = availableKey wid then m else 0) - (if k2 = availableKey wid then m else 0))
                    (r + (if k1 = reservedKey wid then m else 0) - (if k2 = reservedKey wid then m else 0)) h)"
  by (rule triple_post [OF books_post]) (use assms in \<open>auto simp: lineEffect_def\<close>)

lemma lineOf_keys [simp]:
  "lineOf wid \<lparr>jl_key = walletAccountKey wid ''available'', jl_side = d, jl_amount = m\<rparr>"
  "lineOf wid \<lparr>jl_key = walletAccountKey wid ''reserved'', jl_side = d, jl_amount = m\<rparr>"
  "lineOf wid \<lparr>jl_key = systemAccountKey kd c, jl_side = d, jl_amount = m\<rparr>"
  "lineOf wid \<lparr>jl_key = availableKey wid, jl_side = d, jl_amount = m\<rparr>"
  "lineOf wid \<lparr>jl_key = reservedKey wid, jl_side = d, jl_amount = m\<rparr>"
  by (auto simp: lineOf_def availableKey_def reservedKey_def)

lemma key_abbrev: "walletAccountKey wid ''available'' = availableKey wid" "walletAccountKey wid ''reserved'' = reservedKey wid"
  by (simp_all add: availableKey_def reservedKey_def)

lemma books_when:
  assumes "b \<Longrightarrow> triple (books K wid a r h) m (\<lambda>_. books K wid a' r' h')" "\<not> b \<Longrightarrow> a = a' \<and> r = r' \<and> h = h'"
  shows "triple (books K wid a r h) (whenT b m) (\<lambda>_. books K wid a' r' h')"
  by (rule triple_whenT) (use assms in auto)

lemma books_then_return: "triple P m (\<lambda>_. Q) \<Longrightarrow> triple P (thenT m (returnT x)) (\<lambda>_. Q)"
  by (rule triple_thenT) (auto intro: triple_returnT)

text \<open>The books are right.\<close>

definition balanced :: "(string \<Rightarrow> money) \<Rightarrow> db \<Rightarrow> bool" where
  "balanced K s \<longleftrightarrow> books K [] 0 0 0 s"

lemma balanced_books: "balanced K s = books K wid 0 0 0 s"
  unfolding balanced_def by (rule books_zero)

lemma balanced_triple: "triple (books K wid 0 0 0) m (\<lambda>_. books K wid 0 0 0) \<Longrightarrow> balanced K s \<Longrightarrow> m s = Inr (x, s') \<Longrightarrow> balanced K s'"
  unfolding balanced_books [of _ _ wid] by (rule tripleD)

lemma balanced_frame: "keeps money_tables m \<Longrightarrow> balanced K s \<Longrightarrow> m s = Inr (x, s') \<Longrightarrow> balanced K s'"
  by (rule balanced_triple [OF books_keeps])

lemma thenT_unitE:
  assumes "thenT m n s = Inr (y, s'')"
  obtains s' where "m s = Inr ((), s')" "n s' = Inr (y, s'')"
  using assms by auto

lemma balanced_keeps: "keeps money_tables m \<Longrightarrow> triple (balanced K) m (\<lambda>_. balanced K)"
  by (rule tripleI) (rule balanced_frame)

lemma balanced_when: "triple (balanced K) m (\<lambda>_. balanced K) \<Longrightarrow> triple (balanced K) (whenT b m) (\<lambda>_. balanced K)"
  by (rule triple_whenT) auto

lemma triple_balanced: "triple (books K wid 0 0 0) m (\<lambda>_. books K wid 0 0 0) \<Longrightarrow> triple (balanced K) m (\<lambda>_. balanced K)"
  by (rule tripleI) (rule balanced_triple)

lemma balanced_bind: "keeps money_tables m \<Longrightarrow> (\<And>x. triple (balanced K) (g x) Q) \<Longrightarrow> triple (balanced K) (bindT m g) Q"
  by (rule triple_bindT [OF balanced_keeps])

lemma balanced_then: "keeps money_tables m \<Longrightarrow> triple (balanced K) n Q \<Longrightarrow> triple (balanced K) (thenT m n) Q"
  by (rule triple_thenT [OF balanced_keeps])

end
