(* ===== verification/FundingBooks.thy ===== *)
theory FundingBooks
  imports Books
begin

text \<open>
  The books over the operations of \<^verbatim>\<open>internal/store/funding.go\<close>. Each handler is opened once, by an
  elimination lemma that names its statements and the states between them (\<open>writeSettlement_Inr\<close>,
  \<open>writeAdjustment_Inr\<close>, \<open>writeReversal_Inr\<close>); the triples of \<open>Books\<close> then carry the offsets through.
\<close>

section \<open>Operations\<close>

lemma books_placeReservation:
  assumes "0 \<le> maximum"
  shows "triple (books K (w_id w) 0 0 0) (placeReservation rq w maximum) (\<lambda>_. books K (w_id w) 0 0 0)"
  unfolding placeReservation_def postJournalTx_def Let_def
  apply (rule books_bind, rule money_frame)
  apply (rule books_bind, rule frame)
  apply (rule books_bind, rule frame)
  apply (simp only: split_paired_all prod.case)
  apply (rule books_bind, rule frame)
  apply (rule triple_thenT, rule books_insertOperation, simp add: newOperation_def, simp add: newOperation_def inFlight_def isFundingTerminal_def, simp add: newOperation_def)
  apply (rule books_then, rule money_frame)
  apply (rule books_bind, rule money_frame)
  apply (rule books_then, rule frame)
  apply (rule triple_thenT, rule books_when, rule books_then_return, rule books_post2, simp, simp)
   apply (use assms in \<open>simp add: key_abbrev\<close>)
  apply (rule triple_thenT, rule books_updateWallet_by [where da = "- round12 maximum" and dr = "round12 maximum"], simp, simp, simp)
  apply (rule books_end, intro frame money_frame money_frame_funding)
  apply (simp_all add: key_abbrev newOperation_def)
  done

lemma ReserveFunding_Inr:
  assumes "ReserveFunding rq s = Inr ((q, replayed), s')"
  shows "(replayed \<and> s' = s \<and> find (\<lambda>q. o_org q = fr_org rq \<and> o_key q = fr_key rq) (operations s) = Some q \<and>
            o_fingerprint q = fr_fingerprint rq \<and> o_project q = fr_project rq) \<or>
         (\<not> replayed \<and> find (\<lambda>q. o_org q = fr_org rq \<and> o_key q = fr_key rq) (operations s) = None \<and>
            (\<exists>w m. 0 \<le> m \<and> fr_maximum rq = Some m \<and> walletByOrg (fr_org rq) s = Some w \<and> walletAdmits w m \<and> w_status w = WalletACTIVE \<and>
               placeReservation rq w m s = Inr (q, s')))"
proof (cases "find (\<lambda>q. o_org q = fr_org rq \<and> o_key q = fr_key rq) (operations s)")
  case None
  with assms show ?thesis unfolding ReserveFunding_def by (auto split: option.splits if_splits)
next
  case (Some p)
  with assms show ?thesis unfolding ReserveFunding_def by (auto split: option.splits if_splits)
qed

lemma ReserveFunding_balanced: "balanced K s \<Longrightarrow> ReserveFunding rq s = Inr (x, s') \<Longrightarrow> balanced K s'"
  by (cases x) (use ReserveFunding_Inr balanced_triple [OF books_placeReservation] in blast)

section \<open>Settlement\<close>

lemma lineEffect_simps [simp]:
  "lineEffect side key [] = 0"
  "lineEffect side key (l # ls) = (if jl_key l = key then if jl_side l = side key then jl_amount l else - jl_amount l else 0) + lineEffect side key ls"
  "lineEffect side key (ls @ ls') = lineEffect side key ls + lineEffect side key ls'"
  by (simp_all add: lineEffect_def)

lemma books_settlementJournal:
  assumes "reservedUsed + overage = actual" "0 \<le> overage" "overage = 0 \<or> 0 \<le> reservedUsed"
  shows "triple (books K (o_wallet q) a r h) (settlementJournal q actual reservedUsed overage)
     (\<lambda>_. books K (o_wallet q) (if 0 < actual then a + overage else a) (if 0 < actual then r + max 0 reservedUsed else r) h)"
proof (cases "0 < actual")
  case True
  show ?thesis unfolding settlementJournal_def postJournalTx_def if_P [OF True]
  proof (rule triple_post [OF books_post])
    show "\<forall>l \<in> set ((if 0 < reservedUsed then [\<lparr>jl_key = walletAccountKey (o_wallet q) ''reserved'', jl_side = DEBIT, jl_amount = reservedUsed\<rparr>] else []) @
              (if 0 < overage then [\<lparr>jl_key = walletAccountKey (o_wallet q) ''available'', jl_side = DEBIT, jl_amount = overage\<rparr>] else []) @
              [\<lparr>jl_key = systemAccountKey ''revenue'' (o_currency q), jl_side = CREDIT, jl_amount = actual\<rparr>]). lineOf (o_wallet q) l"
      by auto
  qed (erule books_cong; use assms in \<open>simp add: key_abbrev max_def\<close>)
next
  case False
  show ?thesis unfolding settlementJournal_def if_not_P [OF False] by (rule triple_returnT)
qed

lemma books_releaseJournal:
  "triple (books K (o_wallet q) a r h) (releaseJournal q release)
     (\<lambda>_. books K (o_wallet q) (a - max 0 release) (r + max 0 release) h)"
  unfolding releaseJournal_def postJournalTx_def
  apply (rule books_when, rule books_then_return)
   apply (rule triple_post [OF books_post2])
     apply (simp_all add: key_abbrev max_def)
  done

text \<open>The statements of a settlement, and the states between them.\<close>

lemma writeSettlement_Inr:
  assumes "writeSettlement q w r amountText promotionText feeText shadowText s = Inr (u, s')"
  obtains promotion consumed actual fee shadow jid newAvailable s1 s2 s3 s4 s5 s6 s7 s8 where
    "settlePromotionTx (o_id q) promotion s = Inr (consumed, s1)" "fundingRat amountText = Inr actual"
    "settlementJournal q actual (min actual (o_maximum q)) (actual - min actual (o_maximum q)) s1 = Inr (jid, s2)"
    "releaseJournal q (o_maximum q - min actual (o_maximum q)) s2 = Inr ((), s3)"
    "settleWallet q w (o_maximum q - min actual (o_maximum q)) (actual - min actual (o_maximum q)) s3 = Inr (newAvailable, s4)"
    "settleOperation q r actual (o_maximum q - min actual (o_maximum q)) consumed fee shadow s4 = Inr ((), s5)"
    "settlementCharge q actual newAvailable jid s5 = Inr ((), s6)"
    "setUsageStatus (o_id q) (if 0 < actual then U_CHARGED else U_WAIVED) s6 = Inr ((), s7)"
    "writeAuditTx None ''wallet.funding_settled'' (o_id q) s7 = Inr ((), s8)"
    "settleProviderBudget q r s8 = Inr ((), s')"
    "mustFundingRat promotionText = Inr promotion" "mustFundingRat feeText = Inr fee" "mustFundingRat shadowText = Inr shadow"
  using assms unfolding writeSettlement_def Let_def by (elim bindT_InrE thenT_InrE) simp

lemma keeps_settlementCharge:
  assumes "\<And>s n. f (s\<lparr>rng_pos := n\<rparr>) = f s" "\<And>s t. f (s\<lparr>wallet_transactions := t\<rparr>) = f s" "\<And>s t. f (s\<lparr>cash_lots := t\<rparr>) = f s"
    "\<And>s t. f (s\<lparr>cash_allocations := t\<rparr>) = f s" "\<And>s t. f (s\<lparr>funding_cash := t\<rparr>) = f s"
  shows "keeps f (settlementCharge q actual newAvailable jid)"
  unfolding settlementCharge_def
  by (intro frame keeps_uuidT keeps_insertWalletTransaction keeps_settleCashLotsTx) (simp_all add: assms)

lemma keeps_actualProviderCost: "keeps f (actualProviderCost q r)"
  unfolding actualProviderCost_def by (intro frame)

lemma keeps_settleProviderBudget:
  assumes "\<And>s t. f (s\<lparr>provider_budgets := t\<rparr>) = f s" "\<And>s t. f (s\<lparr>budget_reservations := t\<rparr>) = f s"
  shows "keeps f (settleProviderBudget q r)"
  unfolding settleProviderBudget_def
  by (intro frame keeps_actualProviderCost) (simp_all add: assms)

lemma keeps_settlementAmounts: "(\<And>s t. f (s\<lparr>byok_shadow := t\<rparr>) = f s) \<Longrightarrow> keeps f (settlementAmounts q r)"
  unfolding settlementAmounts_def byokCharges_def byokShadowFee_def fundingAmountsForVersion_def Let_def
  by (intro frame) simp_all

lemma keeps_settlementJournal:
  assumes "\<And>s n. f (s\<lparr>rng_pos := n\<rparr>) = f s" "\<And>s t. f (s\<lparr>journals := t\<rparr>) = f s" "\<And>s t. f (s\<lparr>entries := t\<rparr>) = f s"
  shows "keeps f (settlementJournal q a ru ov)" "keeps f (releaseJournal q rel)"
  unfolding settlementJournal_def releaseJournal_def by (intro frame keeps_postJournalTx; simp add: assms)+

lemma settledWallet_simps [simp]:
  "w_id (settledWallet q w release overage v) = w_id v"
  "w_available (settledWallet q w release overage v) = w_available w + release - overage"
  "w_reserved (settledWallet q w release overage v) = w_reserved v - o_maximum q"
  by (simp_all add: settledWallet_def Let_def)

lemma books_settleWallet:
  "triple (\<lambda>s. books K (o_wallet q) a r h s \<and> w \<in> set (wallets s) \<and> w_id w = o_wallet q) (settleWallet q w release overage)
     (\<lambda>_. books K (o_wallet q) (a + (release - overage)) (r + (- o_maximum q)) (h + (- o_maximum q)))"
  unfolding settleWallet_def
proof (rule books_then_return, rule triple_pre, rule books_updateWallet)
  fix s assume b: "books K (o_wallet q) a r h s \<and> w \<in> set (wallets s) \<and> w_id w = o_wallet q"
  then have "distinct (map w_id (wallets s))" by (simp add: books_def tables_wf_def)
  then have "v = w" if "v \<in> set (wallets s)" "w_id v = o_wallet q" for v using b that by (metis distinct_key_eq)
  then show "books K (o_wallet q) a r h s \<and> (\<forall>v \<in> set (wallets s). w_id v = o_wallet q \<longrightarrow>
      w_available (settledWallet q w release overage v) = w_available v + (release - overage) \<and>
      w_reserved (settledWallet q w release overage v) = w_reserved v + (- o_maximum q))"
    using b by auto
qed simp

lemma settlementStatus_terminal [simp]: "isFundingTerminal (settlementStatus r actual)"
  by (simp add: settlementStatus_def isFundingTerminal_def)

lemma settledOperation_simps [simp]:
  "o_id (settledOperation r actual release consumed fee shadow now q) = o_id q"
  "o_wallet (settledOperation r actual release consumed fee shadow now q) = o_wallet q"
  "o_status (settledOperation r actual release consumed fee shadow now q) = settlementStatus r actual"
  "o_settled (settledOperation r actual release consumed fee shadow now q) = actual"
  "o_maximum (settledOperation r actual release consumed fee shadow now q) = o_maximum q"
  by (simp_all add: settledOperation_def)

lemma settleOperation_checks:
  assumes "settleOperation q rq actual release consumed fee shadow s = Inr (u, s')" "q \<in> set (operations s)"
  shows "0 \<le> actual" "0 \<le> o_maximum q"
proof -
  from assms(1) obtain v t where "updateOperation (o_id q) (settledOperation rq actual release consumed fee shadow (clk s)) s = Inr (v, t)"
    unfolding settleOperation_def by auto
  from updateOperation_Inr [OF this] assms(2) have "opChecks (settledOperation rq actual release consumed fee shadow (clk s) q)" by blast
  then show "0 \<le> actual" "0 \<le> o_maximum q" by (simp_all add: opChecks_def)
qed

lemma books_settleOperation:
  assumes "inFlight q"
  shows "triple (\<lambda>s. books K (o_wallet q) a r h s \<and> q \<in> set (operations s)) (settleOperation q rq actual release consumed fee shadow)
     (\<lambda>_. books K (o_wallet q) a r (h + o_maximum q))"
  unfolding settleOperation_def
proof (rule triple_bindT [OF triple_getT])
  fix now
  show "triple (\<lambda>s. (books K (o_wallet q) a r h s \<and> q \<in> set (operations s)) \<and> now = clk s)
     (thenT (updateOperation (o_id q) (settledOperation rq actual release consumed fee shadow now))
      (thenT (whenT (0 < release) (insertFundingEvent (o_id q) F_RELEASED release (firstNonEmptyStore [fs_source rq, ''gateway''])))
             (insertFundingEvent (o_id q) (settlementStatus rq actual) actual (firstNonEmptyStore [fs_source rq, ''gateway'']))))
     (\<lambda>_. books K (o_wallet q) a r (h + o_maximum q))"
  proof (rule triple_thenT, rule triple_pre, rule books_updateOperation)
    let ?q = "settledOperation rq actual release consumed fee shadow now q"
    have hold: "h - (holdOf ?q - holdOf q) = h + o_maximum q" using assms by (simp add: holdOf_def inFlight_def)
    show "triple (\<lambda>s. opChecks ?q \<and> books K (o_wallet q) a r (h - (holdOf ?q - holdOf q)) s)
      (thenT (whenT (0 < release) (insertFundingEvent (o_id q) F_RELEASED release (firstNonEmptyStore [fs_source rq, ''gateway''])))
             (insertFundingEvent (o_id q) (settlementStatus rq actual) actual (firstNonEmptyStore [fs_source rq, ''gateway''])))
      (\<lambda>_. books K (o_wallet q) a r (h + o_maximum q))"
      unfolding hold
      by (rule triple_conj, rule books_keeps, intro frame money_frame_funding)
  qed (simp_all add: inFlight_def)
qed

lemma writeSettlement_balanced:
  assumes b: "balanced K s" and w: "w \<in> set (wallets s)" "w_id w = o_wallet q" and q: "q \<in> set (operations s)" "inFlight q"
    and ws: "writeSettlement q w r amountText promotionText feeText shadowText s = Inr (u, s')"
  shows "balanced K s'"
proof -
  let ?T = "\<lambda>s. (wallets s, operations s)"
  from ws obtain promotion consumed actual fee shadow jid newAvailable s1 s2 s3 s4 s5 s6 s7 s8 where
    1: "settlePromotionTx (o_id q) promotion s = Inr (consumed, s1)" and
    2: "settlementJournal q actual (min actual (o_maximum q)) (actual - min actual (o_maximum q)) s1 = Inr (jid, s2)" and
    3: "releaseJournal q (o_maximum q - min actual (o_maximum q)) s2 = Inr ((), s3)" and
    4: "settleWallet q w (o_maximum q - min actual (o_maximum q)) (actual - min actual (o_maximum q)) s3 = Inr (newAvailable, s4)" and
    5: "settleOperation q r actual (o_maximum q - min actual (o_maximum q)) consumed fee shadow s4 = Inr ((), s5)" and
    6: "settlementCharge q actual newAvailable jid s5 = Inr ((), s6)" and
    7: "setUsageStatus (o_id q) (if 0 < actual then U_CHARGED else U_WAIVED) s6 = Inr ((), s7)" and
    8: "writeAuditTx None ''wallet.funding_settled'' (o_id q) s7 = Inr ((), s8)" and
    9: "settleProviderBudget q r s8 = Inr ((), s')"
    by (rule writeSettlement_Inr)
  have "?T s1 = ?T s" by (rule keepsD [rotated], rule 1, intro keeps_settlePromotionTx) simp_all
  moreover have "?T s2 = ?T s1" by (rule keepsD [rotated], rule 2, intro keeps_settlementJournal) simp_all
  moreover have "?T s3 = ?T s2" by (rule keepsD [rotated], rule 3, intro keeps_settlementJournal) simp_all
  moreover have "operations s4 = operations s3"
    by (rule keepsD [rotated], rule 4, unfold settleWallet_def, intro frame keeps_updateWallet) simp
  ultimately have in34: "w \<in> set (wallets s3)" "q \<in> set (operations s4)" using w q by simp_all
  note pos = settleOperation_checks [OF 5 in34(2)]
  have "books K (o_wallet q) 0 0 0 s1"
    by (rule tripleD [OF books_keeps [OF money_frame(13)] _ 1]) (use b in \<open>simp add: balanced_books [of _ s "o_wallet q"]\<close>)
  note b2 = tripleD [OF books_settlementJournal this 2]
  note b3 = tripleD [OF books_releaseJournal _ 3]
  note b4 = tripleD [OF books_settleWallet _ 4]
  note b5 = tripleD [OF books_settleOperation [OF q(2)] _ 5]
  have "books K (o_wallet q) 0 0 0 s5"
    by (rule books_cong, rule b5, rule conjI, rule b4, rule conjI, rule b3, rule b2)
       (use pos in34 w in \<open>auto simp: min_def max_def\<close>)
  moreover have "money_tables s6 = money_tables s5"
    by (rule keepsD [rotated], rule 6, intro keeps_settlementCharge) (simp_all add: money_tables_def)
  moreover have "money_tables s7 = money_tables s6" by (rule keepsD [rotated], rule 7, rule money_frame_funding)
  moreover have "money_tables s8 = money_tables s7" by (rule keepsD [rotated], rule 8, rule money_frame)
  moreover have "money_tables s' = money_tables s8"
    by (rule keepsD [rotated], rule 9, intro keeps_settleProviderBudget) (simp_all add: money_tables_def)
  ultimately show ?thesis unfolding balanced_books [of _ s' "o_wallet q"] using books_frame by metis
qed

lemma walletById_SomeD: "walletById wid s = Some w \<Longrightarrow> w \<in> set (wallets s) \<and> w_id w = wid"
  unfolding walletById_def by (auto dest: find_SomeD)

lemma opById_SomeD: "opById oid s = Some q \<Longrightarrow> q \<in> set (operations s) \<and> o_id q = oid"
  unfolding opById_def by (auto dest: find_SomeD)

text \<open>A settlement either finds the operation finished and changes nothing, or computes the amounts and
  writes them.\<close>

lemma SettleFunding_Inr:
  assumes "SettleFunding r s = Inr (p, s')"
  obtains (finished) "s' = s" "opById (fs_operation r) s = Some p" "isFundingTerminal (o_status p)"
  | (settled) q w amountText promotionText feeText shadowText s1 where
      "opById (fs_operation r) s = Some q" "inFlight q" "walletById (o_wallet q) s = Some w"
      "settlementAmounts q r s = Inr ((amountText, promotionText, feeText, shadowText), s1)"
      "writeSettlement q w r amountText promotionText feeText shadowText s1 = Inr ((), s')"
      "opById (o_id q) s' = Some p"
proof -
  from assms obtain q where q: "opById (fs_operation r) s = Some q"
    and rest: "(if isFundingTerminal (o_status q) then returnT q
       else bindT (rowT ErrNoRows (walletById (o_wallet q))) (\<lambda>w.
            bindT (settlementAmounts q r) (\<lambda>(actualAmount, actualPromotion, platformServiceFee, byokShadowAmount).
            thenT (writeSettlement q w r actualAmount actualPromotion platformServiceFee byokShadowAmount)
                  (rowT ErrNotFound (opById (o_id q)))))) s = Inr (p, s')"
    unfolding SettleFunding_def by auto
  show thesis
  proof (cases "isFundingTerminal (o_status q)")
    case True
    then show thesis using q rest finished by simp
  next
    case False
    with rest obtain w t1 t2 t3 t4 s1 where "walletById (o_wallet q) s = Some w"
      "settlementAmounts q r s = Inr ((t1, t2, t3, t4), s1)" "writeSettlement q w r t1 t2 t3 t4 s1 = Inr ((), s')"
      "opById (o_id q) s' = Some p"
      by auto
    then show thesis using settled q False unfolding inFlight_def by blast
  qed
qed

lemma SettleFunding_balanced:
  assumes "balanced K s" "SettleFunding r s = Inr (p, s')"
  shows "balanced K s'"
  using assms(2)
proof (cases rule: SettleFunding_Inr)
  case finished
  then show ?thesis using assms(1) by simp
next
  case (settled q w t1 t2 t3 t4 s1)
  have m: "money_tables s1 = money_tables s"
    by (rule keepsD [rotated], rule settled, intro keeps_settlementAmounts) (simp add: money_tables_def)
  then have "balanced K s1" using assms(1) books_frame unfolding balanced_def by blast
  moreover have "w \<in> set (wallets s1)" "w_id w = o_wallet q" "q \<in> set (operations s1)"
    using m walletById_SomeD [OF settled(3)] opById_SomeD [OF settled(1)] by (auto simp: money_tables_def)
  ultimately show ?thesis using writeSettlement_balanced settled(2,5) by blast
qed

section \<open>Late usage and reversal\<close>

text \<open>An update that moves no hold keeps the books.\<close>

lemma books_same_holds:
  assumes "books K wid a r h s" "map (\<lambda>q. (o_id q, o_wallet q, holdOf q)) t = map (\<lambda>q. (o_id q, o_wallet q, holdOf q)) (operations s)"
    and z: "\<forall>q \<in> set t. inFlight q \<longrightarrow> o_settled q = 0"
  shows "books K wid a r h (s\<lparr>operations := t\<rparr>)"
proof -
  have held: "heldMaximum v qs = sum_list (map (\<lambda>(i, w, m). if w = v then m else 0) (map (\<lambda>q. (o_id q, o_wallet q, holdOf q)) qs))" for v qs
    unfolding heldMaximum_def column_sum_def map_map by (rule arg_cong [of _ _ sum_list], rule map_cong) (auto simp: holdOf_def)
  have "map o_id t = map fst (map (\<lambda>q. (o_id q, o_wallet q, holdOf q)) t)" by (simp add: comp_def)
  also have "\<dots> = map o_id (operations s)" unfolding assms(2) by (simp add: comp_def)
  finally have ids: "distinct (map o_id t)" using assms(1) by (simp add: books_def tables_wf_def)
  have "books K wid a r (h - 0) (s\<lparr>operations := t\<rparr>)"
    by (rule books_operations [OF assms(1) ids z]) (simp add: held assms(2) del: map_map)
  then show ?thesis by simp
qed

lemma books_finished_update:
  assumes "books K wid a r h s" "q \<in> set (operations s)" "\<not> inFlight q" "\<not> inFlight (g q)" "\<And>p. o_id (g p) = o_id p \<and> o_wallet (g p) = o_wallet p"
    and u: "updateOperation (o_id q) g s = Inr (x, s')"
  shows "books K wid a r h s'"
proof -
  have same: "p = q" if "p \<in> set (operations s)" "o_id p = o_id q" for p
    using assms(1,2) that by (auto simp: books_def tables_wf_def intro: distinct_key_eq)
  then have "map (\<lambda>q. (o_id q, o_wallet q, holdOf q)) (update_where (\<lambda>p. o_id p = o_id q) g (operations s)) =
      map (\<lambda>q. (o_id q, o_wallet q, holdOf q)) (operations s)"
    using assms(3-5) by (auto simp: update_where_def holdOf_def)
  moreover have "\<forall>p \<in> set (operations s). inFlight p \<longrightarrow> o_settled p = 0" using assms(1) by (simp add: books_def tables_wf_def)
  then have "\<forall>p \<in> set (update_where (\<lambda>p. o_id p = o_id q) g (operations s)). inFlight p \<longrightarrow> o_settled p = 0"
    by (intro settled_update [OF same]) (use assms(4) in simp_all)
  ultimately show ?thesis using books_same_holds [OF assms(1)] updateOperation_Inr [OF u] by simp
qed

lemma keeps_updateWalletReturning: "(\<And>s t. f (s\<lparr>wallets := t\<rparr>) = f s) \<Longrightarrow> keeps f (updateWalletReturning wid g)"
  unfolding updateWalletReturning_def by (intro frame keeps_updateWallet) auto

lemma adjustedWallet_simps [simp]:
  "w_id (adjustedWallet d v) = w_id v" "w_available (adjustedWallet d v) = w_available v - d" "w_reserved (adjustedWallet d v) = w_reserved v"
  by (simp_all add: adjustedWallet_def)

lemma books_adjustmentJournal:
  assumes "d \<noteq> 0"
  shows "triple (books K (o_wallet q) a r h) (adjustmentJournal q rq d) (\<lambda>_. books K (o_wallet q) (a + d) r h)"
proof (cases "0 < d")
  case True
  show ?thesis unfolding adjustmentJournal_def postJournalTx_def if_P [OF True]
    by (rule triple_post [OF books_post2]) (use True in \<open>simp_all add: key_abbrev\<close>)
next
  case False
  show ?thesis unfolding adjustmentJournal_def postJournalTx_def if_not_P [OF False]
    by (rule triple_post [OF books_post2]) (use False in \<open>simp_all add: key_abbrev\<close>)
qed

lemma books_applyDifference:
  assumes "d \<noteq> 0"
  shows "triple (books K (o_wallet q) 0 0 0) (applyDifference q rq d) (\<lambda>_. books K (o_wallet q) 0 0 0)"
  unfolding applyDifference_def
  apply (rule triple_bindT, rule books_adjustmentJournal [OF assms])
  apply (rule triple_bindT, rule books_updateWalletReturning_by [where da = "- d" and dr = 0], simp, simp, simp)
  apply (rule books_end, intro frame money_frame, simp_all)
  done

lemma keeps_applyDifference:
  assumes "\<And>s n. f (s\<lparr>rng_pos := n\<rparr>) = f s" "\<And>s t. f (s\<lparr>journals := t\<rparr>) = f s" "\<And>s t. f (s\<lparr>entries := t\<rparr>) = f s"
    "\<And>s t. f (s\<lparr>wallets := t\<rparr>) = f s" "\<And>s t. f (s\<lparr>wallet_transactions := t\<rparr>) = f s" "\<And>s t. f (s\<lparr>cash_lots := t\<rparr>) = f s"
    "\<And>s t. f (s\<lparr>cash_allocations := t\<rparr>) = f s"
  shows "keeps f (applyDifference q rq d)"
  unfolding applyDifference_def adjustmentJournal_def
  by (intro frame keeps_postJournalTx keeps_updateWalletReturning keeps_uuidT keeps_insertWalletTransaction keeps_allocateCashDebitTx
        keeps_restoreCashAllocationTx) (simp_all add: assms)

lemma keeps_insertAdjustment: "(\<And>s t. f (s\<lparr>adjustments := t\<rparr>) = f s) \<Longrightarrow> keeps f (insertAdjustment x)"
  unfolding insertAdjustment_def by (intro frame) auto

lemma keeps_correctedAmount: "keeps f (correctedAmount q r)"
  unfolding correctedAmount_def fundingAmountForVersion_def fundingAmountsForVersion_def by (intro frame)

lemma writeAdjustment_Inr:
  assumes "writeAdjustment q r c s = Inr (u, s')"
  obtains jid y s1 s2 s3 s4 s5 s6 where
    "(if c - o_settled q \<noteq> 0 then applyDifference q r (c - o_settled q) else returnT []) s = Inr (jid, s1)"
    "uuidT s1 = Inr (y, s2)"
    "insertAdjustment \<lparr>ad_operation = o_id q, ad_key = lu_key r, ad_previous = o_settled q, ad_corrected = c,
                     ad_difference = c - o_settled q, ad_journal = nullString jid\<rparr> s2 = Inr ((), s3)"
    "updateOperation (o_id q) (correctedOperation r (if c = 0 then F_RELEASED else F_SETTLED) c (clk s3)) s3 = Inr ((), s4)"
    "setUsageStatus (o_id q) (if c = 0 then U_WAIVED else U_CHARGED) s4 = Inr ((), s5)"
    "insertFundingEvent (o_id q) (if c = 0 then F_RELEASED else F_SETTLED) \<bar>c - o_settled q\<bar> ''late_usage'' s5 = Inr ((), s6)"
    "writeAuditTx (lu_created_by r) ''wallet.late_usage_adjusted'' (o_id q) s6 = Inr ((), s')"
  using assms unfolding writeAdjustment_def Let_def by (elim bindT_InrE thenT_InrE) (simp split del: if_split)

lemma AdjustLate_Inr:
  assumes "AdjustLateFundingUsage r s = Inr (p, s')"
  shows "(s' = s \<and> opById (lu_operation r) s = Some p \<and> \<not> inFlight p \<and> (\<exists>x \<in> set (adjustments s). ad_operation x = o_id p \<and> ad_key x = lu_key r)) \<or>
    (\<exists>q t c. opById (lu_operation r) s = Some q \<and> \<not> inFlight q \<and>
       (\<forall>x \<in> set (adjustments s). \<not> (ad_operation x = o_id q \<and> ad_key x = lu_key r)) \<and>
       correctedAmount q r s = Inr (t, s) \<and> mustFundingRat t = Inr c \<and> writeAdjustment q r c s = Inr ((), s') \<and> opById (o_id q) s' = Some p)"
proof -
  from assms obtain q where q: "opById (lu_operation r) s = Some q" and st: "o_status q \<noteq> F_RESERVED" "o_status q \<noteq> F_PENDING"
    and rest: "(if list_ex (\<lambda>a. ad_operation a = o_id q \<and> ad_key a = lu_key r) (adjustments s) then returnT q
       else bindT (correctedAmount q r) (\<lambda>correctedText. bindT (liftT (mustFundingRat correctedText)) (\<lambda>corrected.
            thenT (writeAdjustment q r corrected) (rowT ErrNotFound (opById (o_id q)))))) s = Inr (p, s')"
    unfolding AdjustLateFundingUsage_def by auto
  have fl: "\<not> inFlight q" using st by (cases "o_status q") (auto simp: inFlight_def isFundingTerminal_def)
  have same: "t = s" if "correctedAmount q r s = Inr (x, t)" for x t
    using keepsD [OF keeps_correctedAmount [of "\<lambda>s. s"] that] .
  show ?thesis
  proof (cases "list_ex (\<lambda>a. ad_operation a = o_id q \<and> ad_key a = lu_key r) (adjustments s)")
    case True
    then show ?thesis using rest q fl by (auto simp: list_ex_iff)
  next
    case False
    from rest [unfolded if_not_P [OF False]] obtain t c s1 where "correctedAmount q r s = Inr (t, s1)" "mustFundingRat t = Inr c"
      "writeAdjustment q r c s1 = Inr ((), s')" "opById (o_id q) s' = Some p" by auto
    moreover have "s1 = s" using same calculation(1) .
    ultimately show ?thesis using q fl False by (auto simp: list_ex_iff)
  qed
qed

lemma correctedOperation_simps [simp]:
  "o_id (correctedOperation r st c now q) = o_id q" "o_wallet (correctedOperation r st c now q) = o_wallet q"
  "o_status (correctedOperation r st c now q) = st" "o_settled (correctedOperation r st c now q) = c"
  "o_maximum (correctedOperation r st c now q) = o_maximum q"
  by (simp_all add: correctedOperation_def)

lemma writeAdjustment_balanced:
  assumes b: "balanced K s" and q: "q \<in> set (operations s)" "\<not> inFlight q" and w: "writeAdjustment q r c s = Inr (u, s')"
  shows "balanced K s'"
proof -
  from w obtain jid y s1 s2 s3 s4 s5 s6 where
    1: "(if c - o_settled q \<noteq> 0 then applyDifference q r (c - o_settled q) else returnT []) s = Inr (jid, s1)" and
    2: "uuidT s1 = Inr (y, s2)" and
    3: "insertAdjustment \<lparr>ad_operation = o_id q, ad_key = lu_key r, ad_previous = o_settled q, ad_corrected = c,
                     ad_difference = c - o_settled q, ad_journal = nullString jid\<rparr> s2 = Inr ((), s3)" and
    4: "updateOperation (o_id q) (correctedOperation r (if c = 0 then F_RELEASED else F_SETTLED) c (clk s3)) s3 = Inr ((), s4)" and
    5: "setUsageStatus (o_id q) (if c = 0 then U_WAIVED else U_CHARGED) s4 = Inr ((), s5)" and
    6: "insertFundingEvent (o_id q) (if c = 0 then F_RELEASED else F_SETTLED) \<bar>c - o_settled q\<bar> ''late_usage'' s5 = Inr ((), s6)" and
    7: "writeAuditTx (lu_created_by r) ''wallet.late_usage_adjusted'' (o_id q) s6 = Inr ((), s')"
    by (rule writeAdjustment_Inr)
  have b1: "books K (o_wallet q) 0 0 0 s1"
  proof (cases "c - o_settled q \<noteq> 0")
    case True
    show ?thesis using b unfolding balanced_books [of _ s "o_wallet q"]
      by (rule tripleD [OF books_applyDifference [OF True]]) (use 1 True in simp)
  qed (use 1 b in \<open>simp add: balanced_books [of _ s "o_wallet q"]\<close>)
  have o1: "operations s1 = operations s"
    by (rule keepsD [rotated], rule 1, intro frame keeps_applyDifference) simp_all
  have "operations s3 = operations s" "money_tables s3 = money_tables s1"
    using keepsD [OF money_frame(1) 2] keepsD [OF keeps_insertAdjustment [of money_tables] 3] o1 by (simp_all add: money_tables_def)
  then have "books K (o_wallet q) 0 0 0 s3" "q \<in> set (operations s3)" using b1 books_frame q(1) by metis+
  then have "books K (o_wallet q) 0 0 0 s4"
    by (rule books_finished_update [OF _ _ q(2) _ _ 4]) (simp_all add: inFlight_def isFundingTerminal_def)
  moreover have "money_tables s' = money_tables s4"
    using keepsD [OF money_frame_funding(2) 5] keepsD [OF money_frame_funding(1) 6] keepsD [OF money_frame(2) 7] by simp
  ultimately show ?thesis unfolding balanced_books [of _ s' "o_wallet q"] using books_frame by metis
qed

lemma AdjustLate_balanced:
  assumes "balanced K s" "AdjustLateFundingUsage r s = Inr (p, s')"
  shows "balanced K s'"
  using AdjustLate_Inr [OF assms(2)] writeAdjustment_balanced [OF assms(1)] assms(1) opById_SomeD by blast

lemma writeReversal_Inr:
  assumes "writeReversal q key reason actor s = Inr (u, s')"
  obtains jid w tid src rp s1 s2 s3 s4 s5 s6 s7 s8 s9 where
    "postLinkedJournalTx (o_wallet q) J_REVERSAL (reversalKey q key) (o_currency q) reason None None
       [\<lparr>jl_key = systemAccountKey ''revenue'' (o_currency q), jl_side = DEBIT, jl_amount = o_settled q\<rparr>,
        \<lparr>jl_key = walletAccountKey (o_wallet q) ''available'', jl_side = CREDIT, jl_amount = o_settled q\<rparr>] s = Inr (jid, s1)"
    "updateWalletReturning (o_wallet q) (\<lambda>v. v\<lparr>w_available := w_available v + o_settled q, w_version := w_version v + 1\<rparr>) s1 = Inr (w, s2)"
    "uuidT s2 = Inr (tid, s3)"
    "insertWalletTransaction \<lparr>t_id = tid, t_wallet = o_wallet q, t_type = REFUND, t_amount = o_settled q,
              t_balance_after = w_available w, t_key = Some (reversalKey q key), t_reference = Some reason,
              t_journal = Some jid, t_operation = None, t_recharge = None, t_refund = None, t_created = clk s3\<rparr> s3 = Inr ((), s4)"
    "firstCharge (o_id q) s4 = Some src"
    "restoreCashAllocationTx (o_wallet q) (t_id src) tid (o_settled q) s4 = Inr ((), s5)"
    "reversePromotionTx (o_id q) (o_consumed_promotion q) s5 = Inr (rp, s6)"
    "updateOperation (o_id q) (\<lambda>p. p\<lparr>o_status := F_REVERSED, o_consumed_promotion := max (o_consumed_promotion p - rp) 0\<rparr>) s6 = Inr ((), s7)"
    "insertFundingEvent (o_id q) F_REVERSED (o_settled q) ''admin_reversal'' s7 = Inr ((), s8)"
    "writeAuditTx actor ''wallet.funding_reversed'' (o_id q) s8 = Inr ((), s9)"
    "setUsageStatus (o_id q) U_REFUNDED s9 = Inr (u, s')"
proof -
  show thesis
    by (insert assms, unfold writeReversal_def Let_def postJournalTx_def, elim bindT_InrE thenT_unitE,
        simp only: getT_Inr rowT_Inr, elim conjE, hypsubst, rule that) (assumption+)
qed

lemma ReverseFunding_Inr:
  assumes "ReverseFunding oid key reason actor s = Inr (p, s')"
  shows "(s' = s \<and> opById oid s = Some p \<and> o_status p = F_REVERSED) \<or>
    (\<exists>q. opById oid s = Some q \<and> o_status q \<noteq> F_REVERSED \<and> 0 < o_settled q \<and> writeReversal q key reason actor s = Inr ((), s') \<and>
       opById (o_id q) s' = Some p)"
proof -
  from assms obtain q where "opById oid s = Some q"
    and "(if o_status q = F_REVERSED then returnT q
       else thenT (unlessT (0 < o_settled q) ErrFundingTerminal)
           (thenT (writeReversal q key reason actor) (rowT ErrNotFound (opById (o_id q))))) s = Inr (p, s')"
    unfolding ReverseFunding_def by auto
  then show ?thesis by (auto split: if_splits)
qed

lemma writeReversal_balanced:
  assumes b: "balanced K s" and q: "q \<in> set (operations s)" "0 < o_settled q" and w: "writeReversal q key reason actor s = Inr (u, s')"
  shows "balanced K s'"
proof -
  from w obtain jid w tid src rp s1 s2 s3 s4 s5 s6 s7 s8 s9 where
    1: "postLinkedJournalTx (o_wallet q) J_REVERSAL (reversalKey q key) (o_currency q) reason None None
       [\<lparr>jl_key = systemAccountKey ''revenue'' (o_currency q), jl_side = DEBIT, jl_amount = o_settled q\<rparr>,
        \<lparr>jl_key = walletAccountKey (o_wallet q) ''available'', jl_side = CREDIT, jl_amount = o_settled q\<rparr>] s = Inr (jid, s1)" and
    2: "updateWalletReturning (o_wallet q) (\<lambda>v. v\<lparr>w_available := w_available v + o_settled q, w_version := w_version v + 1\<rparr>) s1 = Inr (w, s2)" and
    3: "uuidT s2 = Inr (tid, s3)" and
    4: "insertWalletTransaction \<lparr>t_id = tid, t_wallet = o_wallet q, t_type = REFUND, t_amount = o_settled q,
              t_balance_after = w_available w, t_key = Some (reversalKey q key), t_reference = Some reason,
              t_journal = Some jid, t_operation = None, t_recharge = None, t_refund = None, t_created = clk s3\<rparr> s3 = Inr ((), s4)" and
    "firstCharge (o_id q) s4 = Some src" and
    5: "restoreCashAllocationTx (o_wallet q) (t_id src) tid (o_settled q) s4 = Inr ((), s5)" and
    6: "reversePromotionTx (o_id q) (o_consumed_promotion q) s5 = Inr (rp, s6)" and
    7: "updateOperation (o_id q) (\<lambda>p. p\<lparr>o_status := F_REVERSED, o_consumed_promotion := max (o_consumed_promotion p - rp) 0\<rparr>) s6 = Inr ((), s7)" and
    8: "insertFundingEvent (o_id q) F_REVERSED (o_settled q) ''admin_reversal'' s7 = Inr ((), s8)" and
    9: "writeAuditTx actor ''wallet.funding_reversed'' (o_id q) s8 = Inr ((), s9)" and
    10: "setUsageStatus (o_id q) U_REFUNDED s9 = Inr (u, s')"
    by (rule writeReversal_Inr)
  have fl: "\<not> inFlight q" using b q by (auto simp: balanced_def books_def tables_wf_def)
  have "books K (o_wallet q) 0 0 0 s" using b by (simp add: balanced_books [of _ s "o_wallet q"])
  note b1 = tripleD [OF books_post2 this 1]
  note b2 = tripleD [OF books_updateWalletReturning_by [where da = "o_settled q" and dr = 0] b1 2]
  have "books K (o_wallet q) 0 0 0 s2" by (rule books_cong, rule b2) (simp_all add: key_abbrev)
  moreover have "money_tables s6 = money_tables s2"
    using keepsD [OF money_frame(1) 3] keepsD [OF money_frame(3) 4] keepsD [OF money_frame(11) 5] keepsD [OF money_frame(14) 6] by simp
  ultimately have b6: "books K (o_wallet q) 0 0 0 s6" "operations s6 = operations s2" using books_frame by (auto simp: money_tables_def)
  have "operations s1 = operations s" by (rule keepsD [rotated], rule 1, intro keeps_postLinkedJournalTx) simp_all
  moreover have "operations s2 = operations s1" by (rule keepsD [rotated], rule 2, intro keeps_updateWalletReturning) simp_all
  ultimately have "q \<in> set (operations s6)" using q b6 by simp
  then have "books K (o_wallet q) 0 0 0 s7"
    by (rule books_finished_update [OF b6(1) _ fl _ _ 7]) (simp_all add: inFlight_def isFundingTerminal_def)
  moreover have "money_tables s' = money_tables s7"
    using keepsD [OF money_frame_funding(1) 8] keepsD [OF money_frame(2) 9] keepsD [OF money_frame_funding(2) 10] by simp
  ultimately show ?thesis unfolding balanced_books [of _ s' "o_wallet q"] using books_frame by metis
qed

lemma ReverseFunding_balanced:
  assumes "balanced K s" "ReverseFunding oid key reason actor s = Inr (p, s')"
  shows "balanced K s'"
  using ReverseFunding_Inr [OF assms(2)] writeReversal_balanced [OF assms(1)] assms(1) opById_SomeD by blast

section \<open>Attempts, heartbeat, recovery\<close>

lemma books_same_fields:
  assumes "\<And>q. o_id (g q) = o_id q \<and> o_wallet (g q) = o_wallet q \<and> o_status (g q) = o_status q \<and> o_maximum (g q) = o_maximum q \<and> o_settled (g q) = o_settled q"
    and "balanced K s"
  shows "balanced K (s\<lparr>operations := update_where p g (operations s)\<rparr>)"
proof -
  have "\<forall>q \<in> set (operations s). inFlight q \<longrightarrow> o_settled q = 0" using assms(2) by (simp add: balanced_def books_def tables_wf_def)
  then show ?thesis unfolding balanced_def
    by (intro books_same_holds map_update_where) (use assms in \<open>auto simp: balanced_def holdOf_def inFlight_def in_update_where split: if_splits\<close>)
qed

lemma balanced_triple_updateOperation:
  assumes "\<And>q. o_id (g q) = o_id q \<and> o_wallet (g q) = o_wallet q \<and> o_status (g q) = o_status q \<and> o_maximum (g q) = o_maximum q \<and> o_settled (g q) = o_settled q"
  shows "triple (balanced K) (updateOperation oid g) (\<lambda>_. balanced K)"
  by (rule tripleI) (use updateOperation_Inr books_same_fields [OF assms] in fastforce)

lemma HeartbeatFunding_balanced: "balanced K s \<Longrightarrow> HeartbeatFunding oid n s = Inr (x, s') \<Longrightarrow> balanced K s'"
  unfolding HeartbeatFunding_def by (auto intro!: books_same_fields)

lemma keeps_recheckProviderDispatchTx: "keeps f (recheckProviderDispatchTx org p c)"
  unfolding recheckProviderDispatchTx_def Let_def by (intro frame)

lemma keeps_reserveProviderBudget:
  assumes "\<And>s n. f (s\<lparr>rng_pos := n\<rparr>) = f s" "\<And>s t. f (s\<lparr>provider_budgets := t\<rparr>) = f s" "\<And>s t. f (s\<lparr>budget_reservations := t\<rparr>) = f s"
  shows "keeps f (reserveProviderBudget oid p)"
  unfolding reserveProviderBudget_def reserveBudgetRow_def Let_def
  by (intro frame keeps_uuidT) (simp_all add: assms)

lemma keeps_insertAttempt:
  assumes "\<And>s n. f (s\<lparr>rng_pos := n\<rparr>) = f s" "\<And>s t. f (s\<lparr>op_attempts := t\<rparr>) = f s"
  shows "keeps f (insertAttempt oid p c b)"
  unfolding insertAttempt_def Let_def by (intro frame keeps_uuidT) (simp_all add: assms)

lemma balanced_applyByokPolicy: "triple (balanced K) (applyByokPolicy oid org p cur) (\<lambda>_. balanced K)"
  unfolding applyByokPolicy_def
  by (rule triple_bindT, rule balanced_keeps, intro frame, rule triple_thenT, rule balanced_keeps, intro frame,
      rule balanced_triple_updateOperation) simp

lemma BeginFundingAttempt_triple: "triple (balanced K) (BeginFundingAttempt oid p c b) (\<lambda>_. balanced K)"
  unfolding BeginFundingAttempt_def
  apply (rule triple_bindT, rule balanced_keeps, rule frame)
  apply (rule triple_thenT, rule balanced_keeps, rule frame)
  apply (rule triple_thenT, rule balanced_keeps, rule keeps_recheckProviderDispatchTx)
  apply (rule triple_bindT, rule balanced_keeps, rule frame)
  apply (rule triple_thenT, rule balanced_triple_updateOperation, simp)
  apply (rule triple_thenT, rule balanced_when, rule balanced_applyByokPolicy)
  apply (rule balanced_keeps, intro frame keeps_reserveProviderBudget keeps_insertAttempt)
  apply (simp_all add: money_tables_def)
  done

lemma FinishFundingAttempt_keeps: "keeps money_tables (FinishFundingAttempt aid st)"
  unfolding FinishFundingAttempt_def by (intro frame) (simp add: money_tables_def)

lemma commit_invariant:
  assumes "\<And>x s'. m s = Inr (x, s') \<Longrightarrow> P s'" "P s"
  shows "P (snd (commit m s))"
  using assms by (auto simp: commit_def split: sum.splits prod.splits)

lemma settleStale_balanced: "balanced K s \<Longrightarrow> balanced K (snd (snd (settleStale items n s)))"
proof (induction items n s rule: settleStale.induct)
  case (2 item items n s)
  have c: "balanced K (snd (commit (SettleFunding (recoveryRequest item)) s))"
    by (rule commit_invariant) (use SettleFunding_balanced 2(3) in auto)
  then show ?case using 2(1,2)
    by (cases "commit (SettleFunding (recoveryRequest item)) s") (auto split: sum.splits)
qed simp

lemma RecoverStaleFunding_balanced: "balanced K s \<Longrightarrow> balanced K (snd (snd (RecoverStaleFunding before limit s)))"
  unfolding RecoverStaleFunding_def Let_def by (intro settleStale_balanced books_same_fields) simp_all

end
