(* ===== verification/PaymentBooks.thy ===== *)
theory PaymentBooks
  imports FundingBooks
begin

text \<open>
  The books over the operations of \<^verbatim>\<open>internal/store/billing.go\<close> and \<^verbatim>\<open>internal/store/payments.go\<close>:
  manual transactions, credited recharges, chargebacks and completed refunds move the wallet and the
  ledger together; every other operation leaves both alone.
\<close>

section \<open>Manual transactions\<close>

lemma books_transactionJournal:
  "triple (books K (tr_wallet r) a rs h) (postJournalTx (tr_wallet r) ty k cur ref (transactionLines r c)) (\<lambda>_. books K (tr_wallet r) (a - tr_amount r) rs h)"
proof (cases "0 < tr_amount r")
  case True
  show ?thesis unfolding transactionLines_def postJournalTx_def Let_def if_P [OF True]
    by (rule triple_post [OF books_post2]) (use True in \<open>simp_all add: key_abbrev\<close>)
next
  case False
  show ?thesis unfolding transactionLines_def postJournalTx_def Let_def if_not_P [OF False]
    by (rule triple_post [OF books_post2]) (use False in \<open>simp_all add: key_abbrev\<close>)
qed

lemma books_writeTransaction:
  "triple (books K (tr_wallet r) 0 0 0) (writeTransaction r w) (\<lambda>_. books K (tr_wallet r) 0 0 0)"
  unfolding writeTransaction_def Let_def
  apply (rule books_bind, rule money_frame)
  apply (rule books_then, rule frame)
  apply (rule triple_bindT, rule books_updateWalletReturning_by [where da = "tr_amount r" and dr = 0], simp, simp, simp)
  apply (rule triple_bindT, rule books_transactionJournal)
  apply (rule books_end, intro frame money_frame, simp_all)
  done

lemma CreateWalletTransaction_Inr:
  assumes "CreateWalletTransaction r s = Inr (t, s')"
  shows "(s' = s \<and> t \<in> set (wallet_transactions s) \<and> t_wallet t = tr_wallet r \<and> t_key t = Some (tr_key r) \<and> tr_key r \<noteq> [] \<and>
            t_type t = tr_type r \<and> t_amount t = tr_amount r) \<or>
    (\<exists>w. walletById (tr_wallet r) s = Some w \<and> w_status w = WalletACTIVE \<and> writeTransaction r w s = Inr (t, s') \<and>
       (tr_key r \<noteq> [] \<longrightarrow> (\<forall>u \<in> set (wallet_transactions s). \<not> (t_wallet u = tr_wallet r \<and> t_key u = Some (tr_key r)))))"
proof -
  let ?f = "find (\<lambda>t. t_wallet t = tr_wallet r \<and> t_key t = Some (tr_key r)) (wallet_transactions s)"
  show ?thesis
  proof (cases "tr_key r = []")
    case True
    then show ?thesis using assms unfolding CreateWalletTransaction_def by auto
  next
    case key: False
    show ?thesis
    proof (cases ?f)
      case None
      then have "\<forall>u \<in> set (wallet_transactions s). \<not> (t_wallet u = tr_wallet r \<and> t_key u = Some (tr_key r))"
        by (simp add: find_None_iff)
      then show ?thesis using assms None key unfolding CreateWalletTransaction_def by auto
    next
      case (Some v)
      from find_SomeD [OF Some] show ?thesis using assms Some key unfolding CreateWalletTransaction_def
        by (auto split: if_splits)
    qed
  qed
qed

lemma CreateWalletTransaction_balanced: "balanced K s \<Longrightarrow> CreateWalletTransaction r s = Inr (t, s') \<Longrightarrow> balanced K s'"
  using CreateWalletTransaction_Inr balanced_triple [OF books_writeTransaction] by blast

lemma UpdateWallet_balanced: "balanced K s \<Longrightarrow> UpdateWallet w s = Inr (x, s') \<Longrightarrow> balanced K s'"
proof (rule balanced_triple [of _ "w_id w"])
  show "triple (books K (w_id w) 0 0 0) (UpdateWallet w) (\<lambda>_. books K (w_id w) 0 0 0)"
    unfolding UpdateWallet_def
    apply (rule triple_thenT, rule books_updateWallet_by [where da = 0 and dr = 0], simp, simp, simp)
    apply (rule books_end, intro frame, simp_all)
    done
qed

section \<open>Frames of the payment tables\<close>

lemma keeps_updateRecharge: "(\<And>s t. f (s\<lparr>recharge_orders := t\<rparr>) = f s) \<Longrightarrow> keeps f (updateRecharge p g)"
  unfolding updateRecharge_def by (intro frame) auto

lemma keeps_insertRecharge: "(\<And>s t. f (s\<lparr>recharge_orders := t\<rparr>) = f s) \<Longrightarrow> keeps f (insertRecharge r)"
  unfolding insertRecharge_def by (intro frame) auto

lemma keeps_insertRefund: "(\<And>s t. f (s\<lparr>refund_orders := t\<rparr>) = f s) \<Longrightarrow> keeps f (insertRefund r)"
  unfolding insertRefund_def by (intro frame) auto

lemma keeps_updateRefund: "(\<And>s t. f (s\<lparr>refund_orders := t\<rparr>) = f s) \<Longrightarrow> keeps f (updateRefund p g)"
  unfolding updateRefund_def by (intro frame) auto

lemma keeps_insertPaymentAttempt: "(\<And>s t. f (s\<lparr>payment_attempts := t\<rparr>) = f s) \<Longrightarrow> keeps f (insertPaymentAttempt r)"
  unfolding insertPaymentAttempt_def by (intro frame) auto

lemma keeps_insertReconciliation: "(\<And>s t. f (s\<lparr>reconciliations := t\<rparr>) = f s) \<Longrightarrow> keeps f (insertReconciliation r)"
  unfolding insertReconciliation_def by (intro frame) auto

lemma keeps_bindProviderAccount:
  assumes "\<And>s n. f (s\<lparr>rng_pos := n\<rparr>) = f s" "\<And>s t. f (s\<lparr>account_bindings := t\<rparr>) = f s"
  shows "keeps f (bindProviderAccount org u p m)"
  unfolding bindProviderAccount_def by (intro frame keeps_uuidT) (simp_all add: assms)

lemma keeps_enqueueProviderAllocationTx:
  assumes "\<And>s n. f (s\<lparr>rng_pos := n\<rparr>) = f s" "\<And>s t. f (s\<lparr>account_bindings := t\<rparr>) = f s" "\<And>s t. f (s\<lparr>provisioning_jobs := t\<rparr>) = f s"
  shows "keeps f (enqueueProviderAllocationTx r)"
  unfolding enqueueProviderAllocationTx_def createProviderProvisioningJobTx_def
  by (intro frame keeps_uuidT keeps_bindProviderAccount) (simp_all add: assms)

lemma keeps_updateApplications: "(\<And>s t. f (s\<lparr>refund_applications := t\<rparr>) = f s) \<Longrightarrow> keeps f (updateApplications r st)"
  unfolding updateApplications_def by (intro frame) auto

lemma keeps_checkRechargeRisk: "keeps f (checkRechargeRisk org u m)"
  unfolding checkRechargeRisk_def by (intro frame)

lemmas payment_frame = keeps_updateRecharge keeps_insertRecharge keeps_insertRefund keeps_updateRefund keeps_insertPaymentAttempt
  keeps_insertReconciliation keeps_bindProviderAccount keeps_enqueueProviderAllocationTx keeps_updateApplications keeps_checkRechargeRisk

text \<open>The operations that move no money.\<close>

lemma payment_money_frame:
  "keeps money_tables (CreateRechargeOrder sha cr)" "keeps money_tables (StartPaymentAttempt oid op)"
  "keeps money_tables (FinishPaymentAttempt aid st pno)" "keeps money_tables (MarkRechargePending oid pno)"
  "keeps money_tables (MarkRechargeFailed oid code)" "keeps money_tables (ApplyPaymentQueryResult oid res actor)"
  "keeps money_tables (MarkRechargePaid oid ev actor)" "keeps money_tables (ExpireRechargeOrders now limit)"
  "keeps money_tables (MarkRechargeProviderClosed oid)" "keeps money_tables (CreateRefundOrder rq)"
  "keeps money_tables (MarkRefundPending rid pno)" "keeps money_tables (FailRefund rid code)"
  "keeps money_tables (RecordReconciliation order key result actor)" "keeps money_tables (RecordReconciliationFailure order key code details)"
  unfolding CreateRechargeOrder_def placeRecharge_def bindTarget_def StartPaymentAttempt_def FinishPaymentAttempt_def
    MarkRechargePending_def MarkRechargeFailed_def ApplyPaymentQueryResult_def MarkRechargePaid_def payOrder_def failOrder_def
    ExpireRechargeOrders_def MarkRechargeProviderClosed_def rechargesAffected_def CreateRefundOrder_def placeRefund_def refundAuthorized_def
    MarkRefundPending_def FailRefund_def RecordReconciliation_def RecordReconciliationFailure_def Let_def
  by (intro frame money_frame payment_frame; simp add: money_tables_def)+

section \<open>The operations that do\<close>

lemma books_applyChargebackTx:
  "triple (books K (ro_wallet order) 0 0 0) (applyChargebackTx order ev) (\<lambda>_. books K (ro_wallet order) 0 0 0)"
  unfolding applyChargebackTx_def
  apply (rule books_bind, rule frame)
  apply (rule books_then, rule frame)
  apply (rule triple_bindT, rule books_updateWalletReturning_by [where da = "- ro_amount order" and dr = 0], simp, simp, simp)
  apply (rule books_bind, rule money_frame)
  apply (rule books_bind, rule frame)
  apply (rule books_then, intro payment_frame, simp add: money_tables_def)
  apply (rule triple_bindT, rule books_post2, simp, simp)
  apply (rule books_end, intro frame money_frame payment_frame, simp_all add: money_tables_def key_abbrev)
  done

lemma books_creditOrder:
  "triple (books K (ro_wallet order) 0 0 0) (creditOrder order) (\<lambda>_. books K (ro_wallet order) 0 0 0)"
  unfolding creditOrder_def
  apply (rule books_bind, rule frame)
  apply (rule books_then, rule frame)
  apply (rule triple_bindT, rule books_updateWalletReturning_by [where da = "ro_amount order" and dr = 0], simp, simp, simp)
  apply (rule triple_bindT, rule books_post2, simp, simp)
  apply (rule books_end, intro frame money_frame payment_frame, simp_all add: money_tables_def key_abbrev)
  done

lemma books_completeRefundWrites:
  "triple (books K (ro_wallet order) 0 0 0) (completeRefundWrites refund order pno) (\<lambda>_. books K (ro_wallet order) 0 0 0)"
  unfolding completeRefundWrites_def
  apply (rule triple_bindT, rule books_updateWalletReturning_by [where da = "- rf_amount refund" and dr = 0], simp, simp, simp)
  apply (rule triple_bindT, rule books_post2, simp, simp)
  apply (rule books_end, intro frame money_frame payment_frame, simp_all add: money_tables_def key_abbrev)
  done

lemma balanced_applyWebhook: "triple (balanced K) (applyWebhook order v) (\<lambda>_. balanced K)"
  unfolding applyWebhook_def payOrder_def failOrder_def
  apply (intro triple_if balanced_when triple_balanced [OF books_applyChargebackTx])
     apply (rule balanced_keeps, intro frame payment_frame, simp add: money_tables_def)+
  apply (rule balanced_keeps, rule frame)
  done

lemma balanced_firstWebhook: "triple (balanced K) (firstWebhook provider v h eid amount order) (\<lambda>_. balanced K)"
  unfolding firstWebhook_def
  apply (rule balanced_then, intro frame, simp add: money_tables_def)
  apply (rule balanced_bind, rule money_frame)
  apply (rule balanced_bind, rule frame)
  apply (rule balanced_then, intro payment_frame, simp add: money_tables_def)
  apply (rule triple_thenT, rule balanced_applyWebhook)
  apply (rule balanced_keeps, intro frame money_frame, simp add: money_tables_def)
  done

lemma keeps_replayWebhook: "keeps f (replayWebhook provider v h order)"
  unfolding replayWebhook_def by (intro frame)

lemma balanced_Webhook: "triple (balanced K) (RecordVerifiedPaymentWebhook provider v h) (\<lambda>_. balanced K)"
  unfolding RecordVerifiedPaymentWebhook_def
  by (intro balanced_bind balanced_then triple_if balanced_firstWebhook balanced_keeps keeps_replayWebhook frame money_frame)

lemma balanced_CreditPaidRecharge: "triple (balanced K) (CreditPaidRecharge oid) (\<lambda>_. balanced K)"
  unfolding CreditPaidRecharge_def
  by (intro balanced_bind balanced_then triple_if triple_thenT [OF triple_balanced [OF books_creditOrder]] balanced_keeps frame)

lemma balanced_CompleteRefund: "triple (balanced K) (CompleteRefund rid pno) (\<lambda>_. balanced K)"
  unfolding CompleteRefund_def
  by (intro balanced_bind balanced_then triple_if triple_thenT [OF triple_balanced [OF books_completeRefundWrites]] balanced_keeps frame)

end
