(* ===== verification/CashBooks.thy ===== *)
theory CashBooks
  imports PaymentBooks
begin

text \<open>
  The cash lots over whole operations. \<open>cash_state\<close> adds to the conservation law \<open>cash_inv\<close> what links the
  hold tables to the operations and refunds that own them: a hold lies on a lot of its owner's wallet, and
  it is untouched while its owner is still open. Every operation of the store preserves it, so the law
  \<open>original = remaining + held + spent\<close> of each lot holds in every reachable state.

  A refund settles its hold before its own row becomes final, so the statements of that transaction run
  in \<open>cash_at (Some refund)\<close>, which exempts that refund; \<open>cash_state\<close> exempts none.
\<close>

section \<open>The state\<close>

definition pendingRefund :: "RefundOrder \<Rightarrow> bool" where
  "pendingRefund r \<longleftrightarrow> rf_status r = RF_CREATED \<or> rf_status r = RF_PENDING"

definition holds_owned :: "db \<Rightarrow> bool" where
  "holds_owned s \<longleftrightarrow> (\<forall>f \<in> set (funding_cash s). \<exists>q \<in> set (operations s).
     o_id q = fc_operation f \<and> (fc_lot f, o_wallet q) \<in> lotOwners s \<and> (inFlight q \<longrightarrow> unsettled f))"

definition refunds_owned :: "string option \<Rightarrow> db \<Rightarrow> bool" where
  "refunds_owned x s \<longleftrightarrow> (\<forall>f \<in> set (refund_cash s). \<exists>r \<in> set (refund_orders s).
     rf_id r = rc_refund f \<and> rf_amount r = rc_reserved f \<and>
     (\<exists>p \<in> set (recharge_orders s). ro_id p = rf_recharge r \<and> (rc_lot f, ro_wallet p) \<in> lotOwners s) \<and>
     (pendingRefund r \<longrightarrow> x \<noteq> Some (rf_id r) \<longrightarrow> rc_consumed f = 0 \<and> rc_released f = 0))"

definition ids_distinct :: "db \<Rightarrow> bool" where
  "ids_distinct s \<longleftrightarrow> distinct (map o_id (operations s)) \<and> distinct (map rf_id (refund_orders s)) \<and>
     distinct (map ro_id (recharge_orders s)) \<and> distinct (map rc_refund (refund_cash s))"

definition cash_at :: "string option \<Rightarrow> db \<Rightarrow> bool" where
  "cash_at x s \<longleftrightarrow> cash_inv s \<and> ids_distinct s \<and> holds_owned s \<and> refunds_owned x s"

definition cash_state :: "db \<Rightarrow> bool" where
  "cash_state s \<longleftrightarrow> cash_at None s"

definition lot_tables where
  "lot_tables s = (cash_lots s, cash_allocations s, funding_cash s, refund_cash s)"

definition owner_tables where
  "owner_tables s = (operations s, refund_orders s, recharge_orders s)"

abbreviation cash_tables where
  "cash_tables s \<equiv> (lot_tables s, owner_tables s)"

lemma lot_tables_eq:
  assumes "lot_tables s' = lot_tables s"
  shows "cash_inv s' = cash_inv s" "lotOwners s' = lotOwners s" "funding_cash s' = funding_cash s" "refund_cash s' = refund_cash s"
  using assms cash_inv_cong [of s' s] by (simp_all add: lot_tables_def lotOwners_def)

text \<open>The owners' tables may grow and their rows may close, the lots unchanged.\<close>

definition owners_evolve :: "string option \<Rightarrow> string option \<Rightarrow> db \<Rightarrow> db \<Rightarrow> bool" where
  "owners_evolve x y s s' \<longleftrightarrow>
     (\<forall>q \<in> set (operations s). \<exists>q' \<in> set (operations s'). o_id q' = o_id q \<and> o_wallet q' = o_wallet q \<and> (inFlight q' \<longrightarrow> inFlight q)) \<and>
     (\<forall>r \<in> set (refund_orders s). \<exists>r' \<in> set (refund_orders s'). rf_id r' = rf_id r \<and> rf_recharge r' = rf_recharge r \<and> rf_amount r' = rf_amount r \<and>
        (pendingRefund r' \<longrightarrow> y \<noteq> Some (rf_id r) \<longrightarrow> pendingRefund r \<and> x \<noteq> Some (rf_id r))) \<and>
     (\<forall>p \<in> set (recharge_orders s). \<exists>p' \<in> set (recharge_orders s'). ro_id p' = ro_id p \<and> ro_wallet p' = ro_wallet p)"

lemma cash_at_evolve:
  assumes c: "cash_at x s" and l: "lot_tables s' = lot_tables s" and o: "owners_evolve x y s s'" and d: "ids_distinct s'"
  shows "cash_at y s'"
proof -
  note l = lot_tables_eq [OF l]
  have "holds_owned s'"
    unfolding holds_owned_def l
  proof
    fix f assume "f \<in> set (funding_cash s)"
    with c obtain q where q: "q \<in> set (operations s)" "o_id q = fc_operation f" "(fc_lot f, o_wallet q) \<in> lotOwners s" "inFlight q \<longrightarrow> unsettled f"
      unfolding cash_at_def holds_owned_def by blast
    from o q(1) obtain q' where "q' \<in> set (operations s')" "o_id q' = o_id q" "o_wallet q' = o_wallet q" "inFlight q' \<longrightarrow> inFlight q"
      unfolding owners_evolve_def by blast
    with q show "\<exists>q \<in> set (operations s'). o_id q = fc_operation f \<and> (fc_lot f, o_wallet q) \<in> lotOwners s \<and> (inFlight q \<longrightarrow> unsettled f)"
      by (intro bexI [of _ q']) auto
  qed
  moreover have "refunds_owned y s'"
    unfolding refunds_owned_def l
  proof
    fix f assume "f \<in> set (refund_cash s)"
    with c obtain r p where r: "r \<in> set (refund_orders s)" "rf_id r = rc_refund f" "rf_amount r = rc_reserved f"
      "pendingRefund r \<longrightarrow> x \<noteq> Some (rf_id r) \<longrightarrow> rc_consumed f = 0 \<and> rc_released f = 0"
      and p: "p \<in> set (recharge_orders s)" "ro_id p = rf_recharge r" "(rc_lot f, ro_wallet p) \<in> lotOwners s"
      unfolding cash_at_def refunds_owned_def by blast
    from o r(1) obtain r' where r': "r' \<in> set (refund_orders s')" "rf_id r' = rf_id r" "rf_recharge r' = rf_recharge r" "rf_amount r' = rf_amount r"
      "pendingRefund r' \<longrightarrow> y \<noteq> Some (rf_id r) \<longrightarrow> pendingRefund r \<and> x \<noteq> Some (rf_id r)"
      unfolding owners_evolve_def by blast
    from o p(1) obtain p' where p': "p' \<in> set (recharge_orders s')" "ro_id p' = ro_id p" "ro_wallet p' = ro_wallet p"
      unfolding owners_evolve_def by blast
    have "\<exists>p \<in> set (recharge_orders s'). ro_id p = rf_recharge r' \<and> (rc_lot f, ro_wallet p) \<in> lotOwners s"
      using p p' r' by (intro bexI [of _ p']) auto
    with r r' show "\<exists>r \<in> set (refund_orders s'). rf_id r = rc_refund f \<and> rf_amount r = rc_reserved f \<and>
       (\<exists>p \<in> set (recharge_orders s'). ro_id p = rf_recharge r \<and> (rc_lot f, ro_wallet p) \<in> lotOwners s) \<and>
       (pendingRefund r \<longrightarrow> y \<noteq> Some (rf_id r) \<longrightarrow> rc_consumed f = 0 \<and> rc_released f = 0)"
      by (intro bexI [of _ r']) auto
  qed
  ultimately show ?thesis using c d by (simp add: cash_at_def l)
qed

lemma owners_evolve_refl: "owner_tables s' = owner_tables s \<Longrightarrow> owners_evolve x x s s'"
  unfolding owner_tables_def owners_evolve_def by (simp, blast)

lemma cash_at_frame: "cash_tables s' = cash_tables s \<Longrightarrow> cash_at x s \<Longrightarrow> cash_at x s'"
  for s s' :: db
  by (rule cash_at_evolve [of x s s' x])
    (auto intro: owners_evolve_refl simp: owner_tables_def lot_tables_def cash_at_def ids_distinct_def)

lemma cash_keeps: "keeps cash_tables m \<Longrightarrow> triple (cash_at x) m (\<lambda>_. cash_at x)"
  by (rule triple_keeps) (auto intro: cash_at_frame)

lemma cash_bind: "keeps cash_tables m \<Longrightarrow> (\<And>y. triple (cash_at x) (g y) Q) \<Longrightarrow> triple (cash_at x) (bindT m g) Q"
  by (rule triple_bindT [OF cash_keeps])

lemma cash_then: "keeps cash_tables m \<Longrightarrow> triple (cash_at x) n Q \<Longrightarrow> triple (cash_at x) (thenT m n) Q"
  by (rule triple_thenT [OF cash_keeps])

lemma cash_when: "triple (cash_at x) m (\<lambda>_. cash_at x) \<Longrightarrow> triple (cash_at x) (whenT b m) (\<lambda>_. cash_at x)"
  by (rule triple_whenT) auto

section \<open>Statements on the owners\<close>

lemma update_where_evolves:
  "(\<And>r. R r r) \<Longrightarrow> (\<And>r. p r \<Longrightarrow> R r (g r)) \<Longrightarrow> \<forall>r \<in> set rows. \<exists>r' \<in> set (update_where p g rows). R r r'"
  by (induction rows) auto

lemma cash_updateOperation:
  assumes "\<And>q. o_id (g q) = o_id q" "\<And>q. o_wallet (g q) = o_wallet q" "\<And>q. inFlight (g q) \<Longrightarrow> inFlight q"
  shows "triple (cash_at x) (updateOperation oid g) (\<lambda>_. cash_at x)"
proof (rule tripleI)
  fix s u s'
  assume c: "cash_at x s" and "updateOperation oid g s = Inr (u, s')"
  then have s': "s' = s\<lparr>operations := update_where (\<lambda>q. o_id q = oid) g (operations s)\<rparr>" using updateOperation_Inr by blast
  have "map o_id (operations s') = map o_id (operations s)" unfolding s' by (simp, rule map_update_where) (rule assms)
  then have "ids_distinct s'" using c by (simp add: s' cash_at_def ids_distinct_def)
  moreover have "\<forall>q \<in> set (operations s). \<exists>q' \<in> set (update_where (\<lambda>q. o_id q = oid) g (operations s)).
      o_id q' = o_id q \<and> o_wallet q' = o_wallet q \<and> (inFlight q' \<longrightarrow> inFlight q)"
    by (rule update_where_evolves) (use assms in auto)
  then have "owners_evolve x x s s'" unfolding owners_evolve_def s' by simp blast
  ultimately show "cash_at x s'" by (intro cash_at_evolve [OF c]) (simp_all add: s' lot_tables_def)
qed

lemma cash_insertOperation:
  "triple (cash_at x) (insertOperation q) (\<lambda>_ s. cash_at x s \<and> q \<in> set (operations s))"
proof (rule tripleI)
  fix s u s'
  assume c: "cash_at x s" and "insertOperation q s = Inr (u, s')"
  note i = insertOperation_Inr [OF this(2)]
  have "ids_distinct s'" using c i by (auto simp: cash_at_def ids_distinct_def)
  moreover have "owners_evolve x x s s'" using i unfolding owners_evolve_def by simp blast
  ultimately show "cash_at x s' \<and> q \<in> set (operations s')"
    using cash_at_evolve [OF c] i by (simp add: lot_tables_def)
qed

lemma cash_updateRecharge:
  assumes "\<And>r. ro_id (g r) = ro_id r" "\<And>r. ro_wallet (g r) = ro_wallet r"
  shows "triple (cash_at x) (updateRecharge p g) (\<lambda>_. cash_at x)"
proof (rule tripleI)
  fix s u s'
  assume c: "cash_at x s" and "updateRecharge p g s = Inr (u, s')"
  then have s': "s' = s\<lparr>recharge_orders := update_where p (\<lambda>r. g (r\<lparr>ro_updated := clk s\<rparr>)) (recharge_orders s)\<rparr>"
    by (auto simp: updateRecharge_def)
  have "map ro_id (recharge_orders s') = map ro_id (recharge_orders s)" unfolding s' by (simp, rule map_update_where) (simp add: assms)
  then have "ids_distinct s'" using c by (simp add: s' cash_at_def ids_distinct_def)
  moreover have "\<forall>r \<in> set (recharge_orders s). \<exists>r' \<in> set (update_where p (\<lambda>r. g (r\<lparr>ro_updated := clk s\<rparr>)) (recharge_orders s)).
      ro_id r' = ro_id r \<and> ro_wallet r' = ro_wallet r"
    by (rule update_where_evolves) (simp_all add: assms)
  then have "owners_evolve x x s s'" unfolding owners_evolve_def s' by simp blast
  ultimately show "cash_at x s'" by (intro cash_at_evolve [OF c]) (simp_all add: s' lot_tables_def)
qed

lemma cash_insertRecharge: "triple (cash_at x) (insertRecharge r) (\<lambda>_. cash_at x)"
proof (rule tripleI)
  fix s u s'
  assume c: "cash_at x s" and i: "insertRecharge r s = Inr (u, s')"
  then have s': "s' = s\<lparr>recharge_orders := recharge_orders s @ [r]\<rparr>" and new: "\<forall>q \<in> set (recharge_orders s). ro_id q \<noteq> ro_id r"
    by (auto simp: insertRecharge_def unused_iff)
  have "ids_distinct s'" using c new by (auto simp: s' cash_at_def ids_distinct_def)
  moreover have "owners_evolve x x s s'" unfolding owners_evolve_def s' by simp blast
  ultimately show "cash_at x s'" by (intro cash_at_evolve [OF c]) (simp_all add: s' lot_tables_def)
qed

lemma cash_insertRefund:
  "triple (cash_at x) (insertRefund r) (\<lambda>_ s. cash_at x s \<and> r \<in> set (refund_orders s))"
proof (rule tripleI)
  fix s u s'
  assume c: "cash_at x s" and i: "insertRefund r s = Inr (u, s')"
  then have s': "s' = s\<lparr>refund_orders := refund_orders s @ [r]\<rparr>" and new: "\<forall>q \<in> set (refund_orders s). rf_id q \<noteq> rf_id r"
    by (auto simp: insertRefund_def unused_iff)
  have "ids_distinct s'" using c new by (auto simp: s' cash_at_def ids_distinct_def)
  moreover have "owners_evolve x x s s'" unfolding owners_evolve_def s' by simp blast
  ultimately show "cash_at x s' \<and> r \<in> set (refund_orders s')"
    using cash_at_evolve [OF c] by (simp add: s' lot_tables_def)
qed

text \<open>An update that opens no refund, and that closes the exempted refund if it lifts the exemption.\<close>

lemma cash_updateRefund:
  assumes "\<And>r. rf_id (g r) = rf_id r" "\<And>r. rf_recharge (g r) = rf_recharge r" "\<And>r. rf_amount (g r) = rf_amount r"
    and "\<And>r. pendingRefund (g r) \<Longrightarrow> p r \<Longrightarrow> pendingRefund r" and "x = y \<or> y = None \<and> (\<forall>r. Some (rf_id r) = x \<longrightarrow> p r \<and> \<not> pendingRefund (g r))"
  shows "triple (cash_at x) (updateRefund p g) (\<lambda>_. cash_at y)"
proof (rule tripleI)
  fix s u s'
  assume c: "cash_at x s" and "updateRefund p g s = Inr (u, s')"
  then have s': "s' = s\<lparr>refund_orders := update_where p g (refund_orders s)\<rparr>" by (auto simp: updateRefund_def)
  have "map rf_id (refund_orders s') = map rf_id (refund_orders s)" unfolding s' by (simp, rule map_update_where) (rule assms)
  then have "ids_distinct s'" using c by (simp add: s' cash_at_def ids_distinct_def)
  moreover have "\<exists>r' \<in> set (update_where p g (refund_orders s)). rf_id r' = rf_id r \<and> rf_recharge r' = rf_recharge r \<and> rf_amount r' = rf_amount r \<and>
        (pendingRefund r' \<longrightarrow> y \<noteq> Some (rf_id r) \<longrightarrow> pendingRefund r \<and> x \<noteq> Some (rf_id r))" if "r \<in> set (refund_orders s)" for r
    using that assms by (intro bexI [of _ "if p r then g r else r"]) (auto simp: in_update_where)
  then have "owners_evolve x y s s'" unfolding owners_evolve_def s' by simp blast
  ultimately show "cash_at y s'" by (intro cash_at_evolve [OF c]) (simp_all add: s' lot_tables_def)
qed

section \<open>Statements on the lots\<close>

lemma owners_frame:
  "keeps lotOwners (takeFromLot lid m)" "keeps lotOwners (returnToLot lid w m)" "keeps lotOwners (debitRow w tx lot m)"
  "keeps lotOwners (reserveCashLotsTx op w m)" "keeps lotOwners (allocateCashDebitTx w tx m)" "keeps lotOwners (settleCashLotsTx op w tx m)"
  "keeps lotOwners (allocateChargebackTx w ro tx m)" "keeps lotOwners (reserveRefundCashTx rf w ro m)"
  "keeps lotOwners (settleRefundCashTx rf w tx ok)" "keeps lotOwners (restoreCashAllocationTx w src rtx m)"
proof -
  show t: "keeps lotOwners (takeFromLot lid m)" for lid m
    by (rule keepsI) (drule takeFromLot_Inr, simp add: lotOwners_def image_update_where)
  show r: "keeps lotOwners (returnToLot lid w m)" for lid w m
    by (rule keepsI) (simp add: returnToLot_Inr lotOwners_def image_update_where)
  show d: "keeps lotOwners (debitRow w tx lot m)" for w tx lot m
    by (rule keeps_debitRow) (simp_all add: lotOwners_def)
  show a: "keeps lotOwners (allocateCashDebitTx w tx m)" for w tx m
    unfolding allocateCashDebitTx_def debitFromLot_def by (intro frame t d)
  show "keeps lotOwners (reserveCashLotsTx op w m)" "keeps lotOwners (settleCashLotsTx op w tx m)"
    "keeps lotOwners (allocateChargebackTx w ro tx m)" "keeps lotOwners (reserveRefundCashTx rf w ro m)"
    "keeps lotOwners (settleRefundCashTx rf w tx ok)" "keeps lotOwners (restoreCashAllocationTx w src rtx m)"
    unfolding reserveCashLotsTx_def holdFromLot_def insertFundingCash_def settleCashLotsTx_def settleHold_def settleFundingCash_def
      allocateChargebackTx_def debitRechargeCashLotTx_def debitFromLot_def reserveRefundCashTx_def insertRefundCash_def
      settleRefundCashTx_def settleRefundCash_def restoreCashAllocationTx_def restoreStep_def insertCashAllocation_def Let_def
    by (intro frame t r d a keeps_uuidT; simp add: lotOwners_def)+
qed

text \<open>A step on the lots and attributions that leaves the holds and their owners alone.\<close>

lemma cash_at_lots:
  assumes c: "cash_at x s" and "cash_inv s'" "lotOwners s \<subseteq> lotOwners s'" "funding_cash s' = funding_cash s" "refund_cash s' = refund_cash s"
    "owner_tables s' = owner_tables s"
  shows "cash_at x s'"
proof -
  from assms(6) have o: "operations s' = operations s" "refund_orders s' = refund_orders s" "recharge_orders s' = recharge_orders s"
    by (simp_all add: owner_tables_def)
  have "holds_owned s'" using c assms(3) unfolding cash_at_def holds_owned_def assms(4) o by blast
  moreover have "refunds_owned x s'" using c assms(3) unfolding cash_at_def refunds_owned_def assms(5) o by blast
  ultimately show ?thesis using c assms(2) by (simp add: cash_at_def ids_distinct_def assms(5) o)
qed

lemma cash_lots_step:
  assumes "\<And>s u s'. cash_inv s \<Longrightarrow> m s = Inr (u, s') \<Longrightarrow> cash_inv s'" "keeps lotOwners m"
    "keeps (\<lambda>s. (funding_cash s, refund_cash s, owner_tables s)) m"
  shows "triple (cash_at x) m (\<lambda>_. cash_at x)"
proof (rule tripleI)
  fix s u s'
  assume c: "cash_at x s" and m: "m s = Inr (u, s')"
  from keepsD [OF assms(3) m] keepsD [OF assms(2) m] assms(1) [OF _ m] c
  show "cash_at x s'" by (intro cash_at_lots [OF c]) (auto simp: cash_at_def)
qed

lemma cash_allocateCashDebitTx: "triple (cash_at x) (allocateCashDebitTx w tx m) (\<lambda>_. cash_at x)"
  by (rule cash_lots_step [OF allocateCashDebitTx_inv(1)], assumption, assumption, rule owners_frame,
      rule keeps_allocateCashDebitTx; simp add: owner_tables_def)

lemma cash_restoreCashAllocationTx: "triple (cash_at x) (restoreCashAllocationTx w src rtx m) (\<lambda>_. cash_at x)"
  by (rule cash_lots_step [OF restoreCashAllocationTx_inv(1)], assumption, assumption, rule owners_frame,
      rule keeps_restoreCashAllocationTx; simp add: owner_tables_def)

lemma cash_allocateChargebackTx: "0 \<le> m \<Longrightarrow> triple (cash_at x) (allocateChargebackTx w ro tx m) (\<lambda>_. cash_at x)"
  by (rule cash_lots_step [OF allocateChargebackTx_inv(1)], assumption, assumption, assumption, rule owners_frame,
      rule keeps_allocateChargebackTx; simp add: owner_tables_def)

lemma cash_createCashLotTx: "triple (cash_at x) (createCashLotTx w ro tx k ref m cur rfd) (\<lambda>_. cash_at x)"
proof (rule tripleI)
  fix s u s'
  assume c: "cash_at x s" and m: "createCashLotTx w ro tx k ref m cur rfd s = Inr (u, s')"
  have "keeps (\<lambda>s. (funding_cash s, refund_cash s, owner_tables s)) (createCashLotTx w ro tx k ref m cur rfd)"
    by (rule keeps_createCashLotTx) (simp_all add: owner_tables_def)
  note k = keepsD [OF this m]
  have "lotOwners s \<subseteq> lotOwners s'"
    using m unfolding createCashLotTx_def Let_def lotOwners_def by (auto simp: uuidT_Inr)
  then show "cash_at x s'"
    using k createCashLotTx_inv [OF _ m] c by (intro cash_at_lots [OF c]) (auto simp: cash_at_def)
qed

text \<open>New holds of an operation lie on lots of the wallet and are untouched.\<close>

lemma reserveCashLotsTx_rows:
  assumes "reserveCashLotsTx op w m s = Inr (u, s')" "f \<in> set (funding_cash s')"
  shows "f \<in> set (funding_cash s) \<or> fc_operation f = op \<and> unsettled f \<and> (fc_lot f, w) \<in> lotOwners s"
proof (cases "m \<le> 0")
  case True
  then show ?thesis using assms by (simp add: reserveCashLotsTx_def)
next
  case False
  define Q where "Q t \<longleftrightarrow> (\<forall>f \<in> set (funding_cash t). f \<in> set (funding_cash s) \<or> fc_operation f = op \<and> unsettled f \<and> (fc_lot f, w) \<in> lotOwners s)"
    for t :: db
  from False assms(1) obtain r where g: "greedyT l_remaining (holdFromLot op) (openLots w s) m s = Inr (r, s')"
    by (auto simp: reserveCashLotsTx_def)
  have "Q s'"
  proof (rule greedyT_invariant [OF g])
    show "Q s" by (simp add: Q_def)
    fix x k t u t'
    assume x: "x \<in> set (openLots w s)" and q: "Q t" and h: "holdFromLot op x k t = Inr (u, t')"
    from h obtain f where "funding_cash t' = funding_cash t @ [f]" "fc_operation f = op" "fc_lot f = l_id x" "unsettled f"
      unfolding holdFromLot_def insertFundingCash_def takeFromLot_def by (auto simp: uuidT_Inr unsettled_def)
    then show "Q t'" using q openLots_items [OF x] by (auto simp: Q_def)
  qed
  then show ?thesis using assms(2) by (auto simp: Q_def)
qed

lemma cash_reserveCashLotsTx:
  "triple (\<lambda>s. cash_at x s \<and> (\<exists>q \<in> set (operations s). o_id q = op \<and> o_wallet q = w)) (reserveCashLotsTx op w m) (\<lambda>_. cash_at x)"
proof (rule tripleI, elim conjE bexE)
  fix s u s' q
  assume c: "cash_at x s" and q: "q \<in> set (operations s)" "o_id q = op" "o_wallet q = w" and m: "reserveCashLotsTx op w m s = Inr (u, s')"
  have "keeps (\<lambda>s. (refund_cash s, owner_tables s)) (reserveCashLotsTx op w m)"
    by (rule keeps_reserveCashLotsTx) (simp_all add: owner_tables_def)
  note k = keepsD [OF this m] and o = keepsD [OF owners_frame(4) m]
  have t: "operations s' = operations s" "refund_orders s' = refund_orders s" "recharge_orders s' = recharge_orders s" "refund_cash s' = refund_cash s"
    using k by (simp_all add: owner_tables_def)
  have "holds_owned s'" unfolding holds_owned_def o t
    using c q reserveCashLotsTx_rows [OF m] unfolding cash_at_def holds_owned_def by (metis (no_types, lifting))
  moreover have "refunds_owned x s'" using c unfolding cash_at_def refunds_owned_def o t by simp
  ultimately show "cash_at x s'" using c reserveCashLotsTx_inv(1) [OF _ m] by (simp add: cash_at_def ids_distinct_def t)
qed

text \<open>Settling the holds of an operation that has just been closed.\<close>

definition settling :: "string \<Rightarrow> string \<Rightarrow> db \<Rightarrow> bool" where
  "settling op w s \<longleftrightarrow> (\<forall>f \<in> set (funding_cash s). fc_operation f = op \<longrightarrow> unsettled f \<and> (fc_lot f, w) \<in> lotOwners s)"

definition closed_op :: "string \<Rightarrow> db \<Rightarrow> bool" where
  "closed_op op s \<longleftrightarrow> (\<forall>q \<in> set (operations s). o_id q = op \<longrightarrow> \<not> inFlight q)"

lemma cash_settleCashLotsTx:
  assumes "0 \<le> m"
  shows "triple (\<lambda>s. cash_at x s \<and> settling op w s \<and> closed_op op s) (settleCashLotsTx op w tx m) (\<lambda>_. cash_at x)"
proof (rule tripleI, elim conjE)
  fix s u s'
  assume c: "cash_at x s" and st: "settling op w s" and cl: "closed_op op s" and m: "settleCashLotsTx op w tx m s = Inr (u, s')"
  have "keeps (\<lambda>s. (refund_cash s, owner_tables s)) (settleCashLotsTx op w tx m)"
    by (rule keeps_settleCashLotsTx) (simp_all add: owner_tables_def)
  note k = keepsD [OF this m] and o = keepsD [OF owners_frame(6) m]
  have t: "operations s' = operations s" "refund_orders s' = refund_orders s" "recharge_orders s' = recharge_orders s" "refund_cash s' = refund_cash s"
    using k by (simp_all add: owner_tables_def)
  have ci: "cash_inv s" and d: "distinct (map fc_id (funding_cash s))" using c by (simp_all add: cash_at_def cash_inv_def holds_ok_def)
  have "holds_owned s'" unfolding holds_owned_def o t
  proof
    fix f' assume "f' \<in> set (funding_cash s')"
    note r = settleCashLotsTx_rows [OF m d this]
    then obtain f where f: "f \<in> set (funding_cash s)" "fc_operation f = fc_operation f'" "fc_lot f = fc_lot f'"
      "fc_operation f' \<noteq> op \<longrightarrow> f = f'" by (cases "fc_operation f' = op") auto
    with c obtain q where "q \<in> set (operations s)" "o_id q = fc_operation f" "(fc_lot f, o_wallet q) \<in> lotOwners s" "inFlight q \<longrightarrow> unsettled f"
      unfolding cash_at_def holds_owned_def by blast
    then show "\<exists>q \<in> set (operations s). o_id q = fc_operation f' \<and> (fc_lot f', o_wallet q) \<in> lotOwners s \<and> (inFlight q \<longrightarrow> unsettled f')"
      using f cl unfolding closed_op_def by (intro bexI [of _ q]) auto
  qed
  moreover have "refunds_owned x s'" using c unfolding cash_at_def refunds_owned_def o t by simp
  ultimately show "cash_at x s'"
    using c settleCashLotsTx_inv(1) [OF ci m assms] st by (simp add: cash_at_def ids_distinct_def t settling_def)
qed

text \<open>The hold of a refund.\<close>

lemma cash_reserveRefundCashTx:
  "triple (\<lambda>s. cash_at x s \<and> (\<exists>r \<in> set (refund_orders s). rf_id r = rf \<and> rf_amount r = m \<and> (\<exists>p \<in> set (recharge_orders s). ro_id p = rf_recharge r \<and> ro_wallet p = w)))
     (reserveRefundCashTx rf w ro m) (\<lambda>_. cash_at x)"
proof (rule tripleI, elim conjE bexE)
  fix s u s' r p
  assume c: "cash_at x s" and r: "r \<in> set (refund_orders s)" "rf_id r = rf" "rf_amount r = m"
    and p: "p \<in> set (recharge_orders s)" "ro_id p = rf_recharge r" "ro_wallet p = w" and m: "reserveRefundCashTx rf w ro m s = Inr (u, s')"
  have "keeps (\<lambda>s. (funding_cash s, owner_tables s)) (reserveRefundCashTx rf w ro m)"
    by (rule keeps_reserveRefundCashTx) (simp_all add: owner_tables_def)
  note k = keepsD [OF this m] and o = keepsD [OF owners_frame(8) m]
  have t: "operations s' = operations s" "refund_orders s' = refund_orders s" "recharge_orders s' = recharge_orders s" "funding_cash s' = funding_cash s"
    using k by (simp_all add: owner_tables_def)
  from m obtain lot fid where lot: "refundableLot w ro s = Some lot"
    and rc: "refund_cash s' = refund_cash s @ [\<lparr>rc_id = fid, rc_refund = rf, rc_lot = l_id lot, rc_reserved = m,
                        rc_consumed = 0, rc_released = 0, rc_settled = None\<rparr>]"
    and new: "rf \<notin> rc_refund ` set (refund_cash s)"
    unfolding reserveRefundCashTx_def takeFromLot_def
    by (auto simp: uuidT_Inr dest!: insertRefundCash_Inr)
  have "(l_id lot, w) \<in> lotOwners s" using lot find_SomeD [of _ _ lot] unfolding refundableLot_def lotOwners_def by fastforce
  then have "refunds_owned x s'" unfolding refunds_owned_def o t rc
    using c r p unfolding cash_at_def refunds_owned_def by auto
  moreover have "holds_owned s'" using c unfolding cash_at_def holds_owned_def o t by simp
  ultimately show "cash_at x s'" using c new reserveRefundCashTx_inv(1) [OF _ m] by (simp add: cash_at_def ids_distinct_def t rc)
qed

lemma cash_settleRefundCashTx:
  "triple (\<lambda>s. cash_at None s \<and> (\<exists>r \<in> set (refund_orders s). rf_id r = rf \<and> pendingRefund r \<and> (\<exists>p \<in> set (recharge_orders s). ro_id p = rf_recharge r \<and> ro_wallet p = w)))
     (settleRefundCashTx rf w tx ok) (\<lambda>_. cash_at (Some rf))"
proof (rule tripleI, elim conjE bexE)
  fix s u s' r p
  assume c: "cash_at None s" and r: "r \<in> set (refund_orders s)" "rf_id r = rf" "pendingRefund r"
    and p: "p \<in> set (recharge_orders s)" "ro_id p = rf_recharge r" "ro_wallet p = w" and m: "settleRefundCashTx rf w tx ok s = Inr (u, s')"
  have "keeps (\<lambda>s. (funding_cash s, owner_tables s)) (settleRefundCashTx rf w tx ok)"
    by (rule keeps_settleRefundCashTx) (simp_all add: owner_tables_def)
  note k = keepsD [OF this m] and o = keepsD [OF owners_frame(9) m]
  have t: "operations s' = operations s" "refund_orders s' = refund_orders s" "recharge_orders s' = recharge_orders s" "funding_cash s' = funding_cash s"
    using k by (simp_all add: owner_tables_def)
  have d: "distinct (map rf_id (refund_orders s))" "distinct (map ro_id (recharge_orders s))" using c by (simp_all add: cash_at_def ids_distinct_def)
  have own: "rc_consumed f = 0 \<and> rc_released f = 0 \<and> (rc_lot f, w) \<in> lotOwners s" if f: "f \<in> set (refund_cash s)" "rc_refund f = rf" for f
  proof -
    from c f(1) obtain r' p' where r': "r' \<in> set (refund_orders s)" "rf_id r' = rc_refund f"
      "pendingRefund r' \<longrightarrow> rc_consumed f = 0 \<and> rc_released f = 0"
      and p': "p' \<in> set (recharge_orders s)" "ro_id p' = rf_recharge r'" "(rc_lot f, ro_wallet p') \<in> lotOwners s"
      unfolding cash_at_def refunds_owned_def by blast
    have "r' = r" using distinct_key_eq [OF d(1) r'(1) r(1)] r' r f by simp
    moreover have "p' = p" using distinct_key_eq [OF d(2) p'(1) p(1)] p' p calculation by simp
    ultimately show ?thesis using r' p' r p by simp
  qed
  from m obtain f g where f: "f \<in> set (refund_cash s)" "rc_refund f = rf"
    and rc: "refund_cash s' = update_where (\<lambda>q. rc_id q = rc_id f) g (refund_cash s)"
    and g: "\<forall>q. rc_refund (g q) = rc_refund q \<and> rc_lot (g q) = rc_lot q \<and> rc_reserved (g q) = rc_reserved q"
    unfolding settleRefundCashTx_def
    by (auto dest!: find_SomeD settleRefundCash_Inr simp: returnToLot_Inr elim!: debitRow_Inr split: if_splits)
  have di: "distinct (map rc_id (refund_cash s))" using c by (simp add: cash_at_def cash_inv_def holds_ok_def)
  have "refunds_owned (Some rf) s'" unfolding refunds_owned_def o t
  proof
    fix f' assume "f' \<in> set (refund_cash s')"
    then obtain q where q: "q \<in> set (refund_cash s)" "f' = (if rc_id q = rc_id f then g q else q)" unfolding rc in_update_where by blast
    have same: "rc_refund f' = rc_refund q" "rc_lot f' = rc_lot q" "rc_reserved f' = rc_reserved q" using q(2) g by auto
    have other: "f' = q" if "rc_refund q \<noteq> rf" using q(2) distinct_key_eq [OF di q(1) f(1)] f(2) that by auto
    from c q(1) obtain r' where r': "r' \<in> set (refund_orders s)" "rf_id r' = rc_refund q" "rf_amount r' = rc_reserved q"
      "\<exists>p \<in> set (recharge_orders s). ro_id p = rf_recharge r' \<and> (rc_lot q, ro_wallet p) \<in> lotOwners s"
      "pendingRefund r' \<longrightarrow> rc_consumed q = 0 \<and> rc_released q = 0"
      unfolding cash_at_def refunds_owned_def by blast
    then show "\<exists>r \<in> set (refund_orders s). rf_id r = rc_refund f' \<and> rf_amount r = rc_reserved f' \<and>
        (\<exists>p \<in> set (recharge_orders s). ro_id p = rf_recharge r \<and> (rc_lot f', ro_wallet p) \<in> lotOwners s) \<and>
        (pendingRefund r \<longrightarrow> Some rf \<noteq> Some (rf_id r) \<longrightarrow> rc_consumed f' = 0 \<and> rc_released f' = 0)"
      unfolding same using other by (intro bexI [of _ r']) auto
  qed
  moreover have "holds_owned s'" using c unfolding cash_at_def holds_owned_def o t by simp
  moreover have "map rc_refund (refund_cash s') = map rc_refund (refund_cash s)" unfolding rc by (rule map_update_where) (use g in blast)
  ultimately show "cash_at (Some rf) s'"
    using c settleRefundCashTx_inv(1) [OF _ m] own by (simp add: cash_at_def ids_distinct_def t)
qed

section \<open>Funding operations\<close>

lemma cash_frame:
  "keeps cash_tables uuidT" "keeps cash_tables (writeAuditTx x y z)" "keeps cash_tables (insertWalletTransaction t)"
  "keeps cash_tables (postLinkedJournalTx w ty k cur ref rc rf ls)" "keeps cash_tables (postJournalTx w ty k cur ref ls)"
  "keeps cash_tables (updateWallet wid g)" "keeps cash_tables (updateWalletReturning wid g)"
  "keeps cash_tables (reservePromotionTx op org cur m)" "keeps cash_tables (settlePromotionTx op m)" "keeps cash_tables (reversePromotionTx op m)"
  "keeps cash_tables (insertFundingEvent op st m src)" "keeps cash_tables (setUsageStatus op ust)"
  "keeps cash_tables (settlementJournal q a ru ov)" "keeps cash_tables (releaseJournal q rel)" "keeps cash_tables (settleProviderBudget q r)"
  "keeps cash_tables (settlementAmounts q r)" "keeps cash_tables (insertAdjustment ad)" "keeps cash_tables (correctedAmount q lu)"
  "keeps cash_tables (recheckProviderDispatchTx org p c)" "keeps cash_tables (reserveProviderBudget oid p)" "keeps cash_tables (insertAttempt oid p c b)"
  by (intro keeps_uuidT keeps_writeAuditTx keeps_insertWalletTransaction keeps_postLinkedJournalTx keeps_postJournalTx
        keeps_updateWallet keeps_updateWalletReturning keeps_reservePromotionTx keeps_settlePromotionTx keeps_reversePromotionTx
        keeps_insertFundingEvent keeps_setUsageStatus keeps_settlementJournal keeps_settleProviderBudget keeps_settlementAmounts
        keeps_insertAdjustment keeps_correctedAmount keeps_recheckProviderDispatchTx keeps_reserveProviderBudget keeps_insertAttempt;
      simp add: lot_tables_def owner_tables_def)+

lemma cash_placeReservation: "triple (cash_at x) (placeReservation rq w maximum) (\<lambda>_. cash_at x)"
  unfolding placeReservation_def Let_def
  apply (rule cash_bind, rule cash_frame)
  apply (rule cash_bind, rule frame)
  apply (rule cash_bind, rule frame)
  apply (simp only: split_paired_all prod.case)
  apply (rule cash_bind, rule frame)
  apply (rule triple_thenT, rule cash_insertOperation)
  apply (rule triple_thenT, rule triple_pre, rule cash_reserveCashLotsTx, force simp: newOperation_def)
  apply (rule cash_keeps, intro frame cash_frame)
  done

lemma cash_ReserveFunding: "triple (cash_at x) (ReserveFunding rq) (\<lambda>_. cash_at x)"
  by (rule tripleI, case_tac xa) (use ReserveFunding_Inr tripleD [OF cash_placeReservation] in blast)

lemma settling_frame:
  assumes "lot_tables s' = lot_tables s"
  shows "settling op w s' = settling op w s"
  using lot_tables_eq [OF assms] by (simp add: settling_def)

lemma in_flight_settling:
  assumes "cash_at x s" "q \<in> set (operations s)" "inFlight q"
  shows "settling (o_id q) (o_wallet q) s"
  unfolding settling_def
proof (intro ballI impI)
  fix f assume f: "f \<in> set (funding_cash s)" "fc_operation f = o_id q"
  with assms(1) obtain p where p: "p \<in> set (operations s)" "o_id p = fc_operation f" "(fc_lot f, o_wallet p) \<in> lotOwners s" "inFlight p \<longrightarrow> unsettled f"
    unfolding cash_at_def holds_owned_def by blast
  have "p = q" using distinct_key_eq [of o_id "operations s" p q] assms p f by (simp add: cash_at_def ids_distinct_def)
  then show "unsettled f \<and> (fc_lot f, o_wallet q) \<in> lotOwners s" using p assms(3) by simp
qed

text \<open>Between the update of the operation and the settlement of its holds.\<close>

definition closing :: "string option \<Rightarrow> FundingOperation \<Rightarrow> db \<Rightarrow> bool" where
  "closing x q s \<longleftrightarrow> cash_at x s \<and> settling (o_id q) (o_wallet q) s \<and> closed_op (o_id q) s"

lemma closing_frame: "cash_tables s' = cash_tables s \<Longrightarrow> closing x q s \<Longrightarrow> closing x q s'"
  for s s' :: db
  using cash_at_frame [of s' s x] settling_frame [of s' s] by (simp add: closing_def closed_op_def owner_tables_def)

lemma closing_keeps: "keeps cash_tables m \<Longrightarrow> triple (closing x q) m (\<lambda>_. closing x q)"
  by (rule triple_keeps) (auto intro: closing_frame)

lemma cash_settleOperation:
  "triple (\<lambda>s. cash_at x s \<and> settling (o_id q) (o_wallet q) s) (settleOperation q rq actual release consumed fee shadow) (\<lambda>_. closing x q)"
proof (rule tripleI, elim conjE)
  fix s u s'
  assume c: "cash_at x s" and st: "settling (o_id q) (o_wallet q) s" and m: "settleOperation q rq actual release consumed fee shadow s = Inr (u, s')"
  from m obtain v t where up: "updateOperation (o_id q) (settledOperation rq actual release consumed fee shadow (clk s)) s = Inr (v, t)"
    and ev: "thenT (whenT (0 < release) (insertFundingEvent (o_id q) F_RELEASED release (firstNonEmptyStore [fs_source rq, ''gateway''])))
             (insertFundingEvent (o_id q) (settlementStatus rq actual) actual (firstNonEmptyStore [fs_source rq, ''gateway''])) t = Inr (u, s')"
    unfolding settleOperation_def by (elim bindT_InrE thenT_InrE [of "updateOperation _ _"]) (simp only: getT_Inr)
  have k: "cash_tables s' = cash_tables t" by (rule keepsD [rotated], rule ev, intro frame cash_frame)
  note t = conjunct1 [OF updateOperation_Inr [OF up]]
  have "cash_at x t" by (rule tripleD [OF cash_updateOperation c up]) (simp_all add: inFlight_def)
  moreover have "settling (o_id q) (o_wallet q) t" using st settling_frame [of t s] by (simp add: t lot_tables_def)
  moreover have "closed_op (o_id q) t" unfolding closed_op_def
  proof (intro ballI impI)
    fix p assume "p \<in> set (operations t)" "o_id p = o_id q"
    then obtain p' where "p = settledOperation rq actual release consumed fee shadow (clk s) p'" by (auto simp: t in_update_where split: if_splits)
    then show "\<not> inFlight p" unfolding inFlight_def by simp
  qed
  ultimately show "closing x q s'" using closing_frame [OF k] by (simp add: closing_def)
qed

lemma cash_settlementCharge:
  assumes "0 \<le> actual"
  shows "triple (closing x q) (settlementCharge q actual newAvailable jid) (\<lambda>_. cash_at x)"
proof -
  note settle = cash_settleCashLotsTx [OF assms, of x "o_id q" "o_wallet q", folded closing_def]
  show ?thesis unfolding settlementCharge_def
    apply (rule triple_if)
     apply (rule triple_bindT, rule closing_keeps, rule cash_frame)
     apply (rule triple_bindT, rule closing_keeps, rule frame)
     apply (rule triple_bindT, rule closing_keeps, rule frame)
     apply (rule triple_thenT, rule closing_keeps, intro frame cash_frame)
     apply (rule settle)
    apply (rule settle)
    done
qed

lemma cash_writeSettlement:
  assumes c: "cash_at x s" and q: "q \<in> set (operations s)" "inFlight q"
    and ws: "writeSettlement q w r amountText promotionText feeText shadowText s = Inr (u, s')"
  shows "cash_at x s'"
proof -
  from ws obtain promotion consumed actual fee shadow jid newAvailable s1 s2 s3 s4 s5 s6 s7 s8 where
    1: "settlePromotionTx (o_id q) promotion s = Inr (consumed, s1)" and
    2: "settlementJournal q actual (min actual (o_maximum q)) (actual - min actual (o_maximum q)) s1 = Inr (jid, s2)" and
    3: "releaseJournal q (o_maximum q - min actual (o_maximum q)) s2 = Inr ((), s3)" and
    4: "settleWallet q w (o_maximum q - min actual (o_maximum q)) (actual - min actual (o_maximum q)) s3 = Inr (newAvailable, s4)" and
    5: "settleOperation q r actual (o_maximum q - min actual (o_maximum q)) consumed fee shadow s4 = Inr ((), s5)" and
    6: "settlementCharge q actual newAvailable jid s5 = Inr ((), s6)" and
    7: "setUsageStatus (o_id q) (if 0 < actual then U_CHARGED else U_WAIVED) s6 = Inr ((), s7)" and
    8: "writeAuditTx None ''wallet.funding_settled'' (o_id q) s7 = Inr ((), s8)" and
    9: "settleProviderBudget q r s8 = Inr ((), s')"
    by (rule writeSettlement_Inr)
  have "cash_tables s4 = cash_tables s3" by (rule keepsD [rotated], rule 4, unfold settleWallet_def, intro frame cash_frame)
  then have t: "cash_tables s4 = cash_tables s"
    using keepsD [OF cash_frame(9) 1] keepsD [OF cash_frame(13) 2] keepsD [OF cash_frame(14) 3] by simp
  then have "q \<in> set (operations s4)" using q by (simp add: owner_tables_def)
  note pos = settleOperation_checks(1) [OF 5 this]
  have "settling (o_id q) (o_wallet q) s4" using settling_frame [of s4 s] in_flight_settling [OF c q] t by simp
  with cash_at_frame [OF t c] have "closing x q s5" by (intro tripleD [OF cash_settleOperation _ 5] conjI)
  note c6 = tripleD [OF cash_settlementCharge [OF pos] this 6]
  have "cash_tables s' = cash_tables s6"
    using keepsD [OF cash_frame(12) 7] keepsD [OF cash_frame(2) 8] keepsD [OF cash_frame(15) 9] by simp
  then show ?thesis using c6 by (rule cash_at_frame)
qed

lemma cash_SettleFunding: "triple (cash_at x) (SettleFunding r) (\<lambda>_. cash_at x)"
proof (rule tripleI)
  fix s p s'
  assume c: "cash_at x s" and m: "SettleFunding r s = Inr (p, s')"
  from m show "cash_at x s'"
  proof (cases rule: SettleFunding_Inr)
    case finished
    then show ?thesis using c by simp
  next
    case (settled q w t1 t2 t3 t4 s1)
    have t: "cash_tables s1 = cash_tables s" by (rule keepsD [OF cash_frame(16) settled(4)])
    then have "q \<in> set (operations s1)" using opById_SomeD [OF settled(1)] by (simp add: owner_tables_def)
    then show ?thesis using cash_writeSettlement [OF cash_at_frame [OF t c] _ settled(2,5)] by blast
  qed
qed

lemma cash_applyDifference: "triple (cash_at x) (applyDifference q r d) (\<lambda>_. cash_at x)"
  unfolding applyDifference_def adjustmentJournal_def
  apply (rule cash_bind, rule cash_frame)+
  apply (rule cash_bind, rule frame)
  apply (rule cash_then, rule cash_frame)
  apply (rule triple_thenT, rule triple_if, rule cash_allocateCashDebitTx)
   apply (rule cash_bind, rule frame)
   apply (rule cash_restoreCashAllocationTx)
  apply (rule cash_keeps, rule frame)
  done

lemma cash_writeAdjustment: "triple (cash_at x) (writeAdjustment q r c) (\<lambda>_. cash_at x)"
  unfolding writeAdjustment_def Let_def
  apply (rule triple_bindT, rule triple_if, rule cash_applyDifference, rule cash_keeps, rule frame)
  apply (rule cash_then, rule cash_frame)
  apply (rule cash_then, rule cash_frame)
  apply (rule cash_bind, rule frame)
  apply (rule triple_thenT, rule cash_updateOperation, simp, simp, simp add: inFlight_def isFundingTerminal_def split: if_splits)
  apply (rule cash_keeps, intro frame cash_frame)
  done

lemma cash_AdjustLate: "triple (cash_at x) (AdjustLateFundingUsage r) (\<lambda>_. cash_at x)"
  by (rule tripleI) (use AdjustLate_Inr tripleD [OF cash_writeAdjustment] in blast)

lemma cash_writeReversal: "triple (cash_at x) (writeReversal q key reason actor) (\<lambda>_. cash_at x)"
  unfolding writeReversal_def Let_def
  apply (rule cash_bind, rule cash_frame)+
  apply (rule cash_bind, rule frame)
  apply (rule cash_then, rule cash_frame)
  apply (rule cash_bind, rule frame)
  apply (rule triple_thenT, rule cash_restoreCashAllocationTx)
  apply (rule cash_bind, rule cash_frame)
  apply (rule triple_thenT, rule cash_updateOperation, simp, simp, simp add: inFlight_def isFundingTerminal_def)
  apply (rule cash_keeps, intro frame cash_frame)
  done

lemma cash_ReverseFunding: "triple (cash_at x) (ReverseFunding oid key reason actor) (\<lambda>_. cash_at x)"
  by (rule tripleI) (use ReverseFunding_Inr tripleD [OF cash_writeReversal] in blast)

lemma cash_same_operations:
  assumes "\<And>q. o_id (g q) = o_id q \<and> o_wallet (g q) = o_wallet q \<and> o_status (g q) = o_status q" and c: "cash_at x s"
  shows "cash_at x (s\<lparr>operations := update_where p g (operations s)\<rparr>)" (is "cash_at x ?s")
proof (rule cash_at_evolve [OF c])
  have "map o_id (update_where p g (operations s)) = map o_id (operations s)" by (rule map_update_where) (simp add: assms(1))
  then show "ids_distinct ?s" using c by (simp add: cash_at_def ids_distinct_def)
  have "\<forall>q \<in> set (operations s). \<exists>q' \<in> set (update_where p g (operations s)). o_id q' = o_id q \<and> o_wallet q' = o_wallet q \<and> (inFlight q' \<longrightarrow> inFlight q)"
    by (rule update_where_evolves) (simp_all add: assms(1) inFlight_def)
  then show "owners_evolve x x s ?s" unfolding owners_evolve_def by simp blast
qed (simp add: lot_tables_def)

lemma cash_HeartbeatFunding: "triple (cash_at x) (HeartbeatFunding oid n) (\<lambda>_. cash_at x)"
  by (rule tripleI) (auto simp: HeartbeatFunding_def intro!: cash_same_operations)

lemma cash_BeginFundingAttempt: "triple (cash_at x) (BeginFundingAttempt oid p c b) (\<lambda>_. cash_at x)"
  unfolding BeginFundingAttempt_def applyByokPolicy_def
  apply (rule cash_bind, rule frame)
  apply (rule cash_then, rule frame)
  apply (rule cash_then, rule cash_frame)
  apply (rule cash_bind, rule frame)
  apply (rule triple_thenT, rule cash_updateOperation, simp, simp, simp add: inFlight_def)
  apply (rule triple_thenT, rule cash_when)
   apply (rule cash_bind, rule frame)
   apply (rule cash_then, rule frame)
   apply (rule cash_updateOperation, simp, simp, simp add: inFlight_def)
  apply (rule cash_keeps, intro frame cash_frame)
  done

lemma cash_FinishFundingAttempt: "triple (cash_at x) (FinishFundingAttempt aid st) (\<lambda>_. cash_at x)"
  unfolding FinishFundingAttempt_def by (rule cash_keeps, intro frame) (simp add: lot_tables_def owner_tables_def)

lemma settleStale_cash: "cash_at x s \<Longrightarrow> cash_at x (snd (snd (settleStale items n s)))"
proof (induction items n s rule: settleStale.induct)
  case (2 item items n s)
  have c: "cash_at x (snd (commit (SettleFunding (recoveryRequest item)) s))"
    by (rule commit_invariant) (use tripleD [OF cash_SettleFunding] 2(3) in auto)
  then show ?case using 2(1,2)
    by (cases "commit (SettleFunding (recoveryRequest item)) s") (auto split: sum.splits)
qed simp

lemma RecoverStaleFunding_cash: "cash_at x s \<Longrightarrow> cash_at x (snd (snd (RecoverStaleFunding before limit s)))"
  unfolding RecoverStaleFunding_def Let_def by (intro settleStale_cash cash_same_operations) simp_all

section \<open>Wallet and payment operations\<close>

lemma cash_payment_frame:
  "keeps cash_tables (insertPaymentAttempt a)" "keeps cash_tables (insertReconciliation e)" "keeps cash_tables (bindProviderAccount org u p m)"
  "keeps cash_tables (enqueueProviderAllocationTx ord)" "keeps cash_tables (updateApplications rid st)" "keeps cash_tables (checkRechargeRisk org u k)"
  by (intro payment_frame; simp add: lot_tables_def owner_tables_def)+

lemma cash_writeTransaction: "triple (cash_at x) (writeTransaction r w) (\<lambda>_. cash_at x)"
  unfolding writeTransaction_def Let_def
  apply (rule cash_bind, rule cash_frame)
  apply (rule cash_then, rule frame)
  apply (rule cash_bind, rule cash_frame)
  apply (rule cash_bind, rule cash_frame)
  apply (rule cash_bind, rule frame)
  apply (rule cash_then, rule cash_frame)
  apply (rule triple_thenT, rule triple_if, rule cash_createCashLotTx, rule cash_when, rule cash_allocateCashDebitTx)
  apply (rule cash_keeps, intro frame cash_frame)
  done

lemma cash_CreateWalletTransaction: "triple (cash_at x) (CreateWalletTransaction r) (\<lambda>_. cash_at x)"
  by (rule tripleI) (use CreateWalletTransaction_Inr tripleD [OF cash_writeTransaction] in blast)

lemma cash_UpdateWallet: "triple (cash_at x) (UpdateWallet w) (\<lambda>_. cash_at x)"
  unfolding UpdateWallet_def by (rule cash_keeps, intro frame cash_frame)

lemma triple_case_option: "(o1 = None \<Longrightarrow> triple P m Q) \<Longrightarrow> (\<And>y. o1 = Some y \<Longrightarrow> triple P (n y) Q) \<Longrightarrow> triple P (case o1 of None \<Rightarrow> m | Some y \<Rightarrow> n y) Q"
  by (cases o1) auto

lemma cash_placeRecharge: "triple (cash_at x) (placeRecharge sha r) (\<lambda>_. cash_at x)"
  unfolding placeRecharge_def bindTarget_def
  apply (rule cash_bind, rule frame)
  apply (rule cash_then, intro frame cash_payment_frame)
  apply (rule cash_then, intro frame cash_payment_frame)
  apply (rule cash_bind, rule frame)
  apply (rule cash_then, rule frame)
  apply (rule cash_bind, rule cash_frame)
  apply (rule cash_bind, rule frame)
  apply (rule triple_thenT, rule cash_insertRecharge)
  apply (rule cash_keeps, intro frame cash_frame)
  done

lemma cash_CreateRechargeOrder: "triple (cash_at x) (CreateRechargeOrder sha r) (\<lambda>_. cash_at x)"
  unfolding CreateRechargeOrder_def Let_def
  by (intro cash_bind cash_then triple_case_option triple_if triple_bindT [OF cash_placeRecharge] cash_keeps frame)

lemma cash_orderUpdates:
  "triple (cash_at x) (payOrder oid) (\<lambda>_. cash_at x)" "triple (cash_at x) (failOrder oid st code) (\<lambda>_. cash_at x)"
  unfolding payOrder_def failOrder_def by (intro cash_bind cash_updateRecharge frame; simp)+

lemma triple_forT: "(\<And>y. y \<in> set ys \<Longrightarrow> triple P (g y) (\<lambda>_. P)) \<Longrightarrow> triple P (forT ys g) (\<lambda>_. P)"
  by (rule tripleI, erule forT_invariant) (auto dest: tripleD)

lemma cash_simple_payments:
  "triple (cash_at x) (StartPaymentAttempt oid op) (\<lambda>_. cash_at x)" "triple (cash_at x) (FinishPaymentAttempt aid st pno) (\<lambda>_. cash_at x)"
  "triple (cash_at x) (MarkRechargePending oid pno) (\<lambda>_. cash_at x)" "triple (cash_at x) (MarkRechargeFailed oid code) (\<lambda>_. cash_at x)"
  "triple (cash_at x) (ApplyPaymentQueryResult oid res actor) (\<lambda>_. cash_at x)" "triple (cash_at x) (MarkRechargePaid oid ev actor) (\<lambda>_. cash_at x)"
  "triple (cash_at x) (ExpireRechargeOrders now limit) (\<lambda>_. cash_at x)" "triple (cash_at x) (MarkRechargeProviderClosed oid) (\<lambda>_. cash_at x)"
  "triple (cash_at x) (RecordReconciliation order key result actor) (\<lambda>_. cash_at x)"
  "triple (cash_at x) (RecordReconciliationFailure order key code details) (\<lambda>_. cash_at x)"
proof -
  show "triple (cash_at x) (StartPaymentAttempt oid op) (\<lambda>_. cash_at x)" "triple (cash_at x) (FinishPaymentAttempt aid st pno) (\<lambda>_. cash_at x)"
    "triple (cash_at x) (RecordReconciliation order key result actor) (\<lambda>_. cash_at x)"
    "triple (cash_at x) (RecordReconciliationFailure order key code details) (\<lambda>_. cash_at x)"
    unfolding StartPaymentAttempt_def FinishPaymentAttempt_def RecordReconciliation_def RecordReconciliationFailure_def Let_def
    by (rule cash_keeps, intro frame cash_frame cash_payment_frame; simp add: lot_tables_def owner_tables_def)+
  show "triple (cash_at x) (MarkRechargePending oid pno) (\<lambda>_. cash_at x)" "triple (cash_at x) (MarkRechargeFailed oid code) (\<lambda>_. cash_at x)"
    "triple (cash_at x) (MarkRechargeProviderClosed oid) (\<lambda>_. cash_at x)"
    unfolding MarkRechargePending_def MarkRechargeFailed_def MarkRechargeProviderClosed_def rechargesAffected_def Let_def
    by (intro cash_bind cash_then triple_thenT [OF cash_updateRecharge] cash_updateRecharge frame cash_keeps; simp)+
  show "triple (cash_at x) (ApplyPaymentQueryResult oid res actor) (\<lambda>_. cash_at x)"
    unfolding ApplyPaymentQueryResult_def Let_def
    apply (rule cash_bind, rule frame)
    apply (rule cash_then, rule frame)
    apply (rule triple_thenT [where R = "cash_at x"])
     apply (intro triple_if cash_when cash_orderUpdates cash_keeps frame)
    apply (rule cash_keeps, intro frame cash_frame)
    done
  show "triple (cash_at x) (MarkRechargePaid oid ev actor) (\<lambda>_. cash_at x)"
    unfolding MarkRechargePaid_def
    apply (rule cash_bind, rule frame)
    apply (rule triple_if, rule cash_keeps, rule frame)
    apply (rule cash_then, rule frame)
    apply (rule triple_thenT, rule cash_orderUpdates)
    apply (rule cash_keeps, intro frame cash_frame)
    done
  show "triple (cash_at x) (ExpireRechargeOrders now limit) (\<lambda>_. cash_at x)"
    unfolding ExpireRechargeOrders_def
    apply (rule cash_bind, rule frame)
    apply (rule triple_thenT, rule triple_forT, rule cash_updateRecharge, simp, simp)
    apply (rule cash_keeps, intro frame)
    done
qed

lemma refundOrder_positive: "insertRefund r s = Inr (u, s') \<Longrightarrow> 0 < rf_amount r"
  by (auto simp: insertRefund_def refundChecks_def)

lemma cash_applyChargebackTx: "triple (cash_at x) (applyChargebackTx order ev) (\<lambda>_. cash_at x)"
proof -
  have ins: "triple (cash_at x) (insertRefund r) (\<lambda>_ s. 0 < rf_amount r \<and> cash_at x s)" for r
    by (rule tripleI) (auto dest: refundOrder_positive tripleD [OF cash_insertRefund])
  show ?thesis unfolding applyChargebackTx_def
    apply (rule cash_bind, rule frame)
    apply (rule cash_then, rule frame)
    apply (rule cash_bind, rule cash_frame)
    apply (rule cash_bind, rule cash_frame)
    apply (rule cash_bind, rule frame)
    apply (rule triple_thenT, rule ins, rule triple_conj)
    apply (rule cash_bind, rule cash_frame)
    apply (rule cash_bind, rule cash_frame)
    apply (rule cash_then, rule cash_frame)
    apply (rule triple_thenT, rule cash_allocateChargebackTx, simp)
    apply (rule triple_thenT, rule cash_updateRefund [where y = x], simp, simp, simp, simp add: pendingRefund_def, simp)
    apply (rule triple_thenT, rule cash_updateRecharge, simp, simp)
    apply (rule cash_keeps, rule cash_frame)
    done
qed

lemma cash_applyWebhook: "triple (cash_at x) (applyWebhook order v) (\<lambda>_. cash_at x)"
  unfolding applyWebhook_def
  by (intro triple_if cash_when cash_applyChargebackTx cash_orderUpdates cash_keeps frame)

lemma cash_firstWebhook: "triple (cash_at x) (firstWebhook provider v h eid amount order) (\<lambda>_. cash_at x)"
  unfolding firstWebhook_def
  apply (rule cash_then, intro frame, simp add: lot_tables_def owner_tables_def)
  apply (rule cash_bind, rule cash_frame)
  apply (rule cash_bind, rule frame)
  apply (rule cash_then, rule cash_payment_frame)
  apply (rule triple_thenT, rule cash_applyWebhook)
  apply (rule cash_keeps, intro frame cash_frame, simp add: lot_tables_def owner_tables_def)
  done

lemma cash_Webhook: "triple (cash_at x) (RecordVerifiedPaymentWebhook provider v h) (\<lambda>_. cash_at x)"
  unfolding RecordVerifiedPaymentWebhook_def
  by (intro cash_bind cash_then triple_if cash_firstWebhook cash_keeps keeps_replayWebhook frame cash_frame)

lemma cash_creditOrder: "triple (cash_at x) (creditOrder order) (\<lambda>_. cash_at x)"
  unfolding creditOrder_def
  apply (rule cash_bind, rule frame)
  apply (rule cash_then, rule frame)
  apply (rule cash_bind, rule cash_frame)
  apply (rule cash_bind, rule cash_frame)
  apply (rule cash_bind, rule cash_frame)
  apply (rule cash_bind, rule frame)
  apply (rule cash_then, rule cash_frame)
  apply (rule triple_thenT, rule cash_createCashLotTx)
  apply (rule triple_thenT, rule cash_updateRecharge, simp, simp)
  apply (rule cash_keeps, intro frame cash_frame cash_payment_frame)
  done

lemma cash_CreditPaidRecharge: "triple (cash_at x) (CreditPaidRecharge oid) (\<lambda>_. cash_at x)"
  unfolding CreditPaidRecharge_def
  by (intro cash_bind cash_then triple_if triple_thenT [OF cash_creditOrder] cash_keeps frame)

section \<open>Refunds\<close>

text \<open>The order a refund belongs to is there while the refund is placed or finished.\<close>

definition cash_order :: "string option \<Rightarrow> RechargeOrder \<Rightarrow> db \<Rightarrow> bool" where
  "cash_order x order s \<longleftrightarrow> cash_at x s \<and> order \<in> set (recharge_orders s)"

lemma cash_order_keeps: "keeps cash_tables m \<Longrightarrow> triple (cash_order x order) m (\<lambda>_. cash_order x order)"
  by (rule triple_keeps) (auto simp: cash_order_def owner_tables_def intro: cash_at_frame)

lemma cash_order_bind: "keeps cash_tables m \<Longrightarrow> (\<And>y. triple (cash_order x ord) (g y) Q) \<Longrightarrow> triple (cash_order x ord) (bindT m g) Q"
  by (rule triple_bindT [OF cash_order_keeps])

lemma cash_order_then: "keeps cash_tables m \<Longrightarrow> triple (cash_order x ord) n Q \<Longrightarrow> triple (cash_order x ord) (thenT m n) Q"
  by (rule triple_thenT [OF cash_order_keeps])

lemma cash_order_insertRefund:
  "triple (cash_order x order) (insertRefund r) (\<lambda>_ s. cash_order x order s \<and> r \<in> set (refund_orders s))"
proof (rule tripleI)
  fix s u s'
  assume c: "cash_order x order s" and i: "insertRefund r s = Inr (u, s')"
  have "recharge_orders s' = recharge_orders s" by (rule keepsD [rotated], rule i, rule keeps_insertRefund) simp
  then show "cash_order x order s' \<and> r \<in> set (refund_orders s')"
    using c tripleD [OF cash_insertRefund _ i] by (auto simp: cash_order_def)
qed

lemma cash_placeRefund: "triple (cash_order x order) (placeRefund r order) (\<lambda>_. cash_at x)"
  unfolding placeRefund_def refundAuthorized_def
  apply (rule cash_order_then, intro frame)
  apply (rule cash_order_bind, rule frame)
  apply (rule cash_order_bind, rule frame)
  apply (rule cash_order_then, rule frame)
  apply (rule cash_order_bind, rule cash_frame)
  apply (rule cash_order_bind, rule frame)
  apply (rule triple_thenT, rule cash_order_insertRefund)
  apply (rule triple_thenT, rule triple_pre, rule cash_reserveRefundCashTx, force simp: cash_order_def)
  apply (rule triple_thenT, rule cash_updateRecharge, simp, simp)
  apply (rule cash_keeps, intro frame cash_frame, simp add: lot_tables_def owner_tables_def)
  done

lemma rechargeById_SomeD: "rechargeById oid s = Some r \<Longrightarrow> r \<in> set (recharge_orders s) \<and> ro_id r = oid"
  unfolding rechargeById_def by (auto dest: find_SomeD)

lemma refundById_SomeD: "refundById rid s = Some r \<Longrightarrow> r \<in> set (refund_orders s) \<and> rf_id r = rid"
  unfolding refundById_def by (auto dest: find_SomeD)

lemma CreateRefundOrder_Inr:
  assumes "CreateRefundOrder r s = Inr ((q, replayed), s')"
  obtains (replay) order where "replayed" "s' = s" "rechargeById (rq_recharge r) s = Some order" "q \<in> set (refund_orders s)"
      "rf_recharge q = ro_id order" "rf_key q = rq_key r" "decimalEqual (numericText (rf_amount q)) (rq_amount r)"
  | (placed) order where "\<not> replayed" "rechargeById (rq_recharge r) s = Some order" "ro_status order = R_CREDITED"
      "Decimal_IsPositive (rq_amount r) = Inr True" "placeRefund r order s = Inr (q, s')"
proof -
  from assms obtain order where o: "rechargeById (rq_recharge r) s = Some order" by (auto simp: CreateRefundOrder_def)
  show thesis
  proof (cases "find (\<lambda>q. rf_recharge q = ro_id order \<and> rf_key q = rq_key r) (refund_orders s)")
    case None
    then show thesis using assms o placed by (auto simp: CreateRefundOrder_def split: if_splits)
  next
    case (Some p)
    then show thesis using assms o find_SomeD [OF Some] replay [of order] by (auto simp: CreateRefundOrder_def split: if_splits)
  qed
qed

lemma cash_CreateRefundOrder: "triple (cash_at x) (CreateRefundOrder r) (\<lambda>_. cash_at x)"
proof (rule tripleI)
  fix s res s'
  assume c: "cash_at x s" and m: "CreateRefundOrder r s = Inr (res, s')"
  obtain q b where res: "res = (q, b)" by (cases res)
  from m [unfolded res] show "cash_at x s'"
  proof (cases rule: CreateRefundOrder_Inr)
    case (placed order)
    then show ?thesis using c rechargeById_SomeD [OF placed(2)] tripleD [OF cash_placeRefund _ placed(5), of x] by (simp add: cash_order_def)
  qed (use c in simp)
qed

lemma cash_MarkRefundPending: "triple (cash_at x) (MarkRefundPending rid pno) (\<lambda>_. cash_at x)"
  unfolding MarkRefundPending_def Let_def
  apply (rule cash_bind, rule frame)
  apply (rule cash_then, rule frame)
  apply (rule triple_thenT, rule cash_updateRefund [where y = x], simp, simp, simp, simp add: pendingRefund_def, simp)
  apply (rule cash_keeps, rule frame)
  done

text \<open>The writes that close a refund: its hold, then its row.\<close>

definition refund_open :: "RefundOrder \<Rightarrow> RechargeOrder \<Rightarrow> db \<Rightarrow> bool" where
  "refund_open refund order s \<longleftrightarrow> cash_at None s \<and> refund \<in> set (refund_orders s) \<and> pendingRefund refund \<and>
     order \<in> set (recharge_orders s) \<and> ro_id order = rf_recharge refund"

lemma refund_open_keeps: "keeps cash_tables m \<Longrightarrow> triple (refund_open refund order) m (\<lambda>_. refund_open refund order)"
  by (rule triple_keeps) (auto simp: refund_open_def owner_tables_def intro: cash_at_frame)

lemma refund_open_settle:
  "triple (refund_open refund order) (settleRefundCashTx (rf_id refund) (ro_wallet order) tx ok) (\<lambda>_. cash_at (Some (rf_id refund)))"
  by (rule triple_pre, rule cash_settleRefundCashTx) (auto simp: refund_open_def)

lemma cash_completeRefundWrites: "triple (refund_open refund order) (completeRefundWrites refund order pno) (\<lambda>_. cash_at None)"
  unfolding completeRefundWrites_def
  apply (rule triple_bindT, rule refund_open_keeps, rule cash_frame)
  apply (rule triple_bindT, rule refund_open_keeps, rule cash_frame)
  apply (rule triple_bindT, rule refund_open_keeps, rule cash_frame)
  apply (rule triple_bindT, rule refund_open_keeps, rule frame)
  apply (rule triple_thenT, rule refund_open_keeps, rule cash_frame)
  apply (rule triple_thenT, rule refund_open_settle)
  apply (rule cash_then, rule frame)
  apply (rule triple_thenT, rule cash_updateRefund [where y = None], simp, simp, simp, simp add: pendingRefund_def, simp add: pendingRefund_def)
  apply (rule triple_thenT, rule cash_updateRecharge, simp, simp)
  apply (rule triple_thenT, rule cash_when, rule cash_updateRecharge, simp, simp)
  apply (rule cash_keeps, intro frame cash_frame cash_payment_frame)
  done

lemma CompleteRefund_Inr:
  assumes "CompleteRefund rid pno s = Inr ((r, replayed), s')"
  obtains (replay) "replayed" "s' = s" "refundById rid s = Some r" "rf_status r = RF_SUCCEEDED"
  | (completed) refund order where "\<not> replayed" "refundById rid s = Some refund" "pendingRefund refund"
      "rechargeById (rf_recharge refund) s = Some order" "ro_status order = R_REFUND_PENDING"
      "completeRefundWrites refund order pno s = Inr ((), s')" "refundById (rf_id refund) s' = Some r"
proof -
  from assms obtain refund where "refundById rid s = Some refund" by (auto simp: CompleteRefund_def)
  then show thesis using assms replay completed [of refund]
    by (cases "rf_status refund = RF_SUCCEEDED") (auto simp: CompleteRefund_def pendingRefund_def)
qed

lemma cash_CompleteRefund: "triple (cash_at None) (CompleteRefund rid pno) (\<lambda>_. cash_at None)"
proof (rule tripleI)
  fix s res s'
  assume c: "cash_at None s" and m: "CompleteRefund rid pno s = Inr (res, s')"
  obtain q b where res: "res = (q, b)" by (cases res)
  from m [unfolded res] show "cash_at None s'"
  proof (cases rule: CompleteRefund_Inr)
    case (completed refund order)
    have "refund_open refund order s"
      using c completed(3) refundById_SomeD [OF completed(2)] rechargeById_SomeD [OF completed(4)] by (simp add: refund_open_def)
    then show ?thesis by (rule tripleD [OF cash_completeRefundWrites _ completed(6)])
  qed (use c in simp)
qed

lemma FailRefund_Inr:
  assumes "FailRefund rid code s = Inr (u, s')"
  obtains (replay) refund where "s' = s" "refundById rid s = Some refund" "rf_status refund = RF_FAILED" "rf_failure refund = Some (TrimSpace code)"
  | (failed) refund order t1 t2 t3 t4 where "refundById rid s = Some refund" "pendingRefund refund" "rechargeById (rf_recharge refund) s = Some order"
      "settleRefundCashTx (rf_id refund) (ro_wallet order) [] False s = Inr ((), t1)"
      "updateRefund (\<lambda>r. rf_id r = rf_id refund) (\<lambda>r. r\<lparr>rf_status := RF_FAILED, rf_failure := Some (TrimSpace code)\<rparr>) t1 = Inr ((), t2)"
      "updateRecharge (\<lambda>r. ro_id r = rf_recharge refund \<and> ro_status r = R_REFUND_PENDING) (\<lambda>r. r\<lparr>ro_status := R_CREDITED\<rparr>) t2 = Inr ((), t3)"
      "updateApplications (rf_id refund) AP_FAILED t3 = Inr ((), t4)"
      "writeAuditTx (rf_created_by refund) ''payment.refund_failed'' (rf_id refund) t4 = Inr ((), s')"
proof -
  from assms obtain refund where r: "refundById rid s = Some refund" by (auto simp: FailRefund_def Let_def)
  show thesis
  proof (cases "rf_status refund = RF_FAILED")
    case True
    then show thesis using assms r replay by (auto simp: FailRefund_def Let_def)
  next
    case False
    then show thesis using assms r failed [of refund] by (auto simp: FailRefund_def Let_def pendingRefund_def)
  qed
qed

lemma cash_FailRefund: "triple (cash_at None) (FailRefund rid code) (\<lambda>_. cash_at None)"
proof (rule tripleI)
  fix s u s'
  assume c: "cash_at None s" and m: "FailRefund rid code s = Inr (u, s')"
  from m show "cash_at None s'"
  proof (cases rule: FailRefund_Inr)
    case (failed refund order t1 t2 t3 t4)
    have "refund_open refund order s"
      using c failed(2) refundById_SomeD [OF failed(1)] rechargeById_SomeD [OF failed(3)] by (simp add: refund_open_def)
    note c1 = tripleD [OF refund_open_settle this failed(4)]
    have "cash_at None t2" by (rule tripleD [OF cash_updateRefund c1 failed(5)]) (simp_all add: pendingRefund_def)
    then have "cash_at None t3" by (rule tripleD [OF cash_updateRecharge _ failed(6), rotated 2]) simp_all
    moreover have "cash_tables s' = cash_tables t3" using keepsD [OF cash_payment_frame(5) failed(7)] keepsD [OF cash_frame(2) failed(8)] by simp
    ultimately show ?thesis using cash_at_frame by blast
  qed (use c in simp)
qed

end
