(* ===== verification/Reconcile.thy ===== *)
theory Reconcile
  imports CashBooks
begin

text \<open>
  The daily financial reconciliation (\<^verbatim>\<open>internal/store/reconciliation.go\<close>): a run per business date,
  the checks that compare two records of the same money, the queue of cases the differences open, and
  the resolution of a case, by accepting it or by reversing a journal.

  A check is a query that returns candidates. \<open>rechargeToWallet\<close> and \<open>usageToUserCharge\<close> are
  translated; the queries over tables that are not modelled (provider statements, subscriptions,
  suppliers, request logs, payment channel evidence) are entries of the parameter \<open>checks\<close> of
  \<open>RunFinancialReconciliation\<close>.
\<close>

section \<open>Business dates\<close>

text \<open>\<open>time.Format("2006-01-02")\<close> of a day number in UTC.\<close>

definition civilDate :: "int \<Rightarrow> int \<times> int \<times> int" where
  "civilDate day =
     (let z = day + 719468; era = z div 146097; doe = z - era * 146097;
          yoe = (doe - doe div 1460 + doe div 36524 - doe div 146096) div 365;
          doy = doe - (365 * yoe + yoe div 4 - yoe div 100); mp = (5 * doy + 2) div 153;
          m = (if mp < 10 then mp + 3 else mp - 9) in
      (yoe + era * 400 + (if m \<le> 2 then 1 else 0), m, doy - (153 * mp + 2) div 5 + 1))"

definition isoDate :: "int \<Rightarrow> string" where
  "isoDate day = (let (y, m, d) = civilDate day in
     zero_pad 4 (digits_of_nat (nat y)) @ ''-'' @ zero_pad 2 (digits_of_nat (nat m)) @ ''-'' @ zero_pad 2 (digits_of_nat (nat d)))"

definition onDay :: "int \<Rightarrow> int \<Rightarrow> bool" where
  "onDay day t \<longleftrightarrow> day * 86400 \<le> t \<and> t < (day + 1) * 86400"

section \<open>Candidates\<close>

record reconciliationCandidate =
  cd_key :: string
  cd_matched :: bool
  cd_classification :: string
  cd_severity :: string
  cd_org :: "string option"
  cd_provider :: "string option"
  cd_recharge :: "string option"
  cd_operation :: "string option"
  cd_invoice :: "string option"
  cd_expected :: "money option"
  cd_actual :: "money option"
  cd_currency :: "string option"

type_synonym check_query = "int \<Rightarrow> db \<Rightarrow> store_error + reconciliationCandidate list"

fun mapE :: "('a \<Rightarrow> 'e + 'b) \<Rightarrow> 'a list \<Rightarrow> 'e + 'b list" where
  "mapE f [] = Inr []"
| "mapE f (x # xs) = (case f x of Inl e \<Rightarrow> Inl e | Inr y \<Rightarrow> (case mapE f xs of Inl e \<Rightarrow> Inl e | Inr ys \<Rightarrow> Inr (y # ys)))"

text \<open>\<open>rechargeToWalletSQL\<close>. The comparison with a null \<open>transaction.recharge_order_id\<close> is unknown, and an unknown
  result cannot be scanned into a \<open>bool\<close>.\<close>

definition rechargeMatched :: "db \<Rightarrow> RechargeOrder \<Rightarrow> bool option" where
  "rechargeMatched s r =
     (case (ro_tx r, ro_journal r) of
        (Some tid, Some jid) \<Rightarrow>
          (case (find (\<lambda>t. t_id t = tid) (wallet_transactions s), find (\<lambda>j. j_id j = jid) (journals s)) of
             (Some t, Some j) \<Rightarrow>
               let rest = (t_amount t = ro_amount r \<and> j_posted j \<and> sideTotal jid DEBIT (entries s) = sideTotal jid CREDIT (entries s)) in
               (case t_recharge t of Some x \<Rightarrow> Some (x = ro_id r \<and> rest) | None \<Rightarrow> if rest then None else Some False)
           | _ \<Rightarrow> None)
      | _ \<Rightarrow> Some False)"

definition rechargeClass :: "db \<Rightarrow> RechargeOrder \<Rightarrow> string" where
  "rechargeClass s r =
     (if ro_tx r = None \<or> ro_journal r = None then ''WALLET_LINK_MISSING''
      else case find (\<lambda>t. Some (t_id t) = ro_tx r) (wallet_transactions s) of
             Some t \<Rightarrow> if t_amount t \<noteq> ro_amount r then ''WALLET_AMOUNT_MISMATCH'' else ''LEDGER_UNBALANCED''
           | None \<Rightarrow> ''LEDGER_UNBALANCED'')"

definition rechargeCandidate :: "db \<Rightarrow> RechargeOrder \<Rightarrow> store_error + reconciliationCandidate" where
  "rechargeCandidate s r =
     (case rechargeMatched s r of
        None \<Rightarrow> Inl (ErrInvalid ''cannot scan NULL into *bool'')
      | Some m \<Rightarrow> Inr \<lparr>cd_key = ro_id r, cd_matched = m, cd_classification = rechargeClass s r, cd_severity = ''CRITICAL'',
          cd_org = Some (ro_org r), cd_provider = None, cd_recharge = Some (ro_id r), cd_operation = None, cd_invoice = None,
          cd_expected = Some (ro_amount r),
          cd_actual = map_option t_amount (find (\<lambda>t. Some (t_id t) = ro_tx r) (wallet_transactions s)), cd_currency = Some (ro_currency r)\<rparr>)"

definition rechargeToWallet :: check_query where
  "rechargeToWallet day s = mapE (rechargeCandidate s)
     (filter (\<lambda>r. (case ro_credited_at r of Some t \<Rightarrow> onDay day t | None \<Rightarrow> False) \<and> ro_status r \<in> creditedStatuses) (recharge_orders s))"

text \<open>\<open>usageToUserChargeSQL\<close>: the usage record against the transactions of its funding operation.\<close>

definition operationOf :: "db \<Rightarrow> UsageRecord \<Rightarrow> FundingOperation option" where
  "operationOf s u = Option.bind (u_operation u) (\<lambda>oid. opById oid s)"

definition chargesOf :: "db \<Rightarrow> FundingOperation option \<Rightarrow> WalletTransaction list" where
  "chargesOf s q = (case q of None \<Rightarrow> [] | Some q \<Rightarrow> filter (\<lambda>t. t_operation t = Some (o_id q)) (wallet_transactions s))"

definition txPosted :: "db \<Rightarrow> WalletTransaction \<Rightarrow> bool" where
  "txPosted s t = (case t_journal t of None \<Rightarrow> False | Some jid \<Rightarrow> journalPosted s jid)"

definition chargedAmount :: "WalletTransaction list \<Rightarrow> money" where
  "chargedAmount ts = - sum_list (map t_amount ts)"

definition usageMatched :: "db \<Rightarrow> UsageRecord \<Rightarrow> bool" where
  "usageMatched s u =
     (let ts = chargesOf s (operationOf s u) in
      case operationOf s u of
        None \<Rightarrow> u_status u = U_WAIVED \<and> u_amount u = 0 \<and> ts = []
      | Some q \<Rightarrow> if u_status u = U_WAIVED then o_status q \<in> {F_RELEASED, F_FAILED}
                  else ts \<noteq> [] \<and> list_all (txPosted s) ts \<and> chargedAmount ts = u_amount u)"

definition usageClass :: "db \<Rightarrow> UsageRecord \<Rightarrow> string" where
  "usageClass s u =
     (let ts = chargesOf s (operationOf s u) in
      if operationOf s u = None then ''FUNDING_OPERATION_MISSING''
      else if u_status u \<noteq> U_WAIVED \<and> ts = [] then ''USER_CHARGE_MISSING''
      else if u_status u \<noteq> U_WAIVED \<and> chargedAmount ts \<noteq> u_amount u then ''USER_CHARGE_AMOUNT_MISMATCH''
      else ''USER_CHARGE_STATUS_MISMATCH'')"

definition usageCandidate :: "db \<Rightarrow> UsageRecord \<Rightarrow> reconciliationCandidate" where
  "usageCandidate s u =
     \<lparr>cd_key = u_request u, cd_matched = usageMatched s u, cd_classification = usageClass s u, cd_severity = ''CRITICAL'',
      cd_org = Some (u_org u), cd_provider = u_provider u, cd_recharge = None, cd_operation = u_operation u, cd_invoice = None,
      cd_expected = Some (u_amount u), cd_actual = Some (chargedAmount (chargesOf s (operationOf s u))), cd_currency = Some (u_currency u)\<rparr>"

definition usageToUserCharge :: check_query where
  "usageToUserCharge day s = Inr (map (usageCandidate s) (filter (\<lambda>u. onDay day (u_created u)) (usage_records s)))"

section \<open>A check\<close>

definition caseChecks :: "ReconciliationCase \<Rightarrow> bool" where
  "caseChecks c \<longleftrightarrow> cs_check c \<in> {''PAYMENT_TO_RECHARGE'', ''RECHARGE_TO_WALLET'', ''USAGE_TO_USER_CHARGE'', ''USAGE_TO_PROVIDER_USAGE'',
       ''PROVIDER_USAGE_TO_BILL'', ''SUBSCRIPTION_TO_STATE'', ''SUPPLIER_PAYABLE_TO_USAGE'', ''SUPPLIER_BILL_TO_PAYABLE'',
       ''SUPPLIER_PAYOUT_TO_LEDGER''} \<and> cs_severity c \<in> {''LOW'', ''MEDIUM'', ''HIGH'', ''CRITICAL''} \<and>
     (case cs_currency c of None \<Rightarrow> True | Some x \<Rightarrow> currencyPattern x)"

text \<open>\<open>INSERT \<dots> ON CONFLICT(run_id,observation_key) DO NOTHING\<close>\<close>

definition insertObservation :: "ReconciliationObservation \<Rightarrow> unit dbtx" where
  "insertObservation ob = thenT uuidT (modifyT (\<lambda>s.
     if list_ex (\<lambda>p. ob_run p = ob_run ob \<and> ob_key p = ob_key ob) (recon_observations s) then s
     else s\<lparr>recon_observations := recon_observations s @ [ob]\<rparr>))"

definition seenAgain :: "ReconciliationCase \<Rightarrow> ReconciliationCase \<Rightarrow> ReconciliationCase" where
  "seenAgain new c = c\<lparr>cs_classification := cs_classification new, cs_severity := cs_severity new, cs_last_run := cs_last_run new,
     cs_occurrences := cs_occurrences c + 1, cs_expected := cs_expected new, cs_actual := cs_actual new, cs_currency := cs_currency new,
     cs_status := (if cs_status c = CASE_RESOLVED then CASE_OPEN else cs_status c)\<rparr>"

text \<open>\<open>INSERT \<dots> ON CONFLICT(case_key) DO UPDATE \<dots> RETURNING id\<close>\<close>

definition upsertCase :: "ReconciliationCase \<Rightarrow> string dbtx" where
  "upsertCase new =
     thenT (unlessT (caseChecks new) (ErrConstraint ''financial_reconciliation_case_check''))
    (bindT (getT (\<lambda>s. find (\<lambda>c. cs_key c = cs_key new) (recon_cases s))) (\<lambda>existing. case existing of
       None \<Rightarrow> thenT (checkT (\<lambda>s. unused (\<lambda>c. cs_id c = cs_id new) (recon_cases s)) (ErrConstraint ''financial_reconciliation_case_pkey''))
              (thenT (modifyT (\<lambda>s. s\<lparr>recon_cases := recon_cases s @ [new]\<rparr>)) (returnT (cs_id new)))
     | Some c \<Rightarrow> thenT (modifyT (\<lambda>s. s\<lparr>recon_cases := update_where (\<lambda>c. cs_key c = cs_key new) (seenAgain new) (recon_cases s)\<rparr>))
              (returnT (cs_id c))))"

definition candidateCase :: "int \<Rightarrow> string \<Rightarrow> string \<Rightarrow> string \<Rightarrow> reconciliationCandidate \<Rightarrow> ReconciliationCase" where
  "candidateCase now cid runID checkType v =
     \<lparr>cs_id = cid, cs_key = checkType @ '':'' @ cd_key v, cs_check = checkType, cs_classification = cd_classification v,
      cs_severity = cd_severity v, cs_status = CASE_OPEN, cs_org = cd_org v, cs_provider = cd_provider v, cs_recharge = cd_recharge v,
      cs_operation = cd_operation v, cs_invoice = cd_invoice v, cs_expected = cd_expected v, cs_actual = cd_actual v,
      cs_currency = cd_currency v, cs_first_run = runID, cs_last_run = runID, cs_occurrences = 1, cs_handled_by = None, cs_reason = [], cs_created = now\<rparr>"

definition processCandidate :: "string \<Rightarrow> string \<Rightarrow> reconciliationCandidate \<Rightarrow> unit dbtx" where
  "processCandidate runID checkType v =
     (let caseKey = checkType @ '':'' @ cd_key v in
      if cd_matched v then
        thenT (modifyT (\<lambda>s. s\<lparr>recon_cases := update_where (\<lambda>c. cs_key c = caseKey \<and> cs_status c \<in> {CASE_OPEN, CASE_IN_REVIEW})
                 (\<lambda>c. c\<lparr>cs_last_run := runID\<rparr>) (recon_cases s)\<rparr>))
              (insertObservation \<lparr>ob_run = runID, ob_key = caseKey, ob_check = checkType, ob_matched = True, ob_case = None\<rparr>)
      else
        bindT uuidT (\<lambda>cid. bindT (getT clk) (\<lambda>now.
        bindT (upsertCase (candidateCase now cid runID checkType v)) (\<lambda>caseID.
          insertObservation \<lparr>ob_run = runID, ob_key = caseKey, ob_check = checkType, ob_matched = False, ob_case = Some caseID\<rparr>))))"

primrec processCandidates :: "string \<Rightarrow> string \<Rightarrow> reconciliationCandidate list \<Rightarrow> nat \<Rightarrow> nat \<Rightarrow> (nat \<times> nat) dbtx" where
  "processCandidates runID checkType [] matched differences = returnT (matched, differences)"
| "processCandidates runID checkType (v # vs) matched differences =
     thenT (processCandidate runID checkType v)
           (if cd_matched v then processCandidates runID checkType vs (matched + 1) differences
            else processCandidates runID checkType vs matched (differences + 1))"

definition processReconciliationQuery :: "string \<Rightarrow> string \<Rightarrow> check_query \<Rightarrow> int \<Rightarrow> (nat \<times> nat) dbtx" where
  "processReconciliationQuery runID checkType query day =
     bindT (getT (query day)) (\<lambda>res. bindT (liftT res) (\<lambda>candidates. processCandidates runID checkType candidates 0 0))"

section \<open>A run\<close>

text \<open>The run of a date: inserted, or the one there is; a failed run is claimed again, its attempt kept.\<close>

definition claimRun :: "string \<Rightarrow> string \<Rightarrow> string option \<Rightarrow> (ReconciliationRun \<times> bool) dbtx" where
  "claimRun date trigger actor =
     bindT uuidT (\<lambda>runID. bindT (getT clk) (\<lambda>now.
     bindT (getT (\<lambda>s. find (\<lambda>r. rn_run_key r = ''daily:'' @ date) (recon_runs s))) (\<lambda>existing. case existing of
       None \<Rightarrow>
         (let run = \<lparr>rn_run_id = runID, rn_run_key = ''daily:'' @ date, rn_run_date = date, rn_run_status = RUN_RUNNING,
                     rn_run_trigger = trigger, rn_run_started_by = actor, rn_run_started = now, rn_run_completed = None,
                     rn_run_error = [], rn_run_previous = 0, rn_run_matched = 0, rn_run_differences = 0\<rparr> in
          thenT (checkT (\<lambda>s. unused (\<lambda>r. rn_run_id r = runID) (recon_runs s)) (ErrConstraint ''financial_reconciliation_run_pkey''))
         (thenT (modifyT (\<lambda>s. s\<lparr>recon_runs := recon_runs s @ [run]\<rparr>)) (returnT (run, False))))
     | Some run \<Rightarrow>
         if rn_run_status run = RUN_COMPLETED \<or> rn_run_status run = RUN_RUNNING then returnT (run, True)
         else
          (let retry = (\<lambda>r. r\<lparr>rn_run_status := RUN_RUNNING, rn_run_completed := None, rn_run_error := [],
                          rn_run_previous := rn_run_previous r + 1, rn_run_matched := 0, rn_run_differences := 0,
                          rn_run_trigger := trigger, rn_run_started_by := actor, rn_run_started := now\<rparr>) in
           thenT (modifyT (\<lambda>s. s\<lparr>recon_runs := update_where (\<lambda>r. rn_run_id r = rn_run_id run \<and> rn_run_status r = RUN_FAILED) retry (recon_runs s)\<rparr>))
                 (returnT (retry run, False))))))"

definition failFinancialReconciliationRun :: "string \<Rightarrow> string \<Rightarrow> unit dbtx" where
  "failFinancialReconciliationRun runID errorCode =
     (let p = (\<lambda>r. rn_run_id r = runID \<and> rn_run_status r = RUN_RUNNING) in
      bindT (getT (\<lambda>s. rows_affected p (recon_runs s))) (\<lambda>n.
      thenT (modifyT (\<lambda>s. s\<lparr>recon_runs := update_where p (\<lambda>r. r\<lparr>rn_run_status := RUN_FAILED, rn_run_completed := Some (clk s),
               rn_run_error := errorCode\<rparr>) (recon_runs s)\<rparr>))
            (unlessT (n = 1) ErrFinanceState)))"

text \<open>A transaction whose errors carry the code the failed run is marked with.\<close>

definition tagT :: "string \<Rightarrow> 'a dbtx \<Rightarrow> (db, string \<times> store_error, 'a) tx" where
  "tagT code m s = (case m s of Inl e \<Rightarrow> Inl (code, e) | Inr r \<Rightarrow> Inr r)"

primrec runChecks :: "string \<Rightarrow> int \<Rightarrow> (string \<times> check_query) list \<Rightarrow> nat \<Rightarrow> nat \<Rightarrow> (db, string \<times> store_error, nat \<times> nat) tx" where
  "runChecks runID day [] matched differences = returnT (matched, differences)"
| "runChecks runID day (item # items) matched differences =
     bindT (tagT (''check_failed:'' @ ToLower (fst item)) (processReconciliationQuery runID (fst item) (snd item) day)) (\<lambda>(m, d).
       runChecks runID day items (matched + m) (differences + d))"

definition completeRun :: "string \<Rightarrow> nat \<Rightarrow> nat \<Rightarrow> ReconciliationRun dbtx" where
  "completeRun runID matched differences =
     bindT (rowT ErrNoRows (\<lambda>s. find (\<lambda>r. rn_run_id r = runID \<and> rn_run_status r = RUN_RUNNING) (recon_runs s))) (\<lambda>run.
     bindT (getT clk) (\<lambda>now.
     let done = (\<lambda>r. r\<lparr>rn_run_status := RUN_COMPLETED, rn_run_completed := Some now, rn_run_matched := matched, rn_run_differences := differences\<rparr>) in
     thenT (modifyT (\<lambda>s. s\<lparr>recon_runs := update_where (\<lambda>r. rn_run_id r = runID \<and> rn_run_status r = RUN_RUNNING) done (recon_runs s)\<rparr>))
           (returnT (done run))))"

definition snapshotTx :: "(string \<times> check_query) list \<Rightarrow> ReconciliationRun \<Rightarrow> int \<Rightarrow> string option \<Rightarrow> (db, string \<times> store_error, ReconciliationRun) tx" where
  "snapshotTx checks run day actor =
     bindT (runChecks (rn_run_id run) day checks 0 0) (\<lambda>(matched, differences).
     bindT (tagT ''run_completion_failed'' (completeRun (rn_run_id run) matched differences)) (\<lambda>done.
     thenT (tagT ''completion_audit_failed'' (writeAuditTx actor ''finance.reconciliation_completed'' (rn_run_id run)))
           (returnT done)))"

text \<open>The run row is committed first; a failed check is recorded in a transaction of its own.\<close>

definition RunFinancialReconciliation ::
  "(string \<times> check_query) list \<Rightarrow> int \<Rightarrow> string \<Rightarrow> string option \<Rightarrow> db \<Rightarrow> (store_error + ReconciliationRun \<times> bool) \<times> db" where
  "RunFinancialReconciliation checks businessDate trigger actor s =
     (let day = businessDate div 86400; trigger = ToUpper (TrimSpace trigger) in
      if trigger \<notin> {''SCHEDULED'', ''MANUAL'', ''TEST''} then (Inl (ErrInvalid ''invalid reconciliation trigger''), s)
      else case commit (claimRun (isoDate day) trigger actor) s of
             (Inl e, s1) \<Rightarrow> (Inl e, s1)
           | (Inr (run, True), s1) \<Rightarrow> (Inr (run, True), s1)
           | (Inr (run, False), s1) \<Rightarrow>
               (case snapshotTx checks run day actor s1 of
                  Inl (code, e) \<Rightarrow> (Inl e, snd (commit (failFinancialReconciliationRun (rn_run_id run) code) s1))
                | Inr (done, s2) \<Rightarrow> (Inr (done, False), s2)))"

section \<open>Cases and their resolution\<close>

definition severityRank :: "string \<Rightarrow> nat" where
  "severityRank x = (if x = ''CRITICAL'' then 1 else if x = ''HIGH'' then 2 else if x = ''MEDIUM'' then 3 else 4)"

definition caseById :: "string \<Rightarrow> db \<Rightarrow> ReconciliationCase option" where
  "caseById cid s = find (\<lambda>c. cs_id c = cid) (recon_cases s)"

definition firstTransaction :: "string \<Rightarrow> db \<Rightarrow> WalletTransaction option" where
  "firstTransaction jid s =
     (case sort_key (\<lambda>t. (t_created t, t_id t)) (filter (\<lambda>t. t_journal t = Some jid) (wallet_transactions s)) of
        [] \<Rightarrow> None | t # _ \<Rightarrow> Some t)"

text \<open>The journal must belong to what the case is about.\<close>

definition reversalAllowed :: "ReconciliationCase \<Rightarrow> Journal \<Rightarrow> unit dbtx" where
  "reversalAllowed c journal =
     thenT (unlessT (j_posted journal) ErrFinanceState)
    (thenT (checkT (\<lambda>s. unused (\<lambda>k. j_reversal_of k = Some (j_id journal)) (journals s)) ErrFinanceState)
    (thenT (case (cs_org c, j_wallet journal) of
              (Some org, Some wid) \<Rightarrow> bindT (rowT ErrFinanceState (walletById wid)) (\<lambda>w. unlessT (w_org w = org) ErrFinanceState)
            | _ \<Rightarrow> returnT ())
    (thenT (unlessT (\<not> (cs_org c \<noteq> None \<and> j_wallet journal = None \<and> cs_invoice c = None)) ErrFinanceState)
    (thenT (unlessT (cs_recharge c = None \<or> j_recharge journal = cs_recharge c) ErrFinanceState)
    (thenT (checkT (\<lambda>s. cs_operation c = None \<or>
              list_ex (\<lambda>t. t_journal t = Some (j_id journal) \<and> t_operation t = cs_operation c) (wallet_transactions s)) ErrFinanceState)
           (unlessT (cs_invoice c = None \<or> j_invoice journal = cs_invoice c) ErrFinanceState))))))"

definition otherSide :: "EntrySide \<Rightarrow> EntrySide" where
  "otherSide d = (if d = CREDIT then DEBIT else CREDIT)"

definition mirrorEntry :: "string \<Rightarrow> string \<Rightarrow> JournalEntry \<Rightarrow> unit dbtx" where
  "mirrorEntry reversalID currency e =
     bindT uuidT (\<lambda>eid. insertEntry \<lparr>e_id = eid, e_journal = reversalID, e_account = e_account e, e_currency = currency,
       e_side = otherSide (e_side e), e_amount = e_amount e\<rparr>)"

text \<open>The mirror image of a journal, posted as a journal of its own.\<close>

definition postMirror :: "ReconciliationCase \<Rightarrow> Journal \<Rightarrow> string \<Rightarrow> string \<Rightarrow> string dbtx" where
  "postMirror c journal idempotencyKey reason =
     bindT uuidT (\<lambda>reversalID. bindT (getT clk) (\<lambda>now.
     thenT (insertJournal \<lparr>j_id = reversalID, j_wallet = j_wallet journal, j_type = J_RECONCILIATION_REVERSAL,
              j_key = ''reconciliation:'' @ cs_id c @ '':'' @ idempotencyKey, j_currency = j_currency journal, j_posted = False,
              j_reference = Some reason, j_recharge = None, j_refund = None, j_invoice = None, j_reversal_of = Some (j_id journal),
              j_case = Some (cs_id c), j_created = now\<rparr>)
    (bindT (getT (\<lambda>s. sort_key e_id (filter (\<lambda>e. e_journal e = j_id journal) (entries s)))) (\<lambda>lines.
     thenT (unlessT (2 \<le> length lines) ErrFinanceState)
    (thenT (forT lines (mirrorEntry reversalID (j_currency journal)))
    (thenT (postDraft reversalID) (returnT reversalID)))))))"

definition sideDelta :: "JournalEntry \<Rightarrow> money" where
  "sideDelta e = (if e_side e = CREDIT then e_amount e else - e_amount e)"

definition journalDelta :: "db \<Rightarrow> string \<Rightarrow> string \<Rightarrow> money" where
  "journalDelta s jid key = column_sum (\<lambda>e. e_journal e = jid \<and> accountKey s e = Some key) sideDelta (entries s)"

text \<open>The change of the available balance is a transaction, and is attributed to cash lots.\<close>

definition attributeReversal :: "ReconciliationCase \<Rightarrow> string \<Rightarrow> string \<Rightarrow> string \<Rightarrow> string \<Rightarrow> string \<Rightarrow> money \<Rightarrow> money \<Rightarrow> unit dbtx" where
  "attributeReversal c walletID sourceJournalID reversalID idempotencyKey reason balanceAfter availableDelta =
     bindT uuidT (\<lambda>transactionID. bindT (getT clk) (\<lambda>now.
     thenT (insertWalletTransaction \<lparr>t_id = transactionID, t_wallet = walletID, t_type = ADJUSTMENT, t_amount = availableDelta,
              t_balance_after = balanceAfter, t_key = Some (''reconciliation:'' @ cs_id c @ '':'' @ idempotencyKey),
              t_reference = Some reason, t_journal = Some reversalID, t_operation = None, t_recharge = None, t_refund = None, t_created = now\<rparr>)
           (if availableDelta < 0 then allocateCashDebitTx walletID transactionID \<bar>availableDelta\<bar>
            else bindT (rowT ErrFinanceState (firstTransaction sourceJournalID)) (\<lambda>src.
                 restoreCashAllocationTx walletID (t_id src) transactionID availableDelta))))"

definition reversedWallet :: "money \<Rightarrow> money \<Rightarrow> Wallet \<Rightarrow> Wallet" where
  "reversedWallet availableDelta reservedDelta v = v\<lparr>w_available := w_available v + availableDelta,
     w_reserved := w_reserved v + reservedDelta, w_version := w_version v + 1\<rparr>"

text \<open>The wallet follows the mirrored entries.\<close>

definition applyReversal :: "ReconciliationCase \<Rightarrow> string \<Rightarrow> string \<Rightarrow> string \<Rightarrow> string \<Rightarrow> string \<Rightarrow> unit dbtx" where
  "applyReversal c walletID sourceJournalID reversalID idempotencyKey reason =
     bindT (getT (\<lambda>s. journalDelta s reversalID (walletAccountKey walletID ''available''))) (\<lambda>availableDelta.
     bindT (getT (\<lambda>s. journalDelta s reversalID (walletAccountKey walletID ''reserved''))) (\<lambda>reservedDelta.
     thenT (checkT (\<lambda>s. list_ex (\<lambda>w. w_id w = walletID \<and> 0 \<le> w_reserved w + reservedDelta) (wallets s)) ErrFinanceState)
    (bindT (updateWalletReturning walletID (reversedWallet availableDelta reservedDelta)) (\<lambda>w.
     thenT (unlessT (money_in_range availableDelta) Panic)
           (whenT (availableDelta \<noteq> 0)
              (attributeReversal c walletID sourceJournalID reversalID idempotencyKey reason (w_available w) availableDelta))))))"

definition reverseJournalForCase :: "ReconciliationCase \<Rightarrow> string \<Rightarrow> string \<Rightarrow> string \<Rightarrow> string dbtx" where
  "reverseJournalForCase c sourceJournalID idempotencyKey reason =
     bindT (rowT ErrNotFound (\<lambda>s. find (\<lambda>j. j_id j = sourceJournalID) (journals s))) (\<lambda>journal.
     thenT (reversalAllowed c journal)
    (bindT (postMirror c journal idempotencyKey reason) (\<lambda>reversalID.
     thenT (case j_wallet journal of None \<Rightarrow> returnT () | Some wid \<Rightarrow> applyReversal c wid sourceJournalID reversalID idempotencyKey reason)
           (returnT reversalID))))"

definition insertResolution :: "ReconciliationResolution \<Rightarrow> unit dbtx" where
  "insertResolution r =
     thenT (checkT (\<lambda>s. unused (\<lambda>q. rs_case q = rs_case r \<and> rs_key q = rs_key r) (recon_resolutions s))
              (ErrConstraint ''financial_reconciliation_resolution_reconciliation_case_id_idempotency_key_key''))
    (thenT (checkT (\<lambda>s. rs_reversal r = None \<or> unused (\<lambda>q. rs_reversal q = rs_reversal r) (recon_resolutions s))
              (ErrConstraint ''financial_reconciliation_resolution_reversal_journal_id_key''))
           (modifyT (\<lambda>s. s\<lparr>recon_resolutions := recon_resolutions s @ [r]\<rparr>)))"

definition setCaseStatus :: "string \<Rightarrow> CaseStatus \<Rightarrow> string \<Rightarrow> string \<Rightarrow> unit dbtx" where
  "setCaseStatus caseID status actor reason = modifyT (\<lambda>s. s\<lparr>recon_cases := update_where (\<lambda>c. cs_id c = caseID)
     (\<lambda>c. c\<lparr>cs_status := status, cs_handled_by := Some actor, cs_reason := reason\<rparr>) (recon_cases s)\<rparr>)"

definition resolveCase :: "ReconciliationCase \<Rightarrow> string \<Rightarrow> string \<Rightarrow> string \<Rightarrow> string \<Rightarrow> string \<Rightarrow> unit dbtx" where
  "resolveCase c action sourceJournalID reason idempotencyKey actor =
     thenT uuidT
    (thenT (if action = ''REVERSE_JOURNAL'' then
              bindT (reverseJournalForCase c sourceJournalID idempotencyKey reason) (\<lambda>reversalID.
                insertResolution \<lparr>rs_case = cs_id c, rs_action = action, rs_source = Some sourceJournalID, rs_reversal = Some reversalID,
                  rs_reason = reason, rs_key = idempotencyKey, rs_by = actor\<rparr>)
            else insertResolution \<lparr>rs_case = cs_id c, rs_action = action, rs_source = None, rs_reversal = None,
                  rs_reason = reason, rs_key = idempotencyKey, rs_by = actor\<rparr>)
    (thenT (setCaseStatus (cs_id c) (if action = ''ACCEPT_EXCEPTION'' then CASE_ACCEPTED else CASE_RESOLVED) actor reason)
           (writeAuditTx (Some actor) (''finance.reconciliation_case_'' @ ToLower action) (cs_id c))))"

definition ResolveReconciliationCase :: "string \<Rightarrow> string \<Rightarrow> string \<Rightarrow> string \<Rightarrow> string \<Rightarrow> string \<Rightarrow> (ReconciliationCase \<times> bool) dbtx" where
  "ResolveReconciliationCase caseID rawAction sourceJournalID rawReason idempotencyKey actor =
     (let action = ToUpper (TrimSpace rawAction); reason = TrimSpace rawReason in
      thenT (unlessT (\<not> (action \<noteq> ''ACCEPT_EXCEPTION'' \<and> action \<noteq> ''REVERSE_JOURNAL'' \<or> reason = [] \<or> idempotencyKey = [] \<or> actor = [])) ErrFinanceState)
     (bindT (rowT ErrNotFound (caseById caseID)) (\<lambda>c.
      thenT (unlessT (\<not> (action = ''ACCEPT_EXCEPTION'' \<and> TrimSpace sourceJournalID \<noteq> [] \<or> action = ''REVERSE_JOURNAL'' \<and> TrimSpace sourceJournalID = [])) ErrFinanceState)
     (bindT (getT (\<lambda>s. find (\<lambda>r. rs_case r = caseID \<and> rs_key r = idempotencyKey) (recon_resolutions s))) (\<lambda>existing. case existing of
        Some r \<Rightarrow> if rs_action r \<noteq> action \<or> (case rs_source r of None \<Rightarrow> [] | Some x \<Rightarrow> x) \<noteq> sourceJournalID \<or> rs_reason r \<noteq> reason
                  then failT ErrIdempotencyConflict else returnT (c, True)
      | None \<Rightarrow>
          thenT (unlessT (cs_status c = CASE_OPEN \<or> cs_status c = CASE_IN_REVIEW) ErrFinanceState)
         (thenT (resolveCase c action sourceJournalID reason idempotencyKey actor)
                (bindT (rowT ErrNotFound (caseById (cs_id c))) (\<lambda>c. returnT (c, False)))))))))"

section \<open>Lists\<close>

definition caseStatusText :: "CaseStatus \<Rightarrow> string" where
  "caseStatusText x = (case x of CASE_OPEN \<Rightarrow> ''OPEN'' | CASE_IN_REVIEW \<Rightarrow> ''IN_REVIEW'' | CASE_RESOLVED \<Rightarrow> ''RESOLVED'' | CASE_ACCEPTED \<Rightarrow> ''ACCEPTED'')"

definition ListReconciliationRuns :: "int \<Rightarrow> int \<Rightarrow> db \<Rightarrow> ReconciliationRun list" where
  "ListReconciliationRuns limit offset s =
     take (clamp limit) (drop (nat offset) (rev (sort_key (\<lambda>r. (rn_run_date r, rn_run_started r)) (recon_runs s))))"

definition ListReconciliationCases :: "string \<Rightarrow> string \<Rightarrow> int \<Rightarrow> int \<Rightarrow> db \<Rightarrow> ReconciliationCase list" where
  "ListReconciliationCases status checkType limit offset s =
     take (clamp limit) (drop (nat offset) (sort_key (\<lambda>c. (severityRank (cs_severity c), cs_created c, cs_id c))
       (filter (\<lambda>c. (status = [] \<or> caseStatusText (cs_status c) = ToUpper status) \<and> (checkType = [] \<or> cs_check c = ToUpper checkType)) (recon_cases s))))"

end
