(* ===== verification/Reversal.thy ===== *)
theory Reversal
  imports Reconcile
begin

text \<open>
  What the reversal of a journal (\<open>reverseJournalForCase\<close>) does to the books: the mirrored journal
  cancels the reversed one on every account, the wallet follows, and the cash lots stay conserved. A
  reversed journal may have moved reserved money; no funding operation holds what the reversal then
  puts back, and \<open>strayReserved\<close> counts it.
\<close>

section \<open>The mirrored journal\<close>

definition mirrors :: "string \<Rightarrow> JournalEntry \<Rightarrow> JournalEntry \<Rightarrow> bool" where
  "mirrors jid e f \<longleftrightarrow> e_journal f = jid \<and> e_account f = e_account e \<and> e_side f = otherSide (e_side e) \<and> e_amount f = e_amount e"

lemma otherSide_eq [simp]: "otherSide d = x \<longleftrightarrow> d \<noteq> x"
  by (cases d; cases x) (simp_all add: otherSide_def)

lemma mirrorEntries_Inr:
  assumes "forT lines (mirrorEntry jid cur) s = Inr (u, s')"
  shows "\<exists>es n. s' = s\<lparr>rng_pos := n, entries := entries s @ es\<rparr> \<and> list_all2 (mirrors jid) lines es"
  using assms
proof (induction lines arbitrary: s)
  case Nil
  then show ?case by (intro exI [of _ "[]"] exI [of _ "rng_pos s"]) auto
next
  case (Cons l lines)
  from Cons.prems obtain v t where 1: "mirrorEntry jid cur l s = Inr (v, t)" and 2: "forT lines (mirrorEntry jid cur) t = Inr (u, s')"
    by (auto simp: forT_Inr simp del: forT.simps)
  define f where "f = \<lparr>e_id = rng s (rng_pos s), e_journal = jid, e_account = e_account l, e_currency = cur,
       e_side = otherSide (e_side l), e_amount = e_amount l\<rparr>"
  have "insertEntry f (s\<lparr>rng_pos := Suc (rng_pos s)\<rparr>) = Inr (v, t)"
    using 1 unfolding mirrorEntry_def f_def by (auto simp: uuidT_Inr)
  then have t: "t = s\<lparr>rng_pos := Suc (rng_pos s), entries := entries s @ [f]\<rparr>" using insertEntry_Inr by fastforce
  from Cons.IH [OF 2] obtain es m where s': "s' = t\<lparr>rng_pos := m, entries := entries t @ es\<rparr>"
    and es: "list_all2 (mirrors jid) lines es" by blast
  have "mirrors jid l f" by (simp add: mirrors_def f_def)
  then show ?case using s' t es by (intro exI [of _ "f # es"] exI [of _ m]) auto
qed

lemma postMirror_appends:
  assumes "postMirror c journal key reason s = Inr (rid, s')"
  obtains es j where "appends s j es s'" "list_all2 (mirrors rid) (sort_key e_id (filter (\<lambda>e. e_journal e = j_id journal) (entries s))) es"
    "j_id j = rid" "j_wallet j = j_wallet journal" "j_reversal_of j = Some (j_id journal)" "j_case j = Some (cs_id c)"
    "\<forall>i \<in> set (journals s). j_reversal_of i \<noteq> Some (j_id journal)"
proof -
  define j where "j = \<lparr>j_id = rng s (rng_pos s), j_wallet = j_wallet journal, j_type = J_RECONCILIATION_REVERSAL,
              j_key = ''reconciliation:'' @ cs_id c @ '':'' @ key, j_currency = j_currency journal, j_posted = False,
              j_reference = Some reason, j_recharge = None, j_refund = None, j_invoice = None, j_reversal_of = Some (j_id journal),
              j_case = Some (cs_id c), j_created = clk s\<rparr>"
  define s0 where "s0 = s\<lparr>rng_pos := Suc (rng_pos s)\<rparr>"
  from assms obtain s1 s2 where
    1: "insertJournal j s0 = Inr ((), s1)"
    and 2: "forT (sort_key e_id (filter (\<lambda>e. e_journal e = j_id journal) (entries s1))) (mirrorEntry (j_id j) (j_currency journal)) s1 = Inr ((), s2)"
    and 3: "postDraft (j_id j) s2 = Inr ((), s')" and rid: "rid = j_id j"
    unfolding postMirror_def by (auto simp: uuidT_Inr j_def s0_def simp del: forT.simps)
  have s1: "s1 = s0\<lparr>journals := journals s0 @ [j]\<rparr>" and fresh: "\<forall>i \<in> set (journals s). j_reversal_of i \<noteq> Some (j_id journal)"
    using 1 unfolding insertJournal_def by (auto simp: unused_iff j_def s0_def)
  from mirrorEntries_Inr [OF 2] obtain es n where s2: "s2 = s1\<lparr>rng_pos := n, entries := entries s1 @ es\<rparr>"
    and es: "list_all2 (mirrors (j_id j)) (sort_key e_id (filter (\<lambda>e. e_journal e = j_id journal) (entries s1))) es" by blast
  have all: "\<forall>f \<in> set es. e_journal f = j_id j"
    using es by (auto simp: list_all2_conv_all_nth in_set_conv_nth mirrors_def)
  have "appends s0 (j\<lparr>j_posted := True\<rparr>) es s'"
    by (rule draft_posted [OF 1 _ s2 all 3]) (simp add: j_def)
  then have "appends s (j\<lparr>j_posted := True\<rparr>) es s'" unfolding s0_def appends_rng .
  then show thesis by (rule that) (use es s1 fresh rid in \<open>auto simp: j_def s0_def\<close>)
qed

lemma column_sum_mirror:
  assumes "list_all2 (\<lambda>e f. p f = p e \<and> v f = - v e) es fs"
  shows "column_sum p v fs = - column_sum p v es"
  using assms by (induction rule: list_all2_induct) (auto simp: column_sum_def)

lemma column_sum_sort: "column_sum p v (sort_key k xs) = column_sum p v xs"
proof -
  have "column_sum p v (insort_key k x ys) = column_sum p v (x # ys)" for x ys
    by (induction ys) (auto simp: column_sum_def)
  then show ?thesis by (induction xs) (auto simp: column_sum_def)
qed

lemma column_sum_filter: "column_sum p v (filter q xs) = column_sum (\<lambda>x. q x \<and> p x) v xs"
  by (induction xs) (auto simp: column_sum_def)

definition journalEffect :: "db \<Rightarrow> string \<Rightarrow> string \<Rightarrow> money" where
  "journalEffect s jid key = column_sum (\<lambda>e. e_journal e = jid \<and> accountKey s e = Some key) (signedEntry s) (entries s)"

text \<open>On every account the reversal takes back exactly what the reversed journal put there.\<close>

lemma mirror_balance:
  assumes "ledger_wf s" "postMirror c journal key reason s = Inr (rid, s')"
  shows "ledgerBalance s' acc = ledgerBalance s acc - journalEffect s (j_id journal) acc"
proof -
  from assms(2) obtain es j where a: "appends s j es s'"
    and es: "list_all2 (mirrors rid) (sort_key e_id (filter (\<lambda>e. e_journal e = j_id journal) (entries s))) es"
    by (rule postMirror_appends)
  let ?p = "\<lambda>e. accountKey s e = Some acc" and ?src = "filter (\<lambda>e. e_journal e = j_id journal) (entries s)"
  have "?p f = ?p e \<and> signedEntry s f = - signedEntry s e" if "mirrors rid e f" for e f
    using that by (auto simp: mirrors_def accountKey_def signedEntry_def accountOf_def split: option.splits)
  then have "list_all2 (\<lambda>e f. ?p f = ?p e \<and> signedEntry s f = - signedEntry s e) (sort_key e_id ?src) es"
    by (intro list_all2_mono [OF es]) blast
  then have "column_sum ?p (signedEntry s) es = - column_sum ?p (signedEntry s) ?src"
    by (subst column_sum_mirror, assumption) (simp only: column_sum_sort)
  also have "column_sum ?p (signedEntry s) ?src = journalEffect s (j_id journal) acc"
    by (simp only: journalEffect_def column_sum_filter)
  finally show ?thesis using appends_balance [OF assms(1) a] by simp
qed

section \<open>The books under a posted journal\<close>

lemma wallet_id_nonempty: "tables_wf s \<Longrightarrow> w \<in> set (wallets s) \<Longrightarrow> w_id w \<noteq> []"
  unfolding tables_wf_def set_map by (metis image_eqI)

text \<open>A journal touches the accounts of its own wallet only.\<close>

definition touches_own :: "db \<Rightarrow> Journal \<Rightarrow> JournalEntry list \<Rightarrow> bool" where
  "touches_own s j es \<longleftrightarrow> (\<forall>e \<in> set es. \<forall>v. v \<noteq> [] \<longrightarrow>
     accountKey s e = Some (availableKey v) \<or> accountKey s e = Some (reservedKey v) \<longrightarrow> j_wallet j = Some v)"

lemma signedEntry_wallet:
  assumes "ledger_wf s" "accountKey s e = Some key" "normalSide s key = CREDIT"
  shows "signedEntry s e = sideDelta e"
proof -
  from assms(2) obtain a where a: "accountOf s e = Some a" "a_key a = key" by (auto simp: accountKey_def)
  then have "a \<in> set (ledger_accounts s)" unfolding accountOf_def by (auto dest: find_SomeD)
  then have "find (\<lambda>b. a_key b = a_key a) (ledger_accounts s) = Some a"
    using assms(1) by (intro find_by_unique_key) (auto simp: ledger_wf_def)
  then have "a_normal a = CREDIT" using assms(3) a(2) by (simp add: normalSide_def)
  then show ?thesis by (simp add: signedEntry_def sideDelta_def a(1))
qed

lemma journalDelta_appends:
  assumes "ledger_wf s" "appends s j es s'"
  shows "journalDelta s' (j_id j) key = column_sum (\<lambda>e. accountKey s e = Some key) sideDelta es"
proof -
  note a = appendsD [OF assms(2)]
  have key: "accountKey s' = accountKey s" by (simp add: fun_eq_iff accountKey_def accountOf_def a(3))
  have old: "e_journal e \<noteq> j_id j" if "e \<in> set (entries s)" for e
    using assms(1) that a(5) by (fastforce simp: ledger_wf_def)
  have "column_sum (\<lambda>e. e_journal e = j_id j \<and> accountKey s e = Some key) sideDelta (entries s) = 0"
    by (rule column_sum_zero) (use old in blast)
  moreover have "column_sum (\<lambda>e. e_journal e = j_id j \<and> accountKey s e = Some key) sideDelta es =
      column_sum (\<lambda>e. accountKey s e = Some key) sideDelta es"
    by (rule column_sum_cong) (use a(6) in auto)
  ultimately show ?thesis by (simp add: journalDelta_def key a(2))
qed

lemma appends_delta:
  assumes "ledger_wf s" "appends s j es s'" "normalSide s key = CREDIT"
  shows "ledgerBalance s' key = ledgerBalance s key + journalDelta s' (j_id j) key"
proof -
  have "column_sum (\<lambda>e. accountKey s e = Some key) (signedEntry s) es = column_sum (\<lambda>e. accountKey s e = Some key) sideDelta es"
    by (rule column_sum_cong) (use signedEntry_wallet [OF assms(1) _ assms(3)] in auto)
  then show ?thesis using appends_balance [OF assms(1,2)] journalDelta_appends [OF assms(1,2)] by simp
qed

lemma books_appends:
  assumes b: "books K wid a r h s" and ap: "appends s j es s'" and own: "touches_own s j es" and w: "j_wallet j = Some wid \<or> j_wallet j = None"
    and same: "wallets s' = wallets s" "operations s' = operations s"
  shows "books K wid (a - journalDelta s' (j_id j) (availableKey wid)) (r - journalDelta s' (j_id j) (reservedKey wid)) h s'"
proof -
  from b have wf: "ledger_wf s" "journals_balanced s" "scoped s" by (simp_all add: books_def tables_wf_def)
  have side: "normalSide s (availableKey v) = CREDIT" "normalSide s (reservedKey v) = CREDIT" for v
    using b by (simp_all add: books_def tables_wf_def)
  note d = appends_delta [OF wf(1) ap] and dd = journalDelta_appends [OF wf(1) ap]
  have zero: "journalDelta s' (j_id j) (availableKey v) = 0" "journalDelta s' (j_id j) (reservedKey v) = 0" if "v \<noteq> []" "v \<noteq> wid" for v
    unfolding dd using own w that by (intro column_sum_zero; fastforce simp: touches_own_def)+
  have bal: "ledgerBalance s' (availableKey v) = ledgerBalance s (availableKey v) + (if v = wid then journalDelta s' (j_id j) (availableKey wid) else 0)"
    "ledgerBalance s' (reservedKey v) = ledgerBalance s (reservedKey v) + (if v = wid then journalDelta s' (j_id j) (reservedKey wid) else 0)" if "v \<noteq> []" for v
    using d [OF side(1) [of v]] d [OF side(2) [of v]] zero [OF that] by auto
  have "scoped s'" by (rule scoped_appends [OF wf(3) ap]) (use own in \<open>simp add: touches_own_def\<close>)
  then have wf': "tables_wf s'"
    using b same appends_wf [OF wf(1) ap] appends_balanced [OF wf(2) ap] by (simp add: books_def tables_wf_def normalSide_def appendsD(3) [OF ap])
  have ne: "w_id w \<noteq> []" if "w \<in> set (wallets s)" for w using b that wallet_id_nonempty by (auto simp: books_def)
  show ?thesis unfolding books_def same
  proof (intro conjI ballI)
    fix w assume w: "w \<in> set (wallets s)"
    show "w_available w = ledgerBalance s' (availableKey (w_id w)) + off wid (a - journalDelta s' (j_id j) (availableKey wid)) w"
      "w_reserved w = ledgerBalance s' (reservedKey (w_id w)) + off wid (r - journalDelta s' (j_id j) (reservedKey wid)) w"
      "w_reserved w = heldMaximum (w_id w) (operations s) + K (w_id w) + off wid h w"
      using b w by (auto simp: books_def bal [OF ne [OF w]] off_def)
  qed (rule wf')
qed

section \<open>A reversal\<close>

lemma reversalAllowed_Inr:
  assumes "reversalAllowed c journal s = Inr (u, s')"
  shows "s' = s" "j_posted journal" "\<forall>k \<in> set (journals s). j_reversal_of k \<noteq> Some (j_id journal)"
    "cs_recharge c \<noteq> None \<Longrightarrow> j_recharge journal = cs_recharge c"
    "cs_operation c \<noteq> None \<Longrightarrow> \<exists>t \<in> set (wallet_transactions s). t_journal t = Some (j_id journal) \<and> t_operation t = cs_operation c"
  using assms unfolding reversalAllowed_def by (auto simp: unused_iff list_ex_iff split: option.splits)

lemma reverse_Inr:
  assumes "reverseJournalForCase c src key reason s = Inr (rid, s')"
  obtains journal s1 where "journal \<in> set (journals s)" "j_id journal = src" "j_posted journal"
    "\<forall>k \<in> set (journals s). j_reversal_of k \<noteq> Some src" "postMirror c journal key reason s = Inr (rid, s1)"
    "case j_wallet journal of None \<Rightarrow> s' = s1 | Some wid \<Rightarrow> applyReversal c wid src rid key reason s1 = Inr ((), s')"
proof -
  from assms obtain journal s0 s1 u where f: "find (\<lambda>j. j_id j = src) (journals s) = Some journal"
    and al: "reversalAllowed c journal s = Inr (u, s0)" and m: "postMirror c journal key reason s0 = Inr (rid, s1)"
    and w: "(case j_wallet journal of None \<Rightarrow> returnT () | Some wid \<Rightarrow> applyReversal c wid src rid key reason) s1 = Inr ((), s')"
    unfolding reverseJournalForCase_def by auto
  note al = reversalAllowed_Inr [OF al]
  from find_SomeD [OF f] have j: "journal \<in> set (journals s)" "j_id journal = src" by auto
  show thesis by (rule that [OF j al(2)]) (use al(1,3) m w j in \<open>auto split: option.splits\<close>)
qed

lemma applyReversal_Inr:
  assumes "applyReversal c wid src rid key reason s = Inr (u, s')"
  obtains w s1 where "list_ex (\<lambda>w. w_id w = wid \<and> 0 \<le> w_reserved w + journalDelta s rid (reservedKey wid)) (wallets s)"
    "updateWalletReturning wid (reversedWallet (journalDelta s rid (availableKey wid)) (journalDelta s rid (reservedKey wid))) s = Inr (w, s1)"
    "whenT (journalDelta s rid (availableKey wid) \<noteq> 0)
       (attributeReversal c wid src rid key reason (w_available w) (journalDelta s rid (availableKey wid))) s1 = Inr ((), s')"
  using assms unfolding applyReversal_def key_abbrev by (elim bindT_InrE thenT_InrE) simp

lemma attribute_keeps: "keeps money_tables (attributeReversal c wid src rid key reason m d)"
  unfolding attributeReversal_def by (intro frame money_frame)

lemma mirror_own:
  assumes "tables_wf s" "postMirror c journal key reason s = Inr (rid, s')" "journal \<in> set (journals s)"
  obtains es j where "appends s j es s'" "touches_own s j es" "j_id j = rid" "j_wallet j = j_wallet journal" "j_reversal_of j = Some (j_id journal)"
proof -
  from assms(2) obtain es j where a: "appends s j es s'"
    and es: "list_all2 (mirrors rid) (sort_key e_id (filter (\<lambda>e. e_journal e = j_id journal) (entries s))) es"
    and j: "j_id j = rid" "j_wallet j = j_wallet journal" "j_reversal_of j = Some (j_id journal)"
    by (rule postMirror_appends)
  have "j_wallet j = Some v" if f: "f \<in> set es" and v: "v \<noteq> []" "accountKey s f = Some (availableKey v) \<or> accountKey s f = Some (reservedKey v)" for f v
  proof -
    from es f obtain e where "e \<in> set (sort_key e_id (filter (\<lambda>e. e_journal e = j_id journal) (entries s)))" "mirrors rid e f"
      by (metis in_set_conv_nth list_all2_conv_all_nth)
    then have e: "e \<in> set (entries s)" "e_journal e = j_id journal" "accountKey s f = accountKey s e"
      by (auto simp: mirrors_def accountKey_def accountOf_def)
    then obtain i where i: "i \<in> set (journals s)" "j_id i = j_id journal" "j_wallet i = Some v"
      using assms(1) v unfolding tables_wf_def scoped_def by metis
    moreover have "distinct (map j_id (journals s))" using assms(1) by (simp add: tables_wf_def ledger_wf_def)
    ultimately have "i = journal" using assms(3) by (simp add: distinct_map inj_on_def)
    then show ?thesis using i j(2) by simp
  qed
  then have "touches_own s j es" by (simp add: touches_own_def)
  then show thesis using that a j by blast
qed

section \<open>The reserved money that no operation holds\<close>

definition isReversal :: "db \<Rightarrow> string \<Rightarrow> bool" where
  "isReversal s jid = list_ex (\<lambda>j. j_id j = jid \<and> j_reversal_of j \<noteq> None) (journals s)"

definition strayReserved :: "db \<Rightarrow> string \<Rightarrow> money" where
  "strayReserved s wid = column_sum (\<lambda>e. isReversal s (e_journal e) \<and> accountKey s e = Some (reservedKey wid)) sideDelta (entries s)"

lemma stray_appends:
  assumes "appends s j es s'" "ledger_wf s"
  shows "strayReserved s' wid = strayReserved s wid + (if j_reversal_of j = None then 0 else journalDelta s' (j_id j) (reservedKey wid))"
proof -
  note a = appendsD [OF assms(1)]
  have key: "accountKey s' = accountKey s" by (simp add: fun_eq_iff accountKey_def accountOf_def a(3))
  have old: "e_journal e \<noteq> j_id j" if "e \<in> set (entries s)" for e
    using assms(2) that a(5) by (fastforce simp: ledger_wf_def)
  have rev: "isReversal s' jid = (if jid = j_id j then j_reversal_of j \<noteq> None else isReversal s jid)" for jid
    using a(5) by (auto simp: isReversal_def a(1) list_ex_iff)
  have 1: "column_sum (\<lambda>e. isReversal s' (e_journal e) \<and> accountKey s e = Some (reservedKey wid)) sideDelta (entries s) = strayReserved s wid"
    unfolding strayReserved_def by (rule column_sum_cong) (use old in \<open>auto simp: rev\<close>)
  have 2: "column_sum (\<lambda>e. isReversal s' (e_journal e) \<and> accountKey s e = Some (reservedKey wid)) sideDelta es =
      (if j_reversal_of j = None then 0 else column_sum (\<lambda>e. accountKey s e = Some (reservedKey wid)) sideDelta es)"
    using a(6) by (auto simp: rev intro!: column_sum_zero column_sum_cong)
  show ?thesis unfolding journalDelta_appends [OF assms(2,1)] using 1 2 unfolding strayReserved_def key a(2) by simp
qed

lemma balanced_cong:
  assumes "balanced K s" "\<And>w. w \<in> set (wallets s) \<Longrightarrow> K' (w_id w) = K (w_id w)"
  shows "balanced K' s"
  using assms unfolding balanced_def books_def by (intro conjI ballI; metis)

lemma books_absorb: "books K wid 0 0 h s \<Longrightarrow> balanced (K(wid := K wid + h)) s"
  unfolding balanced_def books_def by (auto simp: off_def)

lemma books_nobody: "books K [] a r h s \<Longrightarrow> balanced K s"
proof -
  assume b: "books K [] a r h s"
  then have "w_id w \<noteq> []" if "w \<in> set (wallets s)" for w using that wallet_id_nonempty by (auto simp: books_def)
  then show ?thesis using b unfolding balanced_def books_def by (auto simp: off_def)
qed

text \<open>The books are right, the reserved money of reversed journals apart.\<close>

definition books_ok :: "db \<Rightarrow> bool" where
  "books_ok s \<longleftrightarrow> balanced (strayReserved s) s"

lemma stray_frame: "money_tables s' = money_tables s \<Longrightarrow> strayReserved s' = strayReserved s"
  by (simp add: money_tables_def fun_eq_iff strayReserved_def isReversal_def accountKey_def accountOf_def)

lemma books_ok_frame: "money_tables s' = money_tables s \<Longrightarrow> books_ok s \<Longrightarrow> books_ok s'"
  unfolding books_ok_def balanced_def using stray_frame books_frame by metis

lemma books_ok_keeps: "keeps money_tables m \<Longrightarrow> triple books_ok m (\<lambda>_. books_ok)"
  by (rule triple_keeps) (auto intro: books_ok_frame)

text \<open>A reversal keeps the books: what it moves to the reserved balance is counted by \<open>strayReserved\<close>.\<close>

lemma books_ok_reverse: "triple books_ok (reverseJournalForCase c src key reason) (\<lambda>_. books_ok)"
proof (rule tripleI, unfold books_ok_def)
  fix s rid s'
  assume b: "balanced (strayReserved s) s" and rv: "reverseJournalForCase c src key reason s = Inr (rid, s')"
  from rv obtain journal s1 where jn: "journal \<in> set (journals s)" and m: "postMirror c journal key reason s = Inr (rid, s1)"
    and w: "case j_wallet journal of None \<Rightarrow> s' = s1 | Some wid \<Rightarrow> applyReversal c wid src rid key reason s1 = Inr ((), s')"
    by (rule reverse_Inr)
  have twf: "tables_wf s" using b by (simp add: balanced_def books_def)
  obtain es j where ap: "appends s j es s1" and own: "touches_own s j es" and j: "j_id j = rid" "j_wallet j = j_wallet journal" "j_reversal_of j \<noteq> None"
    by (rule mirror_own [OF twf m jn]) auto
  have lwf: "ledger_wf s" using twf by (simp add: tables_wf_def)
  have same: "wallets s1 = wallets s" "operations s1 = operations s" using ap by (auto simp: appends_def)
  have st: "strayReserved s1 v = strayReserved s v + journalDelta s1 rid (reservedKey v)" for v
    using stray_appends [OF ap lwf] j by simp
  show "balanced (strayReserved s') s'"
  proof (cases "j_wallet journal")
    case None
    have "balanced (strayReserved s) s1"
      by (rule books_nobody, rule books_appends [OF _ ap own _ same]) (use b None j in \<open>simp_all add: balanced_def\<close>)
    moreover have "journalDelta s1 rid (reservedKey v) = 0" if "v \<noteq> []" for v
      unfolding j(1) [symmetric] journalDelta_appends [OF lwf ap] by (rule column_sum_zero) (use own None j(2) that in \<open>auto simp: touches_own_def\<close>)
    ultimately have "balanced (strayReserved s1) s1"
      by (elim balanced_cong) (use wallet_id_nonempty [OF twf] same st in auto)
    then show ?thesis using w None by simp
  next
    case (Some wid)
    let ?A = "journalDelta s1 rid (availableKey wid)" and ?R = "journalDelta s1 rid (reservedKey wid)"
    have b1: "books (strayReserved s) wid (0 - ?A) (0 - ?R) 0 s1"
      unfolding j(1) [symmetric] by (rule books_appends [OF _ ap own _ same]) (use b Some j balanced_books in auto)
    from w Some have "applyReversal c wid src rid key reason s1 = Inr ((), s')" by simp
    then obtain v s2 where u: "updateWalletReturning wid (reversedWallet ?A ?R) s1 = Inr (v, s2)"
      and k: "whenT (?A \<noteq> 0) (attributeReversal c wid src rid key reason (w_available v) ?A) s2 = Inr ((), s')"
      by (rule applyReversal_Inr)
    have "books (strayReserved s) wid (0 - ?A + ?A) (0 - ?R + ?R) (0 + ?R) s2"
      by (rule tripleD [OF books_updateWalletReturning_by b1 u]) (simp_all add: reversedWallet_def)
    then have b2: "books (strayReserved s) wid 0 0 ?R s2" by simp
    have mt: "money_tables s' = money_tables s2"
      by (rule keepsD [rotated], rule k, intro frame attribute_keeps)
    then have "books (strayReserved s) wid 0 0 ?R s'" using b2 by (rule books_frame)
    then have fin: "balanced ((strayReserved s)(wid := strayReserved s wid + ?R)) s'" by (rule books_absorb)
    have "money_tables s2 = money_tables (s1\<lparr>wallets := wallets s2\<rparr>)"
      using u unfolding updateWalletReturning_def updateWallet_def by (auto simp: money_tables_def)
    then have led: "ledger_accounts s' = ledger_accounts s1" "journals s' = journals s1" "entries s' = entries s1"
      using mt by (simp_all add: money_tables_def)
    have "strayReserved s' = strayReserved s1"
      by (simp add: fun_eq_iff strayReserved_def isReversal_def accountKey_def accountOf_def led)
    moreover have "journalDelta s1 rid (reservedKey v) = 0" if "v \<noteq> []" "v \<noteq> wid" for v
      unfolding j(1) [symmetric] journalDelta_appends [OF lwf ap] by (rule column_sum_zero) (use own Some j(2) that in \<open>auto simp: touches_own_def\<close>)
    moreover have "w_id w \<noteq> []" if "w \<in> set (wallets s')" for w using that fin wallet_id_nonempty by (auto simp: balanced_def books_def)
    ultimately show ?thesis using fin by (elim balanced_cong) (auto simp: st)
  qed
qed

section \<open>The cash lots under a reversal\<close>

lemma cash_attribute: "triple (cash_at x) (attributeReversal c wid src rid key reason m d) (\<lambda>_. cash_at x)"
  unfolding attributeReversal_def
  apply (rule cash_bind, rule cash_frame)
  apply (rule cash_bind, rule frame)
  apply (rule cash_then, rule cash_frame)
  apply (rule triple_if, rule cash_allocateCashDebitTx)
  apply (rule cash_bind, rule frame)
  apply (rule cash_restoreCashAllocationTx)
  done

lemma cash_reverse: "triple (cash_at x) (reverseJournalForCase c src key reason) (\<lambda>_. cash_at x)"
proof (rule tripleI)
  fix s rid s'
  assume c: "cash_at x s" and rv: "reverseJournalForCase c src key reason s = Inr (rid, s')"
  from rv obtain journal s1 where m: "postMirror c journal key reason s = Inr (rid, s1)"
    and w: "case j_wallet journal of None \<Rightarrow> s' = s1 | Some wid \<Rightarrow> applyReversal c wid src rid key reason s1 = Inr ((), s')"
    by (rule reverse_Inr)
  from m obtain es j where "appends s j es s1" by (rule postMirror_appends)
  then have "cash_tables s1 = cash_tables s" by (auto simp: appends_def lot_tables_def owner_tables_def)
  then have c1: "cash_at x s1" using c by (rule cash_at_frame)
  show "cash_at x s'"
  proof (cases "j_wallet journal")
    case None
    then show ?thesis using w c1 by simp
  next
    case (Some wid)
    with w have "applyReversal c wid src rid key reason s1 = Inr ((), s')" by simp
    then obtain v s2 where u: "updateWalletReturning wid (reversedWallet (journalDelta s1 rid (availableKey wid)) (journalDelta s1 rid (reservedKey wid))) s1 = Inr (v, s2)"
      and k: "whenT (journalDelta s1 rid (availableKey wid) \<noteq> 0)
         (attributeReversal c wid src rid key reason (w_available v) (journalDelta s1 rid (availableKey wid))) s2 = Inr ((), s')"
      by (rule applyReversal_Inr)
    have "cash_at x s2" by (rule tripleD [OF cash_keeps [OF cash_frame(7)] c1 u])
    then show ?thesis using k by (rule tripleD [OF cash_when [OF cash_attribute]])
  qed
qed

section \<open>Cases and runs\<close>

lemma resolution_frame:
  assumes "\<And>s t. f (s\<lparr>recon_resolutions := t\<rparr>) = f s" "\<And>s t. f (s\<lparr>recon_cases := t\<rparr>) = f s"
  shows "keeps f (insertResolution r)" "keeps f (setCaseStatus cid st actor reason)"
  unfolding insertResolution_def setCaseStatus_def by (intro frame; simp add: assms)+

text \<open>A resolution either writes no journal, or is one reversal and its record.\<close>

lemma Resolve_Inr:
  assumes "ResolveReconciliationCase cid action src reason key actor s = Inr (x, s')"
  obtains (replay) "s' = s" "snd x"
  | (resolved) c a rs where "caseById cid s = Some c" "cs_status c = CASE_OPEN \<or> cs_status c = CASE_IN_REVIEW" "\<not> snd x"
      "resolveCase c a src rs key actor s = Inr ((), s')"
  using assms unfolding ResolveReconciliationCase_def Let_def
  by (auto split: option.splits if_splits)

lemma books_ok_resolveCase: "triple books_ok (resolveCase c a src reason key actor) (\<lambda>_. books_ok)"
  unfolding resolveCase_def
  apply (rule triple_thenT, rule books_ok_keeps, rule money_frame)
  apply (rule triple_thenT [where R = books_ok])
   apply (rule triple_if)
    apply (rule triple_bindT, rule books_ok_reverse)
    apply (rule books_ok_keeps, rule resolution_frame; simp add: money_tables_def)
   apply (rule books_ok_keeps, rule resolution_frame; simp add: money_tables_def)
  apply (rule books_ok_keeps, intro frame money_frame resolution_frame; simp add: money_tables_def)
  done

lemma cash_resolveCase: "triple (cash_at x) (resolveCase c a src reason key actor) (\<lambda>_. cash_at x)"
  unfolding resolveCase_def
  apply (rule cash_then, rule cash_frame)
  apply (rule triple_thenT [where R = "cash_at x"])
   apply (rule triple_if)
    apply (rule triple_bindT, rule cash_reverse)
    apply (rule cash_keeps, rule resolution_frame; simp add: lot_tables_def owner_tables_def)
   apply (rule cash_keeps, rule resolution_frame; simp add: lot_tables_def owner_tables_def)
  apply (rule cash_keeps, intro frame cash_frame resolution_frame; simp add: lot_tables_def owner_tables_def)
  done

lemma books_ok_Resolve: "triple books_ok (ResolveReconciliationCase cid action src reason key actor) (\<lambda>_. books_ok)"
  by (rule tripleI, erule Resolve_Inr) (use tripleD [OF books_ok_resolveCase] in auto)

lemma cash_Resolve: "triple (cash_at x) (ResolveReconciliationCase cid action src reason key actor) (\<lambda>_. cash_at x)"
  by (rule tripleI, erule Resolve_Inr) (use tripleD [OF cash_resolveCase] in auto)

text \<open>A run reads the books and writes the reconciliation tables and the audit log only.\<close>

lemma keeps_tagT [frame]: "keeps f m \<Longrightarrow> keeps f (tagT code m)"
  by (auto simp: keeps_def tagT_def split: sum.splits)

definition recon_blind :: "(db \<Rightarrow> 'f) \<Rightarrow> bool" where
  "recon_blind f \<longleftrightarrow> (\<forall>s n. f (s\<lparr>rng_pos := n\<rparr>) = f s) \<and> (\<forall>s t. f (s\<lparr>recon_cases := t\<rparr>) = f s) \<and>
     (\<forall>s t. f (s\<lparr>recon_observations := t\<rparr>) = f s) \<and> (\<forall>s t. f (s\<lparr>recon_runs := t\<rparr>) = f s)"

lemma run_frame:
  assumes "recon_blind f"
  shows "keeps f (insertObservation ob)" "keeps f (upsertCase new)" "keeps f (claimRun date trigger actor)"
    "keeps f (failFinancialReconciliationRun rid code)" "keeps f (completeRun rid m d)" "keeps f uuidT"
  using assms unfolding insertObservation_def upsertCase_def claimRun_def failFinancialReconciliationRun_def completeRun_def Let_def
  by (intro frame keeps_uuidT; simp add: recon_blind_def)+

lemma keeps_processCandidate: "recon_blind f \<Longrightarrow> keeps f (processCandidate rid ct v)"
  unfolding processCandidate_def Let_def by (intro frame run_frame; simp add: recon_blind_def)

lemma keeps_processCandidates: "recon_blind f \<Longrightarrow> keeps f (processCandidates rid ct vs m d)"
  by (induction vs arbitrary: m d) (auto intro!: frame keeps_processCandidate)

lemma keeps_processReconciliationQuery: "recon_blind f \<Longrightarrow> keeps f (processReconciliationQuery rid ct q day)"
  unfolding processReconciliationQuery_def by (intro frame keeps_processCandidates)

lemma keeps_runChecks: "recon_blind f \<Longrightarrow> keeps f (runChecks rid day items m d)"
  by (induction items arbitrary: m d) (auto intro!: frame keeps_processReconciliationQuery)

lemma keeps_snapshotTx: "recon_blind f \<Longrightarrow> keeps f (writeAuditTx actor ''finance.reconciliation_completed'' (rn_run_id run)) \<Longrightarrow>
   keeps f (snapshotTx checks run day actor)"
  unfolding snapshotTx_def by (intro frame keeps_runChecks run_frame)

lemma commit_keeps: "keeps f m \<Longrightarrow> f (snd (commit m s)) = f s"
  by (auto simp: commit_def keeps_def split: sum.splits)

lemma RunFinancialReconciliation_keeps:
  assumes "recon_blind f" "\<And>a b c. keeps f (writeAuditTx a b c)"
  shows "f (snd (RunFinancialReconciliation checks day trigger actor s)) = f s"
proof -
  let ?m = "claimRun (isoDate (day div 86400)) (ToUpper (TrimSpace trigger)) actor"
  obtain r s1 where m: "commit ?m s = (r, s1)" by fastforce
  have f1: "f s1 = f s" using commit_keeps [OF run_frame(3) [OF assms(1)], of _ _ _ s] m by (metis snd_conv)
  show ?thesis
  proof (cases "\<exists>run. r = Inr (run, False)")
    case True
    then obtain run where r: "r = Inr (run, False)" by blast
    show ?thesis
    proof (cases "snapshotTx checks run (day div 86400) actor s1")
      case (Inl a)
      then show ?thesis using commit_keeps [OF run_frame(4) [OF assms(1)]] f1
        by (simp add: RunFinancialReconciliation_def Let_def m r split: prod.splits)
    next
      case (Inr a)
      then have "f (snd a) = f s1" using keepsD [OF keeps_snapshotTx [OF assms]] by (metis prod.collapse)
      then show ?thesis using f1 Inr by (auto simp: RunFinancialReconciliation_def Let_def m r split: prod.splits)
    qed
  next
    case False
    then show ?thesis using f1 by (simp add: RunFinancialReconciliation_def Let_def m split: sum.splits prod.splits bool.splits)
  qed
qed

lemma recon_blind_money: "recon_blind money_tables"
  by (simp add: recon_blind_def money_tables_def)

lemma recon_blind_cash: "recon_blind cash_tables"
  by (simp add: recon_blind_def lot_tables_def owner_tables_def)

end
