(* ===== verification/History.thy ===== *)
theory History
  imports Reversal "HOL-Library.Sublist"
begin

text \<open>
  What a transaction may do to the evidence: \<open>evolves s s'\<close> relates the state before to the state after.
  The ledger, the wallet transactions, the events of operations, the adjustments and the audit log only grow, operations and
  orders keep their identity and an operation that has ended stays ended, and the foreign keys hold
  after if they held before. \<open>steady\<close> adds that no journal is reversed.

  The relation is reflexive and transitive, so it holds of a transaction when it holds of its
  statements: the locale \<open>history\<close> has the rules, for any such relation.
\<close>

section \<open>Transactions and preorders\<close>

definition grows :: "('s \<Rightarrow> 's \<Rightarrow> bool) \<Rightarrow> ('s, 'e, 'a) tx \<Rightarrow> bool" where
  "grows R m \<longleftrightarrow> (\<forall>s x s'. m s = Inr (x, s') \<longrightarrow> R s s')"

lemma growsI: "(\<And>s x s'. m s = Inr (x, s') \<Longrightarrow> R s s') \<Longrightarrow> grows R m"
  by (auto simp: grows_def)

lemma growsD: "grows R m \<Longrightarrow> m s = Inr (x, s') \<Longrightarrow> R s s'"
  by (auto simp: grows_def)

locale history =
  fixes R :: "'s \<Rightarrow> 's \<Rightarrow> bool"
  assumes refl: "R s s" and trans: "R s t \<Longrightarrow> R t u \<Longrightarrow> R s u"
begin

lemma pure:
  "grows R (returnT x)" "grows R (failT e)" "grows R (getT f)" "grows R (unlessT b e)" "grows R (liftT r)" "grows R (rowT e q)" "grows R (checkT p e)"
  using refl by (auto simp: grows_def)

lemma bind: "grows R m \<Longrightarrow> (\<And>x. grows R (g x)) \<Longrightarrow> grows R (bindT m g)"
  using trans by (fastforce simp: grows_def)

lemma seq: "grows R m \<Longrightarrow> grows R n \<Longrightarrow> grows R (thenT m n)"
  using trans by (fastforce simp: grows_def)

lemma guarded: "grows R m \<Longrightarrow> grows R (whenT b m)"
  using refl by (auto simp: grows_def whenT_Inr)

lemma branch: "grows R m \<Longrightarrow> grows R n \<Longrightarrow> grows R (if b then m else n)"
  by auto

lemma optional: "grows R m \<Longrightarrow> (\<And>x. grows R (g x)) \<Longrightarrow> grows R (case v of None \<Rightarrow> m | Some x \<Rightarrow> g x)"
  by (cases v) auto

lemma pair: "(\<And>x y. grows R (g x y)) \<Longrightarrow> grows R (case v of (x, y) \<Rightarrow> g x y)"
  by (cases v) auto

lemma loop: "(\<And>x. grows R (g x)) \<Longrightarrow> grows R (forT xs g)"
  using refl trans by (induction xs) (fastforce simp: grows_def)+

lemma kept: "keeps f m \<Longrightarrow> (\<And>s s'. f s' = f s \<Longrightarrow> R s s') \<Longrightarrow> grows R m"
  by (auto simp: grows_def keeps_def)

lemma committed: "grows R m \<Longrightarrow> R s (snd (commit m s))"
  using refl by (auto simp: grows_def commit_def split: sum.splits)

lemmas rules = pure bind seq guarded branch optional pair loop

end

section \<open>The evidence\<close>

text \<open>The references between the rows the books are about.\<close>

definition references :: "db \<Rightarrow> bool" where
  "references s \<longleftrightarrow> (\<forall>e \<in> set (entries s). e_account e \<in> a_id ` set (ledger_accounts s)) \<and>
     (\<forall>a \<in> set (ledger_accounts s). \<forall>v. a_key a = availableKey v \<or> a_key a = reservedKey v \<longrightarrow> v \<in> w_id ` set (wallets s)) \<and>
     (\<forall>q \<in> set (operations s). o_wallet q \<in> w_id ` set (wallets s))"

text \<open>What a credited order is linked to: the transaction and the posted journal of its credit.\<close>

definition linkedOrder :: "db \<Rightarrow> RechargeOrder \<Rightarrow> bool" where
  "linkedOrder s r \<longleftrightarrow> ro_tx r = None \<or> (\<exists>t \<in> set (wallet_transactions s). \<exists>j \<in> set (journals s).
     ro_tx r = Some (t_id t) \<and> ro_journal r = Some (j_id j) \<and> t_recharge t = Some (ro_id r) \<and> t_amount t = ro_amount r \<and>
     t_journal t = Some (j_id j) \<and> j_posted j)"

definition orders_ok :: "db \<Rightarrow> bool" where
  "orders_ok s \<longleftrightarrow> distinct (map t_id (wallet_transactions s)) \<and> distinct (map ro_id (recharge_orders s)) \<and>
     (\<forall>r \<in> set (recharge_orders s). rechargeChecks r \<and> linkedOrder s r)"

definition opEvolves :: "FundingOperation \<Rightarrow> FundingOperation \<Rightarrow> bool" where
  "opEvolves q p \<longleftrightarrow> o_id p = o_id q \<and> o_wallet p = o_wallet q \<and> o_org p = o_org q \<and> o_request p = o_request q \<and> o_key p = o_key q \<and>
     o_fingerprint p = o_fingerprint q \<and> o_maximum p = o_maximum q \<and> o_promotion p = o_promotion q \<and> o_created p = o_created q \<and>
     (isFundingTerminal (o_status q) \<longrightarrow> isFundingTerminal (o_status p))"

definition orderEvolves :: "RechargeOrder \<Rightarrow> RechargeOrder \<Rightarrow> bool" where
  "orderEvolves r p \<longleftrightarrow> ro_id p = ro_id r \<and> ro_platform_no p = ro_platform_no r \<and> ro_org p = ro_org r \<and> ro_wallet p = ro_wallet r \<and>
     ro_provider p = ro_provider r \<and> ro_amount p = ro_amount r \<and> ro_currency p = ro_currency r \<and> ro_key p = ro_key r \<and>
     ro_fingerprint p = ro_fingerprint r \<and> ro_created p = ro_created r"

definition evolves :: "db \<Rightarrow> db \<Rightarrow> bool" where
  "evolves s s' \<longleftrightarrow> rng s' = rng s \<and> ledger_extends s s' \<and> prefix (map w_id (wallets s)) (map w_id (wallets s')) \<and>
     prefix (wallet_transactions s) (wallet_transactions s') \<and> prefix (op_events s) (op_events s') \<and>
     prefix (adjustments s) (adjustments s') \<and> prefix (audit_log s) (audit_log s') \<and>
     (\<forall>q \<in> set (operations s). \<exists>p \<in> set (operations s'). opEvolves q p) \<and>
     (\<forall>r \<in> set (recharge_orders s). \<exists>p \<in> set (recharge_orders s'). orderEvolves r p) \<and>
     (references s \<longrightarrow> references s') \<and> (orders_ok s \<longrightarrow> orders_ok s')"

definition steady :: "db \<Rightarrow> db \<Rightarrow> bool" where
  "steady s s' \<longleftrightarrow> evolves s s' \<and> strayReserved s' = strayReserved s"

lemma ledger_extends_refl: "ledger_extends s s"
  by (auto simp: ledger_extends_def)

lemma ledger_extends_trans:
  assumes "ledger_extends s t" "ledger_extends t u"
  shows "ledger_extends s u"
proof -
  from assms(1) obtain a j e where 1: "ledger_accounts t = ledger_accounts s @ a" "journals t = journals s @ j" "entries t = entries s @ e"
    "\<forall>e \<in> set e. \<forall>j \<in> set (journals s). e_journal e \<noteq> j_id j" by (auto simp: ledger_extends_def)
  from assms(2) obtain b k f where 2: "ledger_accounts u = ledger_accounts t @ b" "journals u = journals t @ k" "entries u = entries t @ f"
    "\<forall>e \<in> set f. \<forall>j \<in> set (journals t). e_journal e \<noteq> j_id j" by (auto simp: ledger_extends_def)
  show ?thesis unfolding ledger_extends_def
    by (rule exI [of _ "a @ b"], rule exI [of _ "j @ k"], rule exI [of _ "e @ f"]) (use 1 2 in auto)
qed

lemma evolves_refl: "evolves s s"
  by (auto simp: evolves_def ledger_extends_refl opEvolves_def orderEvolves_def)

lemma evolves_trans: "evolves s t \<Longrightarrow> evolves t u \<Longrightarrow> evolves s u"
proof -
  assume a: "evolves s t" "evolves t u"
  have "\<exists>p \<in> set (operations u). opEvolves q p" if "q \<in> set (operations s)" for q
    using a that unfolding evolves_def opEvolves_def by metis
  moreover have "\<exists>p \<in> set (recharge_orders u). orderEvolves r p" if "r \<in> set (recharge_orders s)" for r
    using a that unfolding evolves_def orderEvolves_def by metis
  ultimately show ?thesis using a ledger_extends_trans [of s t u] unfolding evolves_def by (auto intro: prefix_order.trans)
qed

interpretation evolving: history evolves
  by unfold_locales (rule evolves_refl, rule evolves_trans)

interpretation steadily: history steady
  by unfold_locales (auto simp: steady_def intro: evolves_refl evolves_trans)

section \<open>Statements\<close>

text \<open>A statement that leaves the ledger and the wallets' identifiers alone.\<close>

lemma steadyI:
  assumes "rng s' = rng s" "ledger_accounts s' = ledger_accounts s" "journals s' = journals s" "entries s' = entries s"
    "map w_id (wallets s') = map w_id (wallets s)" "prefix (wallet_transactions s) (wallet_transactions s')" "prefix (op_events s) (op_events s')"
    "prefix (adjustments s) (adjustments s')" "prefix (audit_log s) (audit_log s')"
    "\<forall>q \<in> set (operations s). \<exists>p \<in> set (operations s'). opEvolves q p"
    "\<forall>p \<in> set (operations s'). o_wallet p \<in> w_id ` set (wallets s) \<or> (\<exists>q \<in> set (operations s). o_wallet q = o_wallet p)"
    "\<forall>r \<in> set (recharge_orders s). \<exists>p \<in> set (recharge_orders s'). orderEvolves r p" "orders_ok s \<longrightarrow> orders_ok s'"
  shows "steady s s'"
proof -
  have le: "ledger_extends s s'" unfolding ledger_extends_def by (auto simp: assms(2-4))
  have ids: "w_id ` set (wallets s') = w_id ` set (wallets s)" using assms(5) by (metis set_map)
  have "references s'" if "references s"
    using that assms(11) unfolding references_def ids assms(2,4) by metis
  moreover have "strayReserved s' = strayReserved s"
    by (simp add: fun_eq_iff strayReserved_def isReversal_def accountKey_def accountOf_def assms(2-4))
  ultimately show ?thesis using assms(1,5-10,12,13) le by (simp add: steady_def evolves_def)
qed

lemma orders_ok_grow:
  assumes "recharge_orders s' = recharge_orders s" "prefix (wallet_transactions s) (wallet_transactions s')" "prefix (journals s) (journals s')"
    "distinct (map t_id (wallet_transactions s')) = distinct (map t_id (wallet_transactions s))"
  shows "orders_ok s \<longrightarrow> orders_ok s'"
proof -
  have "set (wallet_transactions s) \<subseteq> set (wallet_transactions s')" "set (journals s) \<subseteq> set (journals s')"
    using assms(2,3) by (auto dest: set_mono_prefix)
  then have "linkedOrder s r \<Longrightarrow> linkedOrder s' r" for r unfolding linkedOrder_def by blast
  then show ?thesis using assms(1,4) by (auto simp: orders_ok_def)
qed

definition hist_tables where
  "hist_tables s = (rng s, wallets s, ledger_accounts s, journals s, entries s, wallet_transactions s, op_events s, adjustments s, audit_log s,
     operations s, recharge_orders s)"

lemma steady_same: "hist_tables s' = hist_tables s \<Longrightarrow> steady s s'"
  by (rule steadyI) (auto simp: hist_tables_def opEvolves_def orderEvolves_def orders_ok_def linkedOrder_def)

lemma hist_kept: "keeps hist_tables m \<Longrightarrow> grows steady m"
  by (rule steadily.kept) (auto intro: steady_same)

lemma hist_frame:
  "keeps hist_tables uuidT" "keeps hist_tables (reserveCashLotsTx op w m)" "keeps hist_tables (allocateCashDebitTx w tx m)"
  "keeps hist_tables (settleCashLotsTx op w tx m)" "keeps hist_tables (allocateChargebackTx w ro tx m)"
  "keeps hist_tables (reserveRefundCashTx rf w ro m)" "keeps hist_tables (settleRefundCashTx rf w tx ok)"
  "keeps hist_tables (createCashLotTx w ro tx k ref m cur rfd)" "keeps hist_tables (restoreCashAllocationTx w src rtx m)"
  "keeps hist_tables (reservePromotionTx op org cur m)" "keeps hist_tables (settlePromotionTx op m)" "keeps hist_tables (reversePromotionTx op m)"
  "keeps hist_tables (setUsageStatus op ust)" "keeps hist_tables (settleProviderBudget q r)" "keeps hist_tables (settlementAmounts q r)"
  "keeps hist_tables (correctedAmount q lu)" "keeps hist_tables (recheckProviderDispatchTx org p c)" "keeps hist_tables (reserveProviderBudget oid p)"
  "keeps hist_tables (insertAttempt oid p c b)" "keeps hist_tables (insertRefund rfo)" "keeps hist_tables (updateRefund pr g)"
  "keeps hist_tables (insertPaymentAttempt a)" "keeps hist_tables (insertReconciliation e)" "keeps hist_tables (bindProviderAccount org u p md)"
  "keeps hist_tables (enqueueProviderAllocationTx ord)" "keeps hist_tables (updateApplications rid st)" "keeps hist_tables (checkRechargeRisk org u ra)"
  by (intro keeps_uuidT keeps_reserveCashLotsTx keeps_allocateCashDebitTx
        keeps_settleCashLotsTx keeps_allocateChargebackTx keeps_reserveRefundCashTx keeps_settleRefundCashTx keeps_createCashLotTx
        keeps_restoreCashAllocationTx keeps_reservePromotionTx keeps_settlePromotionTx keeps_reversePromotionTx
        keeps_setUsageStatus keeps_settleProviderBudget keeps_settlementAmounts keeps_correctedAmount keeps_recheckProviderDispatchTx
        keeps_reserveProviderBudget keeps_insertAttempt payment_frame;
      simp add: hist_tables_def)+

lemma steady_writeAuditTx: "grows steady (writeAuditTx a b c)"
  unfolding writeAuditTx_def
  by (rule growsI, elim thenT_InrE, rule steadyI) (auto simp: uuidT_Inr opEvolves_def orderEvolves_def orders_ok_def linkedOrder_def)

lemma steady_insertWalletTransaction: "grows steady (insertWalletTransaction x)"
proof (rule growsI)
  fix s u s' assume "insertWalletTransaction x s = Inr (u, s')"
  then have s': "s' = s\<lparr>wallet_transactions := wallet_transactions s @ [x]\<rparr>" and new: "\<forall>y \<in> set (wallet_transactions s). t_id y \<noteq> t_id x"
    unfolding insertWalletTransaction_def by (auto simp: unused_iff)
  have "orders_ok s \<longrightarrow> orders_ok s'" by (rule orders_ok_grow) (use new in \<open>auto simp: s'\<close>)
  then show "steady s s'" by (intro steadyI) (auto simp: s' opEvolves_def orderEvolves_def)
qed

lemma steady_insertFundingEvent: "grows steady (insertFundingEvent op st m src)"
  unfolding insertFundingEvent_def numericT_def
  by (rule growsI, elim thenT_InrE, rule steadyI) (auto simp: uuidT_Inr opEvolves_def orderEvolves_def orders_ok_def linkedOrder_def)

lemma steady_insertAdjustment: "grows steady (insertAdjustment x)"
  unfolding insertAdjustment_def
  by (rule growsI, elim thenT_InrE, rule steadyI) (auto simp: opEvolves_def orderEvolves_def orders_ok_def linkedOrder_def)

lemma steady_updateWallet: "(\<And>w. w_id (g w) = w_id w) \<Longrightarrow> grows steady (updateWallet wid g)"
  by (rule growsI, drule updateWallet_Inr, rule steadyI) (auto simp: opEvolves_def orderEvolves_def map_update_where orders_ok_def linkedOrder_def)

lemma steady_updateWalletReturning: "(\<And>w. w_id (g w) = w_id w) \<Longrightarrow> grows steady (updateWalletReturning wid g)"
  unfolding updateWalletReturning_def by (intro steadily.rules steady_updateWallet)

lemma steady_insertOperation: "grows steady (insertOperation q)"
  by (rule growsI, drule insertOperation_Inr, rule steadyI) (auto simp: opEvolves_def orderEvolves_def image_iff eq_commute orders_ok_def linkedOrder_def)

lemma update_where_pairs:
  assumes "x \<in> set t" "\<And>y. R y y" "\<And>y. p y \<Longrightarrow> R y (g y)"
  shows "\<exists>y \<in> set (update_where p g t). R x y"
  using assms unfolding Bex_def in_update_where by (cases "p x") auto

lemma steady_operations:
  assumes "\<And>q. p q \<Longrightarrow> opEvolves q (g q)"
  shows "steady s (s\<lparr>operations := update_where p g (operations s)\<rparr>)"
proof (rule steadyI)
  show "\<forall>q \<in> set (operations s). \<exists>r \<in> set (operations (s\<lparr>operations := update_where p g (operations s)\<rparr>)). opEvolves q r"
    using assms by (auto intro!: update_where_pairs simp: opEvolves_def)
  show "\<forall>r \<in> set (operations (s\<lparr>operations := update_where p g (operations s)\<rparr>)). o_wallet r \<in> w_id ` set (wallets s) \<or>
      (\<exists>q \<in> set (operations s). o_wallet q = o_wallet r)"
  proof
    fix r assume "r \<in> set (operations (s\<lparr>operations := update_where p g (operations s)\<rparr>))"
    then obtain q where q: "q \<in> set (operations s)" "r = (if p q then g q else q)" by (auto simp: in_update_where)
    then have "o_wallet q = o_wallet r" using assms by (simp add: opEvolves_def)
    then show "o_wallet r \<in> w_id ` set (wallets s) \<or> (\<exists>q \<in> set (operations s). o_wallet q = o_wallet r)" using q(1) by blast
  qed
qed (auto simp: orderEvolves_def orders_ok_def linkedOrder_def)

lemma steady_updateOperation: "(\<And>q. opEvolves q (g q)) \<Longrightarrow> grows steady (updateOperation oid g)"
  by (rule growsI, drule updateOperation_Inr) (auto intro: steady_operations)

lemma steady_insertRecharge:
  assumes "ro_tx r = None"
  shows "grows steady (insertRecharge r)"
proof (rule growsI)
  fix s u s' assume "insertRecharge r s = Inr (u, s')"
  then have s': "s' = s\<lparr>recharge_orders := recharge_orders s @ [r]\<rparr>" and new: "\<forall>q \<in> set (recharge_orders s). ro_id q \<noteq> ro_id r" "rechargeChecks r"
    unfolding insertRecharge_def numericT_def by (auto simp: unused_iff)
  have "orders_ok s \<longrightarrow> orders_ok s'" using new assms by (auto simp: s' orders_ok_def linkedOrder_def)
  then show "steady s s'" by (intro steadyI) (auto simp: s' opEvolves_def orderEvolves_def)
qed

lemma steady_orders:
  assumes s': "s' = s\<lparr>recharge_orders := update_where p h (recharge_orders s)\<rparr>" and ev: "\<And>r. orderEvolves r (h r)"
    and ok: "orders_ok s \<Longrightarrow> \<forall>r \<in> set (recharge_orders s). p r \<longrightarrow> rechargeChecks (h r) \<and> linkedOrder s (h r)"
  shows "steady s s'"
proof -
  have 1: "\<forall>r \<in> set (recharge_orders s). \<exists>q \<in> set (recharge_orders s'). orderEvolves r q"
    using ev by (auto simp: s' intro!: update_where_pairs simp: orderEvolves_def)
  have "orders_ok s'" if o: "orders_ok s"
  proof -
    have "map ro_id (recharge_orders s') = map ro_id (recharge_orders s)"
      unfolding s' using ev by (simp add: map_update_where orderEvolves_def)
    moreover have "rechargeChecks r \<and> linkedOrder s' r" if "r \<in> set (recharge_orders s')" for r
    proof -
      from that obtain q where "q \<in> set (recharge_orders s)" "r = (if p q then h q else q)" by (auto simp: s' in_update_where)
      moreover have "linkedOrder s' r = linkedOrder s r" by (simp add: linkedOrder_def s')
      ultimately show ?thesis using ok [OF o] o unfolding orders_ok_def by metis
    qed
    ultimately show ?thesis using o by (simp add: orders_ok_def s')
  qed
  with 1 show ?thesis by (intro steadyI) (auto simp: s' opEvolves_def)
qed

text \<open>An update of orders that keeps their identity and their links.\<close>

definition orderUpdate :: "(RechargeOrder \<Rightarrow> RechargeOrder) \<Rightarrow> bool" where
  "orderUpdate g \<longleftrightarrow> (\<forall>r n. orderEvolves r (g r) \<and> ro_tx (g r) = ro_tx r \<and> ro_journal (g r) = ro_journal r \<and>
     rechargeChecks (g (r\<lparr>ro_updated := n\<rparr>)) = rechargeChecks (g r))"

lemma updateRecharge_Inr:
  "updateRecharge p g s = Inr (u, s') \<Longrightarrow> s' = s\<lparr>recharge_orders := update_where p (\<lambda>r. g (r\<lparr>ro_updated := clk s\<rparr>)) (recharge_orders s)\<rparr> \<and>
     (\<forall>r \<in> set (recharge_orders s). p r \<longrightarrow> rechargeChecks (g r))"
  unfolding updateRecharge_def by (auto simp: list_all_iff)

lemma steady_updateRecharge:
  assumes g: "orderUpdate g"
  shows "grows steady (updateRecharge p g)"
proof (rule growsI)
  fix s u s' assume "updateRecharge p g s = Inr (u, s')"
  note u = updateRecharge_Inr [OF this]
  have ev: "orderEvolves r (g (r\<lparr>ro_updated := clk s\<rparr>))" for r
    using g [unfolded orderUpdate_def, rule_format, of "r\<lparr>ro_updated := clk s\<rparr>"] by (simp add: orderEvolves_def)
  have "rechargeChecks (g (r\<lparr>ro_updated := clk s\<rparr>)) \<and> linkedOrder s (g (r\<lparr>ro_updated := clk s\<rparr>))"
    if "orders_ok s" "r \<in> set (recharge_orders s)" "p r" for r
  proof -
    have "ro_tx (g (r\<lparr>ro_updated := clk s\<rparr>)) = ro_tx r" "ro_journal (g (r\<lparr>ro_updated := clk s\<rparr>)) = ro_journal r"
      using g [unfolded orderUpdate_def, rule_format, of "r\<lparr>ro_updated := clk s\<rparr>"] by simp_all
    moreover have "linkedOrder s r" using that by (simp add: orders_ok_def)
    ultimately show ?thesis using ev [of r] u that g by (simp add: linkedOrder_def orderEvolves_def orderUpdate_def)
  qed
  then show "steady s s'" using u by (intro steady_orders [where h = "\<lambda>r. g (r\<lparr>ro_updated := clk s\<rparr>)"] ev) auto
qed

lemma steady_appends:
  assumes "appends s j es s'" "j_reversal_of j = None" "references s \<longrightarrow> (\<forall>e \<in> set es. e_account e \<in> a_id ` set (ledger_accounts s))"
  shows "steady s s'"
proof -
  note a = appendsD [OF assms(1)]
  from assms(1) obtain n where s': "s' = s\<lparr>rng_pos := n, journals := journals s @ [j], entries := entries s @ es\<rparr>" by (auto simp: appends_def)
  have key: "accountKey s' = accountKey s" by (simp add: fun_eq_iff accountKey_def accountOf_def a(3))
  have rev: "isReversal s' jid = isReversal s jid" for jid
    using a(5) assms(2) by (auto simp: isReversal_def a(1) list_ex_iff)
  have new: "\<not> isReversal s (e_journal e)" if "e \<in> set es" for e
    using a(5,6) that by (auto simp: isReversal_def list_ex_iff)
  have "strayReserved s' wid = strayReserved s wid" for wid
    unfolding strayReserved_def key rev a(2) column_sum_append by (subst (2) column_sum_zero) (use new in auto)
  moreover have "evolves s s'" using appends_extends [OF assms(1)] assms(3)
      orders_ok_grow [of s' s]
    by (auto simp: evolves_def s' references_def opEvolves_def orderEvolves_def)
  ultimately show ?thesis by (auto simp: steady_def)
qed

lemma steady_post: "grows steady (postLinkedJournalTx w ty k cur ref rc rf jlines)" "grows steady (postJournalTx w ty k cur ref jlines)"
proof -
  show "grows steady (postLinkedJournalTx w ty k cur ref rc rf jlines)" for rc rf
  proof (rule growsI)
    fix s jid s' assume "postLinkedJournalTx w ty k cur ref rc rf jlines s = Inr (jid, s')"
    then obtain es j where a: "appends s j es s'" and es: "list_all2 (records_line (ledger_accounts s) jid) jlines es" and j: "j_reversal_of j = None"
      by (rule post_appends)
    have "e_account e \<in> a_id ` set (ledger_accounts s)" if "e \<in> set es" for e
      using es that by (auto simp: list_all2_conv_all_nth in_set_conv_nth records_line_def image_iff) (metis nth_mem)
    then show "steady s s'" using a j by (blast intro: steady_appends)
  qed
  then show "grows steady (postJournalTx w ty k cur ref jlines)" unfolding postJournalTx_def .
qed

lemma steady_modifyT: "(\<And>s. hist_tables (g s) = hist_tables s) \<Longrightarrow> grows steady (modifyT g)"
  by (rule hist_kept) (rule frame)

lemmas steady_statements = steady_writeAuditTx steady_insertWalletTransaction steady_insertFundingEvent steady_insertAdjustment
  steady_updateWallet steady_updateWalletReturning steady_insertOperation steady_updateOperation steady_insertRecharge steady_updateRecharge
  steady_post hist_frame [THEN hist_kept]

section \<open>Operations\<close>

lemma steady_funding:
  "grows steady (ReserveFunding rq)" "grows steady (SettleFunding st)" "grows steady (AdjustLateFundingUsage lu)"
  "grows steady (ReverseFunding oid key reason actor)" "grows steady (BeginFundingAttempt oid p c b)"
  unfolding ReserveFunding_def placeReservation_def SettleFunding_def writeSettlement_def settlementJournal_def releaseJournal_def
    settleWallet_def settleOperation_def settlementCharge_def AdjustLateFundingUsage_def writeAdjustment_def applyDifference_def
    adjustmentJournal_def ReverseFunding_def writeReversal_def BeginFundingAttempt_def applyByokPolicy_def Let_def
  by (intro steadily.rules steady_statements;
      simp add: opEvolves_def settledWallet_def adjustedWallet_def settledOperation_def correctedOperation_def settlementStatus_def isFundingTerminal_def Let_def)+

lemma steady_HeartbeatFunding: "grows steady (HeartbeatFunding oid n)"
  unfolding HeartbeatFunding_def
  by (rule growsI, elim thenT_InrE) (auto intro!: steady_operations simp: opEvolves_def)

lemma steady_FinishFundingAttempt: "grows steady (FinishFundingAttempt aid st)"
  unfolding FinishFundingAttempt_def by (intro steadily.rules steady_modifyT) (simp add: hist_tables_def)

lemma steady_settleStale: "steady s (snd (snd (settleStale items n s)))"
proof (induction items n s rule: settleStale.induct)
  case (1 n s)
  show ?case using steadily.refl by simp
next
  case (2 item items n s)
  have "steady s (snd (commit (SettleFunding (recoveryRequest item)) s))" by (rule steadily.committed) (rule steady_funding)
  then show ?case using 2 steadily.trans
    by (cases "commit (SettleFunding (recoveryRequest item)) s") (auto split: sum.splits intro: steadily.trans)
qed

lemma steady_RecoverStaleFunding: "steady s (snd (snd (RecoverStaleFunding before limit s)))"
  unfolding RecoverStaleFunding_def Let_def
  by (rule steadily.trans [OF steady_operations steady_settleStale]) (simp add: opEvolves_def)

lemma steady_wallets: "grows steady (CreateWalletTransaction tr)" "grows steady (UpdateWallet wa)"
  unfolding CreateWalletTransaction_def writeTransaction_def UpdateWallet_def Let_def
  by (intro steadily.rules steady_statements; simp)+

lemma steady_payments:
  "grows steady (CreateRechargeOrder sha cr)" "grows steady (StartPaymentAttempt oid op)"
  "grows steady (FinishPaymentAttempt aid st pno)" "grows steady (MarkRechargePending oid pno)"
  "grows steady (MarkRechargeFailed oid code)" "grows steady (ApplyPaymentQueryResult oid res actor)"
  "grows steady (MarkRechargePaid oid ev actor)" "grows steady (ExpireRechargeOrders now limit)"
  "grows steady (MarkRechargeProviderClosed oid)" "grows steady (CreateRefundOrder rq)"
  "grows steady (MarkRefundPending rid pno)" "grows steady (FailRefund rid code)"
  "grows steady (RecordReconciliation order key result actor)" "grows steady (RecordReconciliationFailure order key code details)"
  "grows steady (RecordVerifiedPaymentWebhook provider v h)" "grows steady (CompleteRefund rid pno)"
  unfolding CreateRechargeOrder_def placeRecharge_def bindTarget_def StartPaymentAttempt_def FinishPaymentAttempt_def
    MarkRechargePending_def MarkRechargeFailed_def ApplyPaymentQueryResult_def MarkRechargePaid_def payOrder_def failOrder_def
    ExpireRechargeOrders_def MarkRechargeProviderClosed_def rechargesAffected_def CreateRefundOrder_def placeRefund_def refundAuthorized_def
    MarkRefundPending_def FailRefund_def RecordReconciliation_def RecordReconciliationFailure_def
    RecordVerifiedPaymentWebhook_def replayWebhook_def firstWebhook_def applyWebhook_def applyChargebackTx_def
    CompleteRefund_def completeRefundWrites_def Let_def
  by (intro steadily.rules steady_statements steady_modifyT; simp add: orderUpdate_def orderEvolves_def hist_tables_def rechargeChecks_def)+

text \<open>The credit of an order: its links are the transaction and the journal just written.\<close>

definition creditTransaction :: "RechargeOrder \<Rightarrow> string \<Rightarrow> string \<Rightarrow> money \<Rightarrow> int \<Rightarrow> WalletTransaction" where
  "creditTransaction order tid jid balance now = \<lparr>t_id = tid, t_wallet = ro_wallet order, t_type = TOPUP, t_amount = ro_amount order,
     t_balance_after = balance, t_key = Some (''recharge:'' @ ro_id order), t_reference = Some (ro_platform_no order), t_journal = Some jid,
     t_operation = None, t_recharge = Some (ro_id order), t_refund = None, t_created = now\<rparr>"

lemma creditOrder_Inr:
  assumes "creditOrder order s = Inr (u, s')"
  obtains w s1 s2 jid s3 s4 tid s5 s6 now where
    "updateWalletReturning (ro_wallet order) (\<lambda>v. v\<lparr>w_available := w_available v + ro_amount order, w_version := w_version v + 1\<rparr>) s = Inr (w, s1)"
    "postLinkedJournalTx (ro_wallet order) J_PAYMENT_CREDIT (''recharge:'' @ ro_id order) (ro_currency order) (ro_platform_no order) (Some (ro_id order)) None
        [\<lparr>jl_key = systemAccountKey ''cash'' (ro_currency order), jl_side = DEBIT, jl_amount = ro_amount order\<rparr>,
         \<lparr>jl_key = walletAccountKey (ro_wallet order) ''available'', jl_side = CREDIT, jl_amount = ro_amount order\<rparr>] s1 = Inr (jid, s2)"
    "uuidT s2 = Inr (tid, s3)" "insertWalletTransaction (creditTransaction order tid jid (w_available w) now) s3 = Inr ((), s4)"
    "createCashLotTx (ro_wallet order) (ro_id order) tid LotRECHARGE (ro_platform_no order) (ro_amount order) (ro_currency order) True s4 = Inr ((), s5)"
    "updateRecharge (\<lambda>r. ro_id r = ro_id order) (\<lambda>r. r\<lparr>ro_status := R_CREDITED, ro_tx := Some tid, ro_journal := Some jid,
              ro_credited_at := Some now\<rparr>) s5 = Inr ((), s6)"
    "thenT (enqueueProviderAllocationTx order) (writeAuditTx None ''payment.recharge_credited'' (ro_id order)) s6 = Inr (u, s')"
  using assms unfolding creditOrder_def creditTransaction_def
  by (elim bindT_InrE thenT_InrE [of "rowT _ _"] thenT_InrE [of "unlessT _ _"] thenT_InrE [of "insertWalletTransaction _"]
        thenT_InrE [of "createCashLotTx _ _ _ _ _ _ _ _"] thenT_InrE [of "updateRecharge _ _"]) simp

lemma steady_creditOrder:
  assumes m: "creditOrder order s = Inr (u, s')" and row: "order \<in> set (recharge_orders s)"
  shows "steady s s'"
proof -
  from m obtain w s1 s2 jid s3 s4 tid s5 s6 now where
    1: "updateWalletReturning (ro_wallet order) (\<lambda>v. v\<lparr>w_available := w_available v + ro_amount order, w_version := w_version v + 1\<rparr>) s = Inr (w, s1)"
    and 2: "postLinkedJournalTx (ro_wallet order) J_PAYMENT_CREDIT (''recharge:'' @ ro_id order) (ro_currency order) (ro_platform_no order) (Some (ro_id order)) None
        [\<lparr>jl_key = systemAccountKey ''cash'' (ro_currency order), jl_side = DEBIT, jl_amount = ro_amount order\<rparr>,
         \<lparr>jl_key = walletAccountKey (ro_wallet order) ''available'', jl_side = CREDIT, jl_amount = ro_amount order\<rparr>] s1 = Inr (jid, s2)"
    and 3: "uuidT s2 = Inr (tid, s3)" and 4: "insertWalletTransaction (creditTransaction order tid jid (w_available w) now) s3 = Inr ((), s4)"
    and 5: "createCashLotTx (ro_wallet order) (ro_id order) tid LotRECHARGE (ro_platform_no order) (ro_amount order) (ro_currency order) True s4 = Inr ((), s5)"
    and 6: "updateRecharge (\<lambda>r. ro_id r = ro_id order) (\<lambda>r. r\<lparr>ro_status := R_CREDITED, ro_tx := Some tid, ro_journal := Some jid,
              ro_credited_at := Some now\<rparr>) s5 = Inr ((), s6)"
    and 7: "thenT (enqueueProviderAllocationTx order) (writeAuditTx None ''payment.recharge_credited'' (ro_id order)) s6 = Inr (u, s')"
    by (rule creditOrder_Inr)
  have "steady s s1" by (rule growsD [rotated], rule 1, intro steady_statements) simp
  also have "steady s1 s2" by (rule growsD [rotated], rule 2, intro steady_statements)
  also (steadily.trans) have "steady s2 s3" by (rule growsD [rotated], rule 3, intro steady_statements)
  also (steadily.trans) have "steady s3 s4" by (rule growsD [rotated], rule 4, intro steady_statements)
  also (steadily.trans) have "steady s4 s5" by (rule growsD [rotated], rule 5, intro steady_statements)
  finally (steadily.trans) have "steady s s5" .
  moreover have "steady s5 s6"
  proof -
    have a: "recharge_orders s1 = recharge_orders s" by (rule keepsD [rotated], rule 1, rule keeps_updateWalletReturning) simp
    from 2 obtain es jn where b: "appends s1 jn es s2" "j_id jn = jid" by (rule post_appends)
    have c: "s4 = s3\<lparr>wallet_transactions := wallet_transactions s3 @ [creditTransaction order tid jid (w_available w) now]\<rparr>"
      using 4 unfolding insertWalletTransaction_def by auto
    have d: "hist_tables s5 = hist_tables s4" by (rule keepsD [rotated], rule 5, rule hist_frame)
    have jn: "jn \<in> set (journals s5)" "j_posted jn" using b c d 3 by (auto simp: appends_def uuidT_Inr hist_tables_def)
    have tx: "creditTransaction order tid jid (w_available w) now \<in> set (wallet_transactions s5)" using c d by (simp add: hist_tables_def)
    have rows: "recharge_orders s5 = recharge_orders s" using a b c d 3 by (auto simp: appends_def uuidT_Inr hist_tables_def)
    note u = updateRecharge_Inr [OF 6]
    show ?thesis
    proof (rule steady_orders [OF conjunct1 [OF u]])
      assume "orders_ok s5"
      then have uniq: "r = order" if "r \<in> set (recharge_orders s5)" "ro_id r = ro_id order" for r
        using that row rows by (auto simp: orders_ok_def distinct_map inj_on_def)
      show "\<forall>r \<in> set (recharge_orders s5). ro_id r = ro_id order \<longrightarrow> rechargeChecks (r\<lparr>ro_updated := clk s5, ro_status := R_CREDITED, ro_tx := Some tid,
           ro_journal := Some jid, ro_credited_at := Some now\<rparr>) \<and> linkedOrder s5 (r\<lparr>ro_updated := clk s5, ro_status := R_CREDITED, ro_tx := Some tid,
           ro_journal := Some jid, ro_credited_at := Some now\<rparr>)"
      proof (intro ballI impI conjI)
        fix r assume r: "r \<in> set (recharge_orders s5)" "ro_id r = ro_id order"
        then show "rechargeChecks (r\<lparr>ro_updated := clk s5, ro_status := R_CREDITED, ro_tx := Some tid, ro_journal := Some jid, ro_credited_at := Some now\<rparr>)"
          using u by (auto simp: rechargeChecks_def)
        show "linkedOrder s5 (r\<lparr>ro_updated := clk s5, ro_status := R_CREDITED, ro_tx := Some tid, ro_journal := Some jid, ro_credited_at := Some now\<rparr>)"
          unfolding linkedOrder_def using uniq [OF r] tx jn b(2)
          by (intro disjI2 bexI [OF _ tx] bexI [OF _ jn(1)]) (simp add: creditTransaction_def)
      qed
    qed (simp add: orderEvolves_def)
  qed
  moreover have "steady s6 s'" by (rule growsD [rotated], rule 7, intro steadily.rules steady_statements)
  ultimately show ?thesis by (blast intro: steadily.trans)
qed

lemma steady_CreditPaidRecharge: "grows steady (CreditPaidRecharge oid)"
proof (rule growsI)
  fix s x s' assume m: "CreditPaidRecharge oid s = Inr (x, s')"
  from m obtain order where order: "rechargeById oid s = Some order" unfolding CreditPaidRecharge_def by auto
  then have row: "order \<in> set (recharge_orders s)" by (auto dest: rechargeById_SomeD)
  from m order have "s' = s \<or> (\<exists>u. creditOrder order s = Inr (u, s'))"
    unfolding CreditPaidRecharge_def by (auto split: if_splits)
  then show "steady s s'" using steady_creditOrder row steadily.refl by blast
qed

section \<open>Reversals and runs\<close>

lemma evolves_reverse: "grows evolves (reverseJournalForCase c src key reason)"
proof (rule growsI)
  fix s rid s'
  assume rv: "reverseJournalForCase c src key reason s = Inr (rid, s')"
  from rv obtain journal s1 where m: "postMirror c journal key reason s = Inr (rid, s1)"
    and w: "case j_wallet journal of None \<Rightarrow> s' = s1 | Some wid \<Rightarrow> applyReversal c wid src rid key reason s1 = Inr ((), s')"
    by (rule reverse_Inr)
  from m obtain es j where ap: "appends s j es s1"
    and es: "list_all2 (mirrors rid) (sort_key e_id (filter (\<lambda>e. e_journal e = j_id journal) (entries s))) es"
    by (rule postMirror_appends)
  have acc: "e_account f \<in> a_id ` set (ledger_accounts s)" if "references s" "f \<in> set es" for f
  proof -
    from es that(2) obtain e where "e \<in> set (sort_key e_id (filter (\<lambda>e. e_journal e = j_id journal) (entries s)))" "mirrors rid e f"
      by (metis in_set_conv_nth list_all2_conv_all_nth)
    then show ?thesis using that(1) by (simp add: references_def mirrors_def)
  qed
  from ap obtain n where s1: "s1 = s\<lparr>rng_pos := n, journals := journals s @ [j], entries := entries s @ es\<rparr>" by (auto simp: appends_def)
  have 1: "evolves s s1" using appends_extends [OF ap] acc orders_ok_grow [of s1 s]
    by (auto simp: evolves_def s1 references_def opEvolves_def orderEvolves_def)
  have st: "grows steady (applyReversal c wid src rid key reason)" for wid
    unfolding applyReversal_def attributeReversal_def by (intro steadily.rules steady_statements; simp add: reversedWallet_def)
  have "evolves s1 s'" using w growsD [OF st] by (cases "j_wallet journal") (auto simp: steady_def evolves_refl)
  with 1 show "evolves s s'" by (rule evolves_trans)
qed

lemma evolves_steady: "grows steady m \<Longrightarrow> grows evolves m"
  by (auto simp: grows_def steady_def)

lemma resolution_steady: "grows steady (insertResolution r)" "grows steady (setCaseStatus cid st actor reason)"
  by (rule hist_kept, rule resolution_frame; simp add: hist_tables_def)+

lemma evolves_Resolve: "grows evolves (ResolveReconciliationCase cid action src reason key actor)"
  unfolding ResolveReconciliationCase_def resolveCase_def Let_def
  by (intro evolving.rules evolves_reverse evolves_steady [OF steady_writeAuditTx] evolves_steady [OF resolution_steady(1)]
        evolves_steady [OF resolution_steady(2)] evolves_steady [OF hist_frame(1) [THEN hist_kept]])

lemma steady_tagT: "grows steady m \<Longrightarrow> grows steady (tagT code m)"
  by (auto simp: grows_def tagT_def split: sum.splits)

lemma steady_run:
  "grows steady (claimRun date trigger actor)" "grows steady (failFinancialReconciliationRun rid code)" "grows steady (snapshotTx checks run day actor)"
proof -
  have b: "recon_blind hist_tables" by (simp add: recon_blind_def hist_tables_def)
  show "grows steady (claimRun date trigger actor)" "grows steady (failFinancialReconciliationRun rid code)"
    by (rule hist_kept, rule run_frame [OF b])+
  show "grows steady (snapshotTx checks run day actor)"
    unfolding snapshotTx_def
    by (intro steadily.rules steady_tagT steady_writeAuditTx hist_kept [OF keeps_runChecks [OF b]] hist_kept [OF run_frame(5) [OF b]])
qed

lemma steady_RunFinancialReconciliation: "steady s (snd (RunFinancialReconciliation checks day trigger actor s))"
proof -
  let ?m = "claimRun (isoDate (day div 86400)) (ToUpper (TrimSpace trigger)) actor"
  obtain r s1 where m: "commit ?m s = (r, s1)" by fastforce
  then have 1: "steady s s1" using steadily.committed [OF steady_run(1)] by (metis snd_conv)
  have 2: "steady s1 (snd (commit (failFinancialReconciliationRun a b) s1))" for a b by (rule steadily.committed) (rule steady_run)
  have 3: "steady s1 s2" if "snapshotTx checks run (day div 86400) actor s1 = Inr (x, s2)" for run x s2 using growsD [OF steady_run(3) that] .
  show ?thesis
  proof (cases "\<exists>run. r = Inr (run, False)")
    case True
    then obtain run where r: "r = Inr (run, False)" by blast
    show ?thesis using steadily.trans [OF 1 2] steadily.trans [OF 1 3] steadily.refl
      by (auto simp: RunFinancialReconciliation_def Let_def m r split: sum.splits)
  next
    case False
    then show ?thesis using 1 steadily.refl
      by (auto simp: RunFinancialReconciliation_def Let_def m split: sum.splits prod.splits bool.splits)
  qed
qed

end
