(* ===== verification/System.thy ===== *)
theory System
  imports History
begin

text \<open>
  The store as a state machine: \<open>step\<close> has one rule per operation, each a committed transaction, and
  \<open>reachable\<close> are the states that any sequence of operations reaches from an empty database. What
  holds of them is proved by induction over the steps: the books (\<open>books_ok\<close>), the cash lots
  (\<open>cash_state\<close>), the references and the links of credited orders.
\<close>

section \<open>A new wallet\<close>

lemma ensureAccount_Inr:
  assumes "ensureAccount key side cur s = Inr (u, s')"
  shows "\<exists>n as. s' = s\<lparr>rng_pos := n, ledger_accounts := ledger_accounts s @ as\<rparr> \<and>
     (as = [] \<or> (\<exists>a. as = [a] \<and> a_key a = key \<and> a_normal a = side \<and> (\<forall>b \<in> set (ledger_accounts s). a_key b \<noteq> key \<and> a_id b \<noteq> a_id a)))"
proof (cases "list_ex (\<lambda>a. a_key a = key) (ledger_accounts s)")
  case True
  then have "s' = s\<lparr>rng_pos := Suc (rng_pos s)\<rparr>" using assms unfolding ensureAccount_def by (auto simp: uuidT_Inr whenT_Inr)
  then show ?thesis by (intro exI [of _ "Suc (rng_pos s)"] exI [of _ "[]"]) simp
next
  case False
  let ?a = "\<lparr>a_id = rng s (rng_pos s), a_key = key, a_currency = cur, a_active = True, a_normal = side\<rparr>"
  have "s' = s\<lparr>rng_pos := Suc (rng_pos s), ledger_accounts := ledger_accounts s @ [?a]\<rparr>" "\<forall>a \<in> set (ledger_accounts s). a_id a \<noteq> rng s (rng_pos s)"
    using assms False unfolding ensureAccount_def by (auto simp: uuidT_Inr whenT_Inr unused_iff)
  then show ?thesis using False
    by (intro exI [of _ "Suc (rng_pos s)"] exI [of _ "[?a]"]) (auto simp: list_ex_iff)
qed

lemma ensureAccounts_Inr:
  assumes "forT keys (\<lambda>(key, side). ensureAccount key side cur) s = Inr (u, s')"
  shows "\<exists>n as. s' = s\<lparr>rng_pos := n, ledger_accounts := ledger_accounts s @ as\<rparr> \<and>
     (distinct (map a_id (ledger_accounts s)) \<longrightarrow> distinct (map a_id (ledger_accounts s @ as))) \<and>
     (distinct (map a_key (ledger_accounts s)) \<longrightarrow> distinct (map a_key (ledger_accounts s @ as))) \<and>
     (\<forall>a \<in> set as. (a_key a, a_normal a) \<in> set keys)"
  using assms
proof (induction keys arbitrary: s)
  case Nil
  then show ?case by (intro exI [of _ "rng_pos s"] exI [of _ "[]"]) auto
next
  case (Cons k keys)
  obtain key side where k: "k = (key, side)" by fastforce
  from Cons.prems obtain v t where 1: "ensureAccount key side cur s = Inr (v, t)"
    and 2: "forT keys (\<lambda>(key, side). ensureAccount key side cur) t = Inr (u, s')"
    by (auto simp: k)
  from ensureAccount_Inr [OF 1] obtain n as where t: "t = s\<lparr>rng_pos := n, ledger_accounts := ledger_accounts s @ as\<rparr>"
    and as: "as = [] \<or> (\<exists>a. as = [a] \<and> a_key a = key \<and> a_normal a = side \<and> (\<forall>b \<in> set (ledger_accounts s). a_key b \<noteq> key \<and> a_id b \<noteq> a_id a))"
    by blast
  from Cons.IH [OF 2] obtain m bs where s': "s' = t\<lparr>rng_pos := m, ledger_accounts := ledger_accounts t @ bs\<rparr>"
    and d: "distinct (map a_id (ledger_accounts t)) \<longrightarrow> distinct (map a_id (ledger_accounts t @ bs))"
      "distinct (map a_key (ledger_accounts t)) \<longrightarrow> distinct (map a_key (ledger_accounts t @ bs))" "\<forall>a \<in> set bs. (a_key a, a_normal a) \<in> set keys"
    by blast
  have "distinct (map a_id (ledger_accounts s)) \<longrightarrow> distinct (map a_id (ledger_accounts t))"
    "distinct (map a_key (ledger_accounts s)) \<longrightarrow> distinct (map a_key (ledger_accounts t))" using as by (auto simp: t)
  then have "distinct (map a_id (ledger_accounts s)) \<longrightarrow> distinct (map a_id (ledger_accounts s @ as @ bs))"
    "distinct (map a_key (ledger_accounts s)) \<longrightarrow> distinct (map a_key (ledger_accounts s @ as @ bs))"
    using d(1,2) by (simp_all only: t, simp_all)
  moreover have "\<forall>a \<in> set (as @ bs). (a_key a, a_normal a) \<in> set (k # keys)" using as d(3) by (auto simp: k)
  moreover have "s' = s\<lparr>rng_pos := m, ledger_accounts := ledger_accounts s @ as @ bs\<rparr>" by (simp add: s' t)
  ultimately show ?case by blast
qed

text \<open>Either the organization has a wallet, or it gets one with its accounts.\<close>

definition walletKeys :: "Wallet \<Rightarrow> (string \<times> EntrySide) set" where
  "walletKeys w = {(systemAccountKey ''cash'' (w_currency w), DEBIT), (systemAccountKey ''revenue'' (w_currency w), CREDIT),
      (systemAccountKey ''migration-equity'' (w_currency w), CREDIT), (systemAccountKey ''adjustment-equity'' (w_currency w), CREDIT),
      (availableKey (w_id w), CREDIT), (reservedKey (w_id w), CREDIT)}"

lemma createOrganizationWallet_Inr:
  assumes "createOrganizationWallet org s = Inr (u, s')"
  obtains (exists) n where "s' = s\<lparr>rng_pos := n\<rparr>"
  | (created) n w as where "s' = s\<lparr>rng_pos := n, wallets := wallets s @ [w], ledger_accounts := ledger_accounts s @ as\<rparr>"
      "w = newWallet (rng s (rng_pos s)) org" "\<forall>v \<in> set (wallets s). w_id v \<noteq> w_id w"
      "distinct (map a_id (ledger_accounts s)) \<longrightarrow> distinct (map a_id (ledger_accounts s @ as))"
      "distinct (map a_key (ledger_accounts s)) \<longrightarrow> distinct (map a_key (ledger_accounts s @ as))"
      "\<forall>a \<in> set as. (a_key a, a_normal a) \<in> walletKeys w"
proof (cases "walletByOrg org s")
  case (Some v)
  then have "s' = s\<lparr>rng_pos := Suc (rng_pos s)\<rparr>"
    using assms unfolding createOrganizationWallet_def by (auto simp: uuidT_Inr whenT_Inr walletByOrg_def)
  then show thesis by (rule exists)
next
  case None
  define w where "w = newWallet (rng s (rng_pos s)) org"
  define t where "t = s\<lparr>rng_pos := Suc (rng_pos s), wallets := wallets s @ [w]\<rparr>"
  from assms None have c: "createWalletAccounts w t = Inr (u, s')" and fresh: "\<forall>v \<in> set (wallets s). w_id v \<noteq> w_id w"
    unfolding createOrganizationWallet_def w_def t_def
    by (auto simp: uuidT_Inr whenT_Inr walletByOrg_def unused_iff newWallet_def simp del: forT.simps)
  have keys: "set [(systemAccountKey ''cash'' (w_currency w), DEBIT), (systemAccountKey ''revenue'' (w_currency w), CREDIT),
      (systemAccountKey ''migration-equity'' (w_currency w), CREDIT), (systemAccountKey ''adjustment-equity'' (w_currency w), CREDIT),
      (walletAccountKey (w_id w) ''available'', CREDIT), (walletAccountKey (w_id w) ''reserved'', CREDIT)] = walletKeys w"
    by (simp only: walletKeys_def key_abbrev list.set)
  from ensureAccounts_Inr [OF c [unfolded createWalletAccounts_def]] obtain n as where
    "s' = t\<lparr>rng_pos := n, ledger_accounts := ledger_accounts t @ as\<rparr>"
    "distinct (map a_id (ledger_accounts t)) \<longrightarrow> distinct (map a_id (ledger_accounts t @ as))"
    "distinct (map a_key (ledger_accounts t)) \<longrightarrow> distinct (map a_key (ledger_accounts t @ as))"
    "\<forall>a \<in> set as. (a_key a, a_normal a) \<in> walletKeys w"
    unfolding keys by blast
  then show thesis by (intro created [where n = n and w = w and as = as]) (use fresh in \<open>auto simp: t_def w_def\<close>)
qed

text \<open>The accounts of a new wallet carry no entry.\<close>

lemma accounts_extend:
  assumes "references s" "ledger_accounts s' = ledger_accounts s @ as" "journals s' = journals s" "entries s' = entries s"
  shows "\<And>e. e \<in> set (entries s) \<Longrightarrow> accountOf s' e = accountOf s e" "ledgerBalance s' = ledgerBalance s" "strayReserved s' = strayReserved s"
proof -
  show acc: "accountOf s' e = accountOf s e" if "e \<in> set (entries s)" for e
  proof -
    have "\<exists>a \<in> set (ledger_accounts s). a_id a = e_account e" using assms(1) that unfolding references_def by (metis imageE)
    then have "find (\<lambda>a. a_id a = e_account e) (ledger_accounts s) \<noteq> None" by (auto simp: find_None_iff)
    then show ?thesis by (auto simp: accountOf_def assms(2) find_append split: option.splits)
  qed
  have "entryOn s' key e = entryOn s key e" "signedEntry s' e = signedEntry s e" if "e \<in> set (entries s)" for key e
    using acc [OF that] by (simp_all add: entryOn_def signedEntry_def journalPosted_def assms(3))
  then show "ledgerBalance s' = ledgerBalance s"
    unfolding fun_eq_iff ledgerBalance_def assms(4) by (intro allI column_sum_cong) auto
  show "strayReserved s' = strayReserved s"
    unfolding fun_eq_iff strayReserved_def assms(4)
    by (intro allI column_sum_cong) (auto simp: accountKey_def acc isReversal_def assms(3))
qed

lemma no_entries:
  assumes "references s" "v \<notin> w_id ` set (wallets s)"
  shows "ledgerBalance s (availableKey v) = 0" "ledgerBalance s (reservedKey v) = 0" "strayReserved s v = 0" "heldMaximum v (operations s) = 0"
proof -
  have none: "accountKey s e \<noteq> Some (availableKey v)" "accountKey s e \<noteq> Some (reservedKey v)" for e
    using assms by (auto simp: references_def accountKey_def accountOf_def dest!: find_SomeD)
  show "ledgerBalance s (availableKey v) = 0" "ledgerBalance s (reservedKey v) = 0"
    unfolding ledgerBalance_def entryOn_def using none by (auto intro!: column_sum_zero simp: accountKey_def)
  show "strayReserved s v = 0" unfolding strayReserved_def using none by (auto intro!: column_sum_zero)
  show "heldMaximum v (operations s) = 0"
    unfolding heldMaximum_def using assms by (auto intro!: column_sum_zero simp: references_def)
qed

lemma createOrganizationWallet_evolves: "grows evolves (createOrganizationWallet org)"
proof (rule growsI)
  fix s u s' assume "createOrganizationWallet org s = Inr (u, s')"
  then show "evolves s s'"
  proof (cases rule: createOrganizationWallet_Inr)
    case (exists n)
    then have "steady s s'" by (intro steady_same) (simp add: hist_tables_def)
    then show ?thesis by (simp add: steady_def)
  next
    case (created n w as)
    have "ledger_extends s s'" unfolding ledger_extends_def using created(1)
      by (intro exI [of _ as] exI [of _ "[]"]) simp
    moreover have "references s'" if r: "references s"
    proof -
      have "v = w_id w" if "a \<in> set as" "a_key a = availableKey v \<or> a_key a = reservedKey v" for a v
      proof -
        from created(6) that(1) have "(a_key a, a_normal a) \<in> walletKeys w" by blast
        then show ?thesis using that(2) by (auto simp: walletKeys_def)
      qed
      then show ?thesis using r by (auto simp: references_def created(1))
    qed
    moreover have "orders_ok s \<longrightarrow> orders_ok s'" by (rule orders_ok_grow) (simp_all add: created(1))
    ultimately show ?thesis by (auto simp: evolves_def created(1) opEvolves_def orderEvolves_def)
  qed
qed

lemma createOrganizationWallet_books:
  assumes b: "books_ok s" and r: "references s" and rng: "\<forall>n. rng s n \<noteq> []" and m: "createOrganizationWallet org s = Inr (u, s')"
  shows "books_ok s'"
  using m
proof (cases rule: createOrganizationWallet_Inr)
  case (exists n)
  then have "money_tables s' = money_tables s" by (simp add: money_tables_def)
  then show ?thesis using b by (rule books_ok_frame)
next
  case (created n w as)
  have same: "ledger_accounts s' = ledger_accounts s @ as" "journals s' = journals s" "entries s' = entries s" "operations s' = operations s"
    "wallets s' = wallets s @ [w]" by (simp_all add: created(1))
  note ext = accounts_extend [OF r same(1-3)]
  have new: "w_id w \<notin> w_id ` set (wallets s)" using created(3) by force
  have "w_id w \<noteq> []" using created(2) rng by (simp add: newWallet_def)
  note zero = no_entries [OF r new]
  have wf: "tables_wf s" using b by (simp add: books_ok_def balanced_def books_def)
  have key: "accountKey s' e = accountKey s e" if "e \<in> set (entries s)" for e using ext(1) [OF that] by (simp add: accountKey_def)
  have side: "normalSide s' k = CREDIT" if k: "k = availableKey v \<or> k = reservedKey v" for k v
  proof (cases "find (\<lambda>a. a_key a = k) (ledger_accounts s)")
    case (Some a)
    have "normalSide s k = CREDIT" using wf k by (auto simp: tables_wf_def)
    then show ?thesis using Some by (simp add: normalSide_def same(1) find_append)
  next
    case None
    show ?thesis
    proof (cases "find (\<lambda>a. a_key a = k) as")
      case (Some a)
      then have "a \<in> set as" "a_key a = k" by (auto dest: find_SomeD)
      then have "(k, a_normal a) \<in> walletKeys w" using created(6) by blast
      then show ?thesis using k None Some by (auto simp: walletKeys_def normalSide_def same(1) find_append)
    qed (simp add: None normalSide_def same(1) find_append)
  qed
  have "ledger_wf s'" using wf created(4,5) by (simp add: tables_wf_def ledger_wf_def same(1-3))
  moreover have "journals_balanced s' = journals_balanced s" by (simp add: journals_balanced_def same)
  then have "journals_balanced s'" using wf by (simp add: tables_wf_def)
  moreover have "distinct (map o_id (operations s'))" "\<forall>q \<in> set (operations s'). inFlight q \<longrightarrow> o_settled q = 0"
    using wf by (simp_all add: tables_wf_def same)
  moreover have "scoped s'" using wf key unfolding tables_wf_def scoped_def same(2,3) by auto
  moreover have "distinct (map w_id (wallets s'))" "[] \<notin> set (map w_id (wallets s'))"
    using wf new \<open>w_id w \<noteq> []\<close> by (auto simp: tables_wf_def same(5))
  ultimately have "tables_wf s'" using side unfolding tables_wf_def by blast
  moreover have "w_available v = 0" "w_reserved v = 0" if "v = w" for v using that created(2) by (simp_all add: newWallet_def)
  ultimately show ?thesis
    using b zero unfolding books_ok_def balanced_def books_def same(4,5) ext(2,3) by (auto simp: off_def)
qed

section \<open>The calls\<close>

datatype call =
    CallCreateOrganization string
  | CallReserve FundingReservationRequest
  | CallSettle FundingSettlementRequest
  | CallHeartbeat string int
  | CallBeginAttempt string string string bool
  | CallFinishAttempt string string
  | CallRecover int int
  | CallAdjustLate LateUsageRequest
  | CallReverse string string string "string option"
  | CallUpdateWallet Wallet
  | CallWalletTransaction TransactionRequest
  | CallCreateRecharge CreateRechargeOrderRequest
  | CallStartAttempt string string
  | CallFinishPaymentAttempt string string string
  | CallMarkPending string string
  | CallMarkFailed string string
  | CallMarkPaid string string "string option"
  | CallQueryResult string PaymentResult "string option"
  | CallWebhook string VerifiedWebhook string
  | CallCredit string
  | CallExpire int int
  | CallProviderClosed string
  | CallCreateRefund CreateRefundOrderRequest
  | CallRefundPending string string
  | CallFailRefund string string
  | CallCompleteRefund string string
  | CallRecord RechargeOrder string ReconcileResult "string option"
  | CallRecordFailure RechargeOrder string string string
  | CallRunReconciliation int string "string option"
  | CallResolveCase string string string string string string

text \<open>What a call leaves in the database: the committed transaction, or the state before if it failed.\<close>

primrec perform :: "(string \<Rightarrow> string) \<Rightarrow> (string \<times> check_query) list \<Rightarrow> call \<Rightarrow> db \<Rightarrow> db" where
  "perform sha checks (CallCreateOrganization org) s = snd (commit (createOrganizationWallet org) s)"
| "perform sha checks (CallReserve r) s = snd (commit (ReserveFunding r) s)"
| "perform sha checks (CallSettle r) s = snd (commit (SettleFunding r) s)"
| "perform sha checks (CallHeartbeat oid n) s = snd (commit (HeartbeatFunding oid n) s)"
| "perform sha checks (CallBeginAttempt oid p c b) s = snd (commit (BeginFundingAttempt oid p c b) s)"
| "perform sha checks (CallFinishAttempt aid st) s = snd (commit (FinishFundingAttempt aid st) s)"
| "perform sha checks (CallRecover cutoff limit) s = snd (snd (RecoverStaleFunding cutoff limit s))"
| "perform sha checks (CallAdjustLate r) s = snd (commit (AdjustLateFundingUsage r) s)"
| "perform sha checks (CallReverse oid key reason actor) s = snd (commit (ReverseFunding oid key reason actor) s)"
| "perform sha checks (CallUpdateWallet w) s = snd (commit (UpdateWallet w) s)"
| "perform sha checks (CallWalletTransaction r) s = snd (commit (CreateWalletTransaction r) s)"
| "perform sha checks (CallCreateRecharge r) s = snd (commit (CreateRechargeOrder sha r) s)"
| "perform sha checks (CallStartAttempt oid op) s = snd (commit (StartPaymentAttempt oid op) s)"
| "perform sha checks (CallFinishPaymentAttempt aid st no) s = snd (commit (FinishPaymentAttempt aid st no) s)"
| "perform sha checks (CallMarkPending oid no) s = snd (commit (MarkRechargePending oid no) s)"
| "perform sha checks (CallMarkFailed oid code) s = snd (commit (MarkRechargeFailed oid code) s)"
| "perform sha checks (CallMarkPaid oid ev actor) s = snd (commit (MarkRechargePaid oid ev actor) s)"
| "perform sha checks (CallQueryResult oid res actor) s = snd (commit (ApplyPaymentQueryResult oid res actor) s)"
| "perform sha checks (CallWebhook provider v h) s = snd (commit (RecordVerifiedPaymentWebhook provider v h) s)"
| "perform sha checks (CallCredit oid) s = snd (commit (CreditPaidRecharge oid) s)"
| "perform sha checks (CallExpire now limit) s = snd (commit (ExpireRechargeOrders now limit) s)"
| "perform sha checks (CallProviderClosed oid) s = snd (commit (MarkRechargeProviderClosed oid) s)"
| "perform sha checks (CallCreateRefund r) s = snd (commit (CreateRefundOrder r) s)"
| "perform sha checks (CallRefundPending rid no) s = snd (commit (MarkRefundPending rid no) s)"
| "perform sha checks (CallFailRefund rid code) s = snd (commit (FailRefund rid code) s)"
| "perform sha checks (CallCompleteRefund rid no) s = snd (commit (CompleteRefund rid no) s)"
| "perform sha checks (CallRecord order key res actor) s = snd (commit (RecordReconciliation order key res actor) s)"
| "perform sha checks (CallRecordFailure order key code details) s = snd (commit (RecordReconciliationFailure order key code details) s)"
| "perform sha checks (CallRunReconciliation day trigger actor) s = snd (RunFinancialReconciliation checks day trigger actor s)"
| "perform sha checks (CallResolveCase cid action src reason key actor) s = snd (commit (ResolveReconciliationCase cid action src reason key actor) s)"

section \<open>Reachable states\<close>

text \<open>An empty database: no wallet and no evidence; the accounts there are, are the system's. Identifiers are not empty strings.\<close>

definition initial :: "db \<Rightarrow> bool" where
  "initial s \<longleftrightarrow> wallets s = [] \<and> wallet_transactions s = [] \<and> journals s = [] \<and> entries s = [] \<and> operations s = [] \<and> op_events s = [] \<and>
     adjustments s = [] \<and> cash_lots s = [] \<and> cash_allocations s = [] \<and> funding_cash s = [] \<and> refund_cash s = [] \<and> recharge_orders s = [] \<and>
     refund_orders s = [] \<and> (\<forall>n. rng s n \<noteq> []) \<and> distinct (map a_id (ledger_accounts s)) \<and> distinct (map a_key (ledger_accounts s)) \<and>
     (\<forall>a \<in> set (ledger_accounts s). \<exists>k c. a_key a = systemAccountKey k c)"

text \<open>What the rest of the system may do between two calls: the clock advances, and the tables the books do not read
  (prices, providers, risk, promotions, \<open>\<dots>\<close>) change.\<close>

definition elsewhere :: "db \<Rightarrow> db \<Rightarrow> bool" where
  "elsewhere s s' \<longleftrightarrow> hist_tables s' = hist_tables s \<and> cash_tables s' = cash_tables s"

inductive reachable :: "(string \<Rightarrow> string) \<Rightarrow> (string \<times> check_query) list \<Rightarrow> db \<Rightarrow> bool" for sha checks where
  start: "initial s \<Longrightarrow> reachable sha checks s"
| called: "reachable sha checks s \<Longrightarrow> reachable sha checks (perform sha checks c s)"
| outside: "reachable sha checks s \<Longrightarrow> elsewhere s s' \<Longrightarrow> reachable sha checks s'"

section \<open>The invariant\<close>

definition store_inv :: "db \<Rightarrow> bool" where
  "store_inv s \<longleftrightarrow> books_ok s \<and> cash_state s \<and> references s \<and> orders_ok s \<and> (\<forall>n. rng s n \<noteq> [])"

lemma inv_initial: "initial s \<Longrightarrow> store_inv s"
proof -
  assume i: "initial s"
  have no: "find (\<lambda>a. a_key a = availableKey v) (ledger_accounts s) = None" "find (\<lambda>a. a_key a = reservedKey v) (ledger_accounts s) = None" for v
    using i by (auto simp: initial_def find_None_iff)
  have "tables_wf s" using i no by (auto simp: initial_def tables_wf_def ledger_wf_def journals_balanced_def scoped_def normalSide_def)
  then have "books_ok s" using i by (simp add: books_ok_def balanced_def books_def initial_def)
  moreover have "cash_state s"
    using i by (simp add: initial_def cash_state_def cash_at_def cash_inv_def ids_distinct_def holds_owned_def refunds_owned_def alloc_ok_def holds_ok_def)
  moreover have "references s" using i by (auto simp: initial_def references_def)
  moreover have "orders_ok s" using i by (simp add: initial_def orders_ok_def)
  ultimately show ?thesis using i by (simp add: store_inv_def initial_def)
qed

lemma inv_evolves: "evolves s s' \<Longrightarrow> books_ok s' \<Longrightarrow> cash_state s' \<Longrightarrow> store_inv s \<Longrightarrow> store_inv s'"
  by (auto simp: store_inv_def evolves_def)

lemma books_ok_steady:
  assumes "\<And>K. balanced K s \<Longrightarrow> balanced K s'" "steady s s'" "books_ok s"
  shows "books_ok s'"
  using assms by (auto simp: books_ok_def steady_def)

text \<open>A transaction that keeps the books for every amount of stray money, and the cash lots, keeps the invariant.\<close>

lemma inv_commit:
  assumes "\<And>K x s'. balanced K s \<Longrightarrow> m s = Inr (x, s') \<Longrightarrow> balanced K s'" "grows steady m" "triple (cash_at None) m (\<lambda>_. cash_at None)" "store_inv s"
  shows "store_inv (snd (commit m s))"
proof (rule commit_invariant)
  fix x s' assume m: "m s = Inr (x, s')"
  have st: "steady s s'" using growsD [OF assms(2) m] .
  have "books_ok s'" by (rule books_ok_steady [OF _ st]) (use assms(1,4) m in \<open>auto simp: store_inv_def\<close>)
  moreover have "cash_state s'" using tripleD [OF assms(3) _ m] assms(4) by (simp add: store_inv_def cash_state_def)
  ultimately show "store_inv s'" using st assms(4) by (auto simp: steady_def intro: inv_evolves)
qed (rule assms(4))

lemma inv_triple:
  "(\<And>K. triple (balanced K) m (\<lambda>_. balanced K)) \<Longrightarrow> grows steady m \<Longrightarrow> triple (cash_at None) m (\<lambda>_. cash_at None) \<Longrightarrow> store_inv s \<Longrightarrow>
   store_inv (snd (commit m s))"
  by (rule inv_commit) (auto dest: tripleD)

lemma inv_frame:
  "keeps money_tables m \<Longrightarrow> grows steady m \<Longrightarrow> triple (cash_at None) m (\<lambda>_. cash_at None) \<Longrightarrow> store_inv s \<Longrightarrow> store_inv (snd (commit m s))"
  by (rule inv_triple) (rule balanced_keeps)

lemma inv_createOrganizationWallet: "store_inv s \<Longrightarrow> store_inv (snd (commit (createOrganizationWallet org) s))"
proof (rule commit_invariant)
  fix x s' assume i: "store_inv s" and m: "createOrganizationWallet org s = Inr (x, s')"
  have "books_ok s'" using i m by (auto simp: store_inv_def intro: createOrganizationWallet_books)
  moreover have "cash_tables s' = cash_tables s" using m
    by (cases rule: createOrganizationWallet_Inr) (simp_all add: lot_tables_def owner_tables_def)
  then have "cash_state s'" using i cash_at_frame by (simp add: store_inv_def cash_state_def)
  ultimately show "store_inv s'" using growsD [OF createOrganizationWallet_evolves m] i by (blast intro: inv_evolves)
qed

lemma inv_Recover: "store_inv s \<Longrightarrow> store_inv (snd (snd (RecoverStaleFunding before limit s)))"
proof -
  assume i: "store_inv s"
  have st: "steady s (snd (snd (RecoverStaleFunding before limit s)))" by (rule steady_RecoverStaleFunding)
  have "books_ok (snd (snd (RecoverStaleFunding before limit s)))"
    by (rule books_ok_steady [OF RecoverStaleFunding_balanced st]) (use i in \<open>auto simp: store_inv_def\<close>)
  moreover have "cash_state (snd (snd (RecoverStaleFunding before limit s)))"
    using i by (simp add: store_inv_def cash_state_def RecoverStaleFunding_cash)
  ultimately show ?thesis using st i by (auto simp: steady_def intro: inv_evolves)
qed

lemma inv_Run: "store_inv s \<Longrightarrow> store_inv (snd (RunFinancialReconciliation checks day trigger actor s))"
proof -
  assume i: "store_inv s"
  let ?s = "snd (RunFinancialReconciliation checks day trigger actor s)"
  have "money_tables ?s = money_tables s" by (rule RunFinancialReconciliation_keeps [OF recon_blind_money money_frame(2)])
  then have "books_ok ?s" using i books_ok_frame by (auto simp: store_inv_def)
  moreover have "cash_tables ?s = cash_tables s" by (rule RunFinancialReconciliation_keeps [OF recon_blind_cash cash_frame(2)])
  then have "cash_state ?s" using i cash_at_frame by (simp add: store_inv_def cash_state_def)
  ultimately show ?thesis using steady_RunFinancialReconciliation [of s checks day trigger actor] i by (auto simp: steady_def intro: inv_evolves)
qed

lemma inv_Resolve: "store_inv s \<Longrightarrow> store_inv (snd (commit (ResolveReconciliationCase cid action src reason key actor) s))"
proof (rule commit_invariant)
  fix x s' assume i: "store_inv s" and m: "ResolveReconciliationCase cid action src reason key actor s = Inr (x, s')"
  have "books_ok s'" using i tripleD [OF books_ok_Resolve _ m] by (simp add: store_inv_def)
  moreover have "cash_state s'" using i tripleD [OF cash_Resolve _ m] by (simp add: store_inv_def cash_state_def)
  ultimately show "store_inv s'" using growsD [OF evolves_Resolve m] i by (blast intro: inv_evolves)
qed

lemma inv_perform: "store_inv s \<Longrightarrow> store_inv (perform sha checks c s)"
proof (induction c)
  case (CallCreateOrganization org)
  then show ?case by (simp add: inv_createOrganizationWallet)
next
  case (CallReserve r)
  then show ?case by simp (rule inv_commit, rule ReserveFunding_balanced, assumption+, rule steady_funding, rule cash_ReserveFunding)
next
  case (CallSettle r)
  then show ?case by simp (rule inv_commit, rule SettleFunding_balanced, assumption+, rule steady_funding, rule cash_SettleFunding)
next
  case (CallHeartbeat oid n)
  then show ?case by simp (rule inv_commit, rule HeartbeatFunding_balanced, assumption+, rule steady_HeartbeatFunding, rule cash_HeartbeatFunding)
next
  case (CallBeginAttempt oid p c b)
  then show ?case by simp (rule inv_triple [OF BeginFundingAttempt_triple steady_funding(5) cash_BeginFundingAttempt])
next
  case (CallFinishAttempt aid st)
  then show ?case by simp (rule inv_frame [OF FinishFundingAttempt_keeps steady_FinishFundingAttempt cash_FinishFundingAttempt])
next
  case (CallRecover before limit)
  then show ?case by (simp add: inv_Recover)
next
  case (CallAdjustLate r)
  then show ?case by simp (rule inv_commit, rule AdjustLate_balanced, assumption+, rule steady_funding, rule cash_AdjustLate)
next
  case (CallReverse oid key reason actor)
  then show ?case by simp (rule inv_commit, rule ReverseFunding_balanced, assumption+, rule steady_funding, rule cash_ReverseFunding)
next
  case (CallUpdateWallet w)
  then show ?case by simp (rule inv_commit, rule UpdateWallet_balanced, assumption+, rule steady_wallets, rule cash_UpdateWallet)
next
  case (CallWalletTransaction r)
  then show ?case by simp (rule inv_commit, rule CreateWalletTransaction_balanced, assumption+, rule steady_wallets, rule cash_CreateWalletTransaction)
next
  case (CallWebhook provider v h)
  then show ?case by simp (rule inv_triple [OF balanced_Webhook steady_payments(15) cash_Webhook])
next
  case (CallCredit oid)
  then show ?case by simp (rule inv_triple [OF balanced_CreditPaidRecharge steady_CreditPaidRecharge cash_CreditPaidRecharge])
next
  case (CallCompleteRefund rid no)
  then show ?case by simp (rule inv_triple [OF balanced_CompleteRefund steady_payments(16) cash_CompleteRefund])
next
  case (CallRunReconciliation day trigger actor)
  then show ?case by (simp add: inv_Run)
next
  case (CallResolveCase cid action src reason key actor)
  then show ?case by (simp add: inv_Resolve)
qed (simp_all only: perform.simps, (rule inv_frame, rule payment_money_frame, rule steady_payments,
      (rule cash_simple_payments cash_CreateRechargeOrder cash_CreateRefundOrder cash_MarkRefundPending cash_FailRefund), assumption)+)

lemma inv_elsewhere: "elsewhere s s' \<Longrightarrow> store_inv s \<Longrightarrow> store_inv s'"
proof -
  assume e: "elsewhere s s'" and i: "store_inv s"
  then have "money_tables s' = money_tables s" by (simp add: elsewhere_def hist_tables_def money_tables_def)
  then have "books_ok s'" using i books_ok_frame by (auto simp: store_inv_def)
  moreover have "cash_state s'" using e i cash_at_frame by (auto simp: store_inv_def cash_state_def elsewhere_def)
  moreover have "evolves s s'" using e steady_same by (simp add: elsewhere_def steady_def)
  ultimately show ?thesis using i by (blast intro: inv_evolves)
qed

lemma reachable_inv: "reachable sha checks s \<Longrightarrow> store_inv s"
  by (induction rule: reachable.induct) (auto intro: inv_initial inv_perform inv_elsewhere)

text \<open>Every call only adds to the evidence.\<close>

lemma perform_evolves: "evolves s (perform sha checks c s)"
  by (induction c)
     (auto intro!: evolving.committed evolves_steady steady_funding steady_HeartbeatFunding steady_FinishFundingAttempt steady_wallets steady_payments
        steady_CreditPaidRecharge createOrganizationWallet_evolves evolves_Resolve
        steady_RecoverStaleFunding [unfolded steady_def, THEN conjunct1] steady_RunFinancialReconciliation [unfolded steady_def, THEN conjunct1])

end
