(* ===== verification/Example.thy ===== *)
theory Example
  imports System "HOL-Library.Code_Target_Nat"
begin

text \<open>
  A small database on which the properties are tried out: an empty one, in which an organization is
  created, its wallet topped up, a request reserved and settled, and a recharge paid, credited and
  refunded. Every state is written out, and evaluation shows that the call named leads to it.
\<close>

section \<open>States and requests\<close>

definition demo_empty :: db where
  "demo_empty = \<lparr>clk = 1700000000, rng = (\<lambda>n. CHR ''u'' # digits_of_nat n), rng_pos = 0, wallets = [], wallet_transactions = [], ledger_accounts = [],
     journals = [], entries = [], operations = [], op_events = [], op_attempts = [], adjustments = [], usage_records = [], cash_lots = [],
     cash_allocations = [], funding_cash = [], refund_cash = [], promotions = [], promotion_allocations = [], price_versions = [], providers = [],
     credentials = [], byok_policies = [], provider_budgets = [], budget_reservations = [], byok_shadow = [], recharge_orders = [],
     refund_orders = [], refund_applications = [], payment_attempts = [], webhook_events = [], reconciliations = [], user_risks = [],
     org_risks = [], memberships = [], account_bindings = [], provisioning_jobs = [], price_snapshots = [], redemptions = [],
     subscription_invoices = [], invoice_applications = [], invoice_items = [], recon_runs = [], recon_cases = [], recon_observations = [],
     recon_resolutions = [], audit_log = []\<rparr>"

definition demo_sha :: "string \<Rightarrow> string" where
  "demo_sha text = ''aaaaaaaaaaaaaaaaaaaaaaaaaaaaaaaaaaaaaaaaaaaaaaaaaaaaaaaaaaaaaaaa''"

definition demo_checks :: "(string \<times> check_query) list" where
  "demo_checks = [(''RECHARGE_TO_WALLET'', rechargeToWallet)]"

text \<open>An organization and its wallet.\<close>

definition demo_wallet :: db where
  "demo_wallet = demo_empty\<lparr>
    rng_pos := 7,
    wallets := [\<lparr>w_id = ''u0'', w_org = ''acme'', w_currency = ''USD'', w_mode = POSTPAID, w_available = 0, w_reserved = 0, w_credit_limit = 0,
      w_risk_limit = 10000000000, w_risk_exposure = 0, w_credit_enforced = True, w_status = WalletACTIVE, w_version = 0\<rparr>],
    ledger_accounts := [\<lparr>a_id = ''u1'', a_key = ''system:cash:USD'', a_currency = ''USD'', a_active = True, a_normal = DEBIT\<rparr>,
      \<lparr>a_id = ''u2'', a_key = ''system:revenue:USD'', a_currency = ''USD'', a_active = True, a_normal = CREDIT\<rparr>, \<lparr>a_id = ''u3'',
      a_key = ''system:migration-equity:USD'', a_currency = ''USD'', a_active = True, a_normal = CREDIT\<rparr>, \<lparr>a_id = ''u4'', a_key =
      ''system:adjustment-equity:USD'', a_currency = ''USD'', a_active = True, a_normal = CREDIT\<rparr>, \<lparr>a_id = ''u5'', a_key =
      ''wallet:u0:available'', a_currency = ''USD'', a_active = True, a_normal = CREDIT\<rparr>, \<lparr>a_id = ''u6'', a_key =
      ''wallet:u0:reserved'', a_currency = ''USD'', a_active = True, a_normal = CREDIT\<rparr>]\<rparr>"

text \<open>A top-up of 5 USD.\<close>

definition demo_topup :: TransactionRequest where
  "demo_topup = \<lparr>tr_wallet = ''u0'', tr_type = TOPUP, tr_amount = 5 * 10 ^ 12, tr_key = ''t1'', tr_reference = ''wire'', tr_created_by = None\<rparr>"

definition demo_funded :: db where
  "demo_funded = demo_wallet\<lparr>
    rng_pos := 13,
    wallets := [\<lparr>w_id = ''u0'', w_org = ''acme'', w_currency = ''USD'', w_mode = POSTPAID, w_available = 5000000000000, w_reserved = 0,
      w_credit_limit = 0, w_risk_limit = 10000000000, w_risk_exposure = 0, w_credit_enforced = True, w_status = WalletACTIVE, w_version = 1\<rparr>],
    wallet_transactions := [\<lparr>t_id = ''u7'', t_wallet = ''u0'', t_type = TOPUP, t_amount = 5000000000000, t_balance_after = 5000000000000, t_key
      = Some ''t1'', t_reference = Some ''wire'', t_journal = Some ''u8'', t_operation = None, t_recharge = None, t_refund = None, t_created =
      1700000000\<rparr>],
    journals := [\<lparr>j_id = ''u8'', j_wallet = Some ''u0'', j_type = J_TOPUP, j_key = ''wallet-transaction:u0:t1'', j_currency = ''USD'', j_posted
      = True, j_reference = Some ''wire'', j_recharge = None, j_refund = None, j_invoice = None, j_reversal_of = None, j_case = None, j_created =
      1700000000\<rparr>],
    entries := [\<lparr>e_id = ''u9'', e_journal = ''u8'', e_account = ''u1'', e_currency = ''USD'', e_side = DEBIT, e_amount = 5000000000000\<rparr>,
      \<lparr>e_id = ''u10'', e_journal = ''u8'', e_account = ''u5'', e_currency = ''USD'', e_side = CREDIT, e_amount = 5000000000000\<rparr>],
    cash_lots := [\<lparr>l_id = ''u11'', l_wallet = ''u0'', l_recharge = None, l_source_tx = Some ''u7'', l_kind = LotTOPUP, l_reference =
      ''wallet-transaction:u7'', l_original = 5000000000000, l_remaining = 5000000000000, l_currency = ''USD'', l_refundable = False, l_created =
      1700000000\<rparr>],
    audit_log := [\<lparr>au_actor = None, au_action = ''wallet.transaction.committed'', au_resource = ''u0''\<rparr>]\<rparr>"

text \<open>A price of 2 USD per million input tokens and 6 per million output tokens is published.\<close>

definition demo_priced :: db where
  "demo_priced = demo_funded\<lparr>
    price_versions := [\<lparr>pv_id = ''v1'', pv_provider = ''p1'', pv_model = ''m'', pv_version = 1, pv_retail = \<lparr>Input = ''2'', Cached =
      ''1'', Output = ''6'', Fixed = ''0'', Unit = 1000000, Currency = ''USD''\<rparr>, pv_cost = \<lparr>Input = ''1'', Cached = ''0.5'', Output =
      ''3'', Fixed = ''0'', Unit = 1000000, Currency = ''USD''\<rparr>\<rparr>]\<rparr>"

text \<open>A request with a maximum of 3 USD is admitted and costs 2.\<close>

definition demo_reserve :: FundingReservationRequest where
  "demo_reserve = \<lparr>fr_org = ''acme'', fr_project = ''p'', fr_api_key = [], fr_request = ''r1'', fr_key = ''k1'', fr_fingerprint = ''f1'',
     fr_pricing = ''v1'', fr_currency = ''USD'', fr_maximum = Some 3, fr_promotion = Some 0, fr_tax = Some 0, fr_exchange = Some 1,
     fr_estimated_input = 1000000, fr_max_output = 100000, fr_created_by = None\<rparr>"

definition demo_reserved :: db where
  "demo_reserved = demo_priced\<lparr>
    rng_pos := 20,
    wallets := [\<lparr>w_id = ''u0'', w_org = ''acme'', w_currency = ''USD'', w_mode = POSTPAID, w_available = 2000000000000, w_reserved =
      3000000000000, w_credit_limit = 0, w_risk_limit = 10000000000, w_risk_exposure = 0, w_credit_enforced = True, w_status = WalletACTIVE, w_version
      = 2\<rparr>],
    journals := journals demo_priced @ [\<lparr>j_id = ''u15'', j_wallet = Some ''u0'', j_type = J_RESERVATION, j_key = ''funding:u13:reservation'',
      j_currency = ''USD'', j_posted = True, j_reference = Some ''r1'', j_recharge = None, j_refund = None, j_invoice = None, j_reversal_of = None,
      j_case = None, j_created = 1700000000\<rparr>],
    entries := entries demo_priced @ [\<lparr>e_id = ''u16'', e_journal = ''u15'', e_account = ''u5'', e_currency = ''USD'', e_side = DEBIT, e_amount
      = 3000000000000\<rparr>, \<lparr>e_id = ''u17'', e_journal = ''u15'', e_account = ''u6'', e_currency = ''USD'', e_side = CREDIT, e_amount =
      3000000000000\<rparr>],
    operations := [\<lparr>o_id = ''u13'', o_wallet = ''u0'', o_org = ''acme'', o_project = ''p'', o_api_key = None, o_request = ''r1'', o_key =
      ''k1'', o_fingerprint = ''f1'', o_pricing = Some ''v1'', o_status = F_RESERVED, o_currency = ''USD'', o_maximum = 3000000000000, o_promotion =
      0, o_consumed_promotion = 0, o_tax = 0, o_exchange = 1000000000000, o_settled = 0, o_released = 0, o_estimated_input = 1000000, o_max_output =
      100000, o_actual = None, o_usage_source = [], o_observed = 0, o_failure = None, o_settled_at = None, o_released_at = None, o_heartbeat =
      1700000000, o_created = 1700000000, o_owner = OwnerPLATFORM, o_credential = None, o_service_fee = 0, o_shadow = 0, o_byok_policy = None,
      o_byok_fixed = 0, o_byok_input = 0, o_byok_cached = 0, o_byok_output = 0, o_byok_unit = 1000000, o_byok_bps = 0, o_byok_allowance = 0\<rparr>],
    op_events := [\<lparr>ev_operation = ''u13'', ev_status = F_RESERVED, ev_amount = 3000000000000, ev_source = ''admission''\<rparr>],
    cash_lots := [\<lparr>l_id = ''u11'', l_wallet = ''u0'', l_recharge = None, l_source_tx = Some ''u7'', l_kind = LotTOPUP, l_reference =
      ''wallet-transaction:u7'', l_original = 5000000000000, l_remaining = 2000000000000, l_currency = ''USD'', l_refundable = False, l_created =
      1700000000\<rparr>],
    funding_cash := [\<lparr>fc_id = ''u14'', fc_operation = ''u13'', fc_lot = ''u11'', fc_reserved = 3000000000000, fc_consumed = 0, fc_released = 0,
      fc_settled = None, fc_created = 1700000000\<rparr>],
    audit_log := audit_log demo_priced @ [\<lparr>au_actor = None, au_action = ''wallet.funding_reserved'', au_resource = ''u13''\<rparr>]\<rparr>"

definition demo_settle :: "string \<Rightarrow> int \<Rightarrow> FundingSettlementRequest" where
  "demo_settle oid n = \<lparr>fs_operation = oid, fs_input = n, fs_cached = 0, fs_output = 0, fs_observed = 10, fs_usage_source = ''PROVIDER'',
     fs_failure = [], fs_partial = False, fs_waive = False, fs_source = ''gateway''\<rparr>"

definition demo_settled :: db where
  "demo_settled = demo_reserved\<lparr>
    rng_pos := 31,
    wallets := [\<lparr>w_id = ''u0'', w_org = ''acme'', w_currency = ''USD'', w_mode = POSTPAID, w_available = 3000000000000, w_reserved = 0,
      w_credit_limit = 0, w_risk_limit = 10000000000, w_risk_exposure = 0, w_credit_enforced = True, w_status = WalletACTIVE, w_version = 3\<rparr>],
    wallet_transactions := wallet_transactions demo_reserved @ [\<lparr>t_id = ''u28'', t_wallet = ''u0'', t_type = CHARGE, t_amount = -
      2000000000000, t_balance_after = 3000000000000, t_key = Some ''funding:u13:charge'', t_reference = Some ''r1'', t_journal = Some ''u20'',
      t_operation = Some ''u13'', t_recharge = None, t_refund = None, t_created = 1700000000\<rparr>],
    journals := journals demo_reserved @ [\<lparr>j_id = ''u20'', j_wallet = Some ''u0'', j_type = J_SETTLEMENT, j_key = ''funding:u13:settlement'',
      j_currency = ''USD'', j_posted = True, j_reference = Some ''r1'', j_recharge = None, j_refund = None, j_invoice = None, j_reversal_of = None,
      j_case = None, j_created = 1700000000\<rparr>, \<lparr>j_id = ''u23'', j_wallet = Some ''u0'', j_type = J_RELEASE, j_key =
      ''funding:u13:release'', j_currency = ''USD'', j_posted = True, j_reference = Some ''r1'', j_recharge = None, j_refund = None, j_invoice = None,
      j_reversal_of = None, j_case = None, j_created = 1700000000\<rparr>],
    entries := entries demo_reserved @ [\<lparr>e_id = ''u21'', e_journal = ''u20'', e_account = ''u6'', e_currency = ''USD'', e_side = DEBIT,
      e_amount = 2000000000000\<rparr>, \<lparr>e_id = ''u22'', e_journal = ''u20'', e_account = ''u2'', e_currency = ''USD'', e_side = CREDIT,
      e_amount = 2000000000000\<rparr>, \<lparr>e_id = ''u24'', e_journal = ''u23'', e_account = ''u6'', e_currency = ''USD'', e_side = DEBIT,
      e_amount = 1000000000000\<rparr>, \<lparr>e_id = ''u25'', e_journal = ''u23'', e_account = ''u5'', e_currency = ''USD'', e_side = CREDIT,
      e_amount = 1000000000000\<rparr>],
    operations := [\<lparr>o_id = ''u13'', o_wallet = ''u0'', o_org = ''acme'', o_project = ''p'', o_api_key = None, o_request = ''r1'', o_key =
      ''k1'', o_fingerprint = ''f1'', o_pricing = Some ''v1'', o_status = F_SETTLED, o_currency = ''USD'', o_maximum = 3000000000000, o_promotion = 0,
      o_consumed_promotion = 0, o_tax = 0, o_exchange = 1000000000000, o_settled = 2000000000000, o_released = 1000000000000, o_estimated_input =
      1000000, o_max_output = 100000, o_actual = Some (1000000, 0, 0), o_usage_source = ''PROVIDER'', o_observed = 10, o_failure = None, o_settled_at
      = Some 1700000000, o_released_at = Some 1700000000, o_heartbeat = 1700000000, o_created = 1700000000, o_owner = OwnerPLATFORM, o_credential =
      None, o_service_fee = 0, o_shadow = 0, o_byok_policy = None, o_byok_fixed = 0, o_byok_input = 0, o_byok_cached = 0, o_byok_output = 0,
      o_byok_unit = 1000000, o_byok_bps = 0, o_byok_allowance = 0\<rparr>],
    op_events := op_events demo_reserved @ [\<lparr>ev_operation = ''u13'', ev_status = F_RELEASED, ev_amount = 1000000000000, ev_source =
      ''gateway''\<rparr>, \<lparr>ev_operation = ''u13'', ev_status = F_SETTLED, ev_amount = 2000000000000, ev_source = ''gateway''\<rparr>],
    cash_lots := [\<lparr>l_id = ''u11'', l_wallet = ''u0'', l_recharge = None, l_source_tx = Some ''u7'', l_kind = LotTOPUP, l_reference =
      ''wallet-transaction:u7'', l_original = 5000000000000, l_remaining = 3000000000000, l_currency = ''USD'', l_refundable = False, l_created =
      1700000000\<rparr>],
    cash_allocations := [\<lparr>ca_id = ''u29'', ca_wallet = ''u0'', ca_tx = ''u28'', ca_lot = Some ''u11'', ca_source = None, ca_bucket =
      CASH_BUCKET, ca_direction = DEBIT_ALLOC, ca_amount = 2000000000000, ca_created = 1700000000\<rparr>],
    funding_cash := [\<lparr>fc_id = ''u14'', fc_operation = ''u13'', fc_lot = ''u11'', fc_reserved = 3000000000000, fc_consumed = 2000000000000,
      fc_released = 1000000000000, fc_settled = Some 1700000000, fc_created = 1700000000\<rparr>],
    audit_log := audit_log demo_reserved @ [\<lparr>au_actor = None, au_action = ''wallet.funding_settled'', au_resource = ''u13''\<rparr>]\<rparr>"

text \<open>A recharge of 7 USD by bank transfer, paid, credited and refunded.\<close>

definition demo_order :: CreateRechargeOrderRequest where
  "demo_order = \<lparr>cr_platform_no = ''RC1'', cr_organization = ''acme'', cr_payment_provider = ''manual_transfer'', cr_amount = ''7'', cr_currency = ''USD'',
     cr_region = ''US'', cr_key = ''o1'', cr_expires = 1700003600, cr_created_by = None, cr_target_provider = [], cr_target_mode = []\<rparr>"

definition demo_ordered :: db where
  "demo_ordered = demo_wallet\<lparr>
    rng_pos := 9,
    recharge_orders := [\<lparr>ro_id = ''u7'', ro_platform_no = ''RC1'', ro_org = ''acme'', ro_wallet = ''u0'', ro_created_by = None, ro_provider =
      ''manual_transfer'', ro_provider_no = None, ro_status = R_CREATED, ro_amount = 7000000000000, ro_currency = ''USD'', ro_region = ''US'', ro_key
      = ''o1'', ro_fingerprint = ''aaaaaaaaaaaaaaaaaaaaaaaaaaaaaaaaaaaaaaaaaaaaaaaaaaaaaaaaaaaaaaaa'', ro_tx = None, ro_journal = None, ro_expires =
      1700003600, ro_paid_at = None, ro_credited_at = None, ro_closed_at = None, ro_failure = None, ro_created = 1700000000, ro_updated = 1700000000,
      ro_target_provider = None, ro_target_mode = None\<rparr>],
    audit_log := [\<lparr>au_actor = None, au_action = ''payment.recharge_created'', au_resource = ''u7''\<rparr>]\<rparr>"

definition demo_pending :: db where
  "demo_pending = demo_ordered\<lparr>
    recharge_orders := [\<lparr>ro_id = ''u7'', ro_platform_no = ''RC1'', ro_org = ''acme'', ro_wallet = ''u0'', ro_created_by = None, ro_provider =
      ''manual_transfer'', ro_provider_no = Some ''N1'', ro_status = R_PENDING, ro_amount = 7000000000000, ro_currency = ''USD'', ro_region = ''US'',
      ro_key = ''o1'', ro_fingerprint = ''aaaaaaaaaaaaaaaaaaaaaaaaaaaaaaaaaaaaaaaaaaaaaaaaaaaaaaaaaaaaaaaa'', ro_tx = None, ro_journal = None,
      ro_expires = 1700003600, ro_paid_at = None, ro_credited_at = None, ro_closed_at = None, ro_failure = None, ro_created = 1700000000, ro_updated =
      1700000000, ro_target_provider = None, ro_target_mode = None\<rparr>]\<rparr>"

definition demo_paid :: db where
  "demo_paid = demo_pending\<lparr>
    rng_pos := 10,
    recharge_orders := [\<lparr>ro_id = ''u7'', ro_platform_no = ''RC1'', ro_org = ''acme'', ro_wallet = ''u0'', ro_created_by = None, ro_provider =
      ''manual_transfer'', ro_provider_no = Some ''N1'', ro_status = R_PAID, ro_amount = 7000000000000, ro_currency = ''USD'', ro_region = ''US'',
      ro_key = ''o1'', ro_fingerprint = ''aaaaaaaaaaaaaaaaaaaaaaaaaaaaaaaaaaaaaaaaaaaaaaaaaaaaaaaaaaaaaaaa'', ro_tx = None, ro_journal = None,
      ro_expires = 1700003600, ro_paid_at = Some 1700000000, ro_credited_at = None, ro_closed_at = None, ro_failure = None, ro_created = 1700000000,
      ro_updated = 1700000000, ro_target_provider = None, ro_target_mode = None\<rparr>],
    audit_log := audit_log demo_pending @ [\<lparr>au_actor = None, au_action = ''payment.manual_approved'', au_resource = ''u7''\<rparr>]\<rparr>"

definition demo_credited :: db where
  "demo_credited = demo_paid\<lparr>
    rng_pos := 16,
    wallets := [\<lparr>w_id = ''u0'', w_org = ''acme'', w_currency = ''USD'', w_mode = POSTPAID, w_available = 7000000000000, w_reserved = 0,
      w_credit_limit = 0, w_risk_limit = 10000000000, w_risk_exposure = 0, w_credit_enforced = True, w_status = WalletACTIVE, w_version = 1\<rparr>],
    wallet_transactions := [\<lparr>t_id = ''u13'', t_wallet = ''u0'', t_type = TOPUP, t_amount = 7000000000000, t_balance_after = 7000000000000,
      t_key = Some ''recharge:u7'', t_reference = Some ''RC1'', t_journal = Some ''u10'', t_operation = None, t_recharge = Some ''u7'', t_refund =
      None, t_created = 1700000000\<rparr>],
    journals := [\<lparr>j_id = ''u10'', j_wallet = Some ''u0'', j_type = J_PAYMENT_CREDIT, j_key = ''recharge:u7'', j_currency = ''USD'', j_posted =
      True, j_reference = Some ''RC1'', j_recharge = Some ''u7'', j_refund = None, j_invoice = None, j_reversal_of = None, j_case = None, j_created =
      1700000000\<rparr>],
    entries := [\<lparr>e_id = ''u11'', e_journal = ''u10'', e_account = ''u1'', e_currency = ''USD'', e_side = DEBIT, e_amount =
      7000000000000\<rparr>, \<lparr>e_id = ''u12'', e_journal = ''u10'', e_account = ''u5'', e_currency = ''USD'', e_side = CREDIT, e_amount =
      7000000000000\<rparr>],
    cash_lots := [\<lparr>l_id = ''u14'', l_wallet = ''u0'', l_recharge = Some ''u7'', l_source_tx = Some ''u13'', l_kind = LotRECHARGE, l_reference =
      ''RC1'', l_original = 7000000000000, l_remaining = 7000000000000, l_currency = ''USD'', l_refundable = True, l_created = 1700000000\<rparr>],
    recharge_orders := [\<lparr>ro_id = ''u7'', ro_platform_no = ''RC1'', ro_org = ''acme'', ro_wallet = ''u0'', ro_created_by = None, ro_provider =
      ''manual_transfer'', ro_provider_no = Some ''N1'', ro_status = R_CREDITED, ro_amount = 7000000000000, ro_currency = ''USD'', ro_region = ''US'',
      ro_key = ''o1'', ro_fingerprint = ''aaaaaaaaaaaaaaaaaaaaaaaaaaaaaaaaaaaaaaaaaaaaaaaaaaaaaaaaaaaaaaaa'', ro_tx = Some ''u13'', ro_journal = Some
      ''u10'', ro_expires = 1700003600, ro_paid_at = Some 1700000000, ro_credited_at = Some 1700000000, ro_closed_at = None, ro_failure = None,
      ro_created = 1700000000, ro_updated = 1700000000, ro_target_provider = None, ro_target_mode = None\<rparr>],
    audit_log := audit_log demo_paid @ [\<lparr>au_actor = None, au_action = ''payment.recharge_credited'', au_resource = ''u7''\<rparr>]\<rparr>"

definition demo_refund :: CreateRefundOrderRequest where
  "demo_refund = \<lparr>rq_platform_no = ''RF1'', rq_recharge = ''u7'', rq_application = [], rq_amount = ''7'', rq_reason = ''unused'', rq_key = ''x1'', rq_created_by = None\<rparr>"

definition demo_refunding :: db where
  "demo_refunding = demo_credited\<lparr>
    rng_pos := 19,
    cash_lots := [\<lparr>l_id = ''u14'', l_wallet = ''u0'', l_recharge = Some ''u7'', l_source_tx = Some ''u13'', l_kind = LotRECHARGE, l_reference =
      ''RC1'', l_original = 7000000000000, l_remaining = 0, l_currency = ''USD'', l_refundable = True, l_created = 1700000000\<rparr>],
    refund_cash := [\<lparr>rc_id = ''u17'', rc_refund = ''u16'', rc_lot = ''u14'', rc_reserved = 7000000000000, rc_consumed = 0, rc_released = 0,
      rc_settled = None\<rparr>],
    recharge_orders := [\<lparr>ro_id = ''u7'', ro_platform_no = ''RC1'', ro_org = ''acme'', ro_wallet = ''u0'', ro_created_by = None, ro_provider =
      ''manual_transfer'', ro_provider_no = Some ''N1'', ro_status = R_REFUND_PENDING, ro_amount = 7000000000000, ro_currency = ''USD'', ro_region =
      ''US'', ro_key = ''o1'', ro_fingerprint = ''aaaaaaaaaaaaaaaaaaaaaaaaaaaaaaaaaaaaaaaaaaaaaaaaaaaaaaaaaaaaaaaa'', ro_tx = Some ''u13'', ro_journal
      = Some ''u10'', ro_expires = 1700003600, ro_paid_at = Some 1700000000, ro_credited_at = Some 1700000000, ro_closed_at = None, ro_failure = None,
      ro_created = 1700000000, ro_updated = 1700000000, ro_target_provider = None, ro_target_mode = None\<rparr>],
    refund_orders := [\<lparr>rf_id = ''u16'', rf_platform_no = ''RF1'', rf_recharge = ''u7'', rf_application = None, rf_provider =
      ''manual_transfer'', rf_provider_no = None, rf_status = RF_CREATED, rf_amount = 7000000000000, rf_currency = ''USD'', rf_reason = ''unused'',
      rf_key = ''x1'', rf_tx = None, rf_journal = None, rf_created_by = None, rf_failure = None, rf_created = 1700000000\<rparr>],
    audit_log := audit_log demo_credited @ [\<lparr>au_actor = None, au_action = ''payment.refund_created'', au_resource = ''u16''\<rparr>]\<rparr>"

section \<open>Evaluation\<close>

text \<open>Transactions are run from the first statement on, the rest of a transaction untouched until its turn.\<close>

lemma bindT_cong: "bindT m f s = bindT m f s"
  by (rule refl)

lemma thenT_cong: "thenT m n s = thenT m n s"
  by (rule refl)

lemma bindT_run: "bindT m f s = (case m s of Inl e \<Rightarrow> Inl e | Inr p \<Rightarrow> f (fst p) (snd p))"
  by (auto simp: bindT_def split: sum.split)

lemma thenT_run: "thenT m n s = (case m s of Inl e \<Rightarrow> Inl e | Inr p \<Rightarrow> n (snd p))"
  by (auto simp: thenT_def bindT_def split: sum.split)

lemmas run_core = bindT_run thenT_run returnT_def failT_def getT_def modifyT_def unlessT_def whenT_def liftT_def rowT_def checkT_def uuidT_def
  nullString_def unused_def numericT_def writeAuditTx_def walletChecks_def walletInRange_def walletById_def walletByOrg_def updateWallet_def
  updateWalletReturning_def insertWalletTransaction_def money_in_range_def column_sum_def rows_affected_def Let_def

lemmas run_ledger = walletAccountKey_def systemAccountKey_def insertJournal_def insertEntry_def sideTotal_def postDraft_def postLine_def
  postLinkedJournalTx_def postJournalTx_def

lemmas run_lots = lotChecks_def takeFromLot_def returnsTo_def returnToLot_def insertFundingCash_def holdUpdateAllowed_def settleFundingCash_def
  insertRefundCash_def settleRefundCash_def insertCashAllocation_def openLots_def holdFromLot_def reserveCashLotsTx_def debitRow_def debitFromLot_def
  allocateCashDebitTx_def heldLots_def settleHold_def settleCashLotsTx_def rechargeLot_def refundableLot_def debitRechargeCashLotTx_def
  allocateChargebackTx_def reserveRefundCashTx_def settleRefundCashTx_def lotConflicts_def createCashLotTx_def

lemmas run_funding = insertFundingEvent_def opChecks_def opInRange_def opById_def insertOperation_def updateOperation_def reservationValid_def
  newOperation_def placeReservation_def ReserveFunding_def settlementJournal_def releaseJournal_def
  settledStatus_def settledWallet_def settleWallet_def settlementStatus_def settledOperation_def settleOperation_def settlementCharge_def
  setUsageStatus_def settleProviderBudget_def writeSettlement_def SettleFunding_def isFundingTerminal_def
  reservePromotionTx_def settlePromotionTx_def usableCredits_def operationCredits_def

lemmas run_payments = rechargeById_def insertRecharge_def updateRecharge_def rechargesAffected_def refundChecks_def refundById_def insertRefund_def
  updateRefund_def rechargeChecks_def paidStatuses_def creditedStatuses_def
  placeRecharge_def CreateRechargeOrder_def MarkRechargePending_def payOrder_def MarkRechargePaid_def enqueueProviderAllocationTx_def creditOrder_def
  CreditPaidRecharge_def refundAuthorized_def placeRefund_def CreateRefundOrder_def updateApplications_def FailRefund_def completeRefundWrites_def
  CompleteRefund_def

lemmas demo_states = demo_empty_def demo_wallet_def demo_funded_def demo_priced_def demo_reserved_def demo_settled_def demo_ordered_def demo_pending_def
  demo_paid_def demo_credited_def demo_refunding_def demo_topup_def demo_reserve_def demo_settle_def demo_order_def demo_refund_def

lemma demo_digits:
  "digits_of_nat 0 = ''0'' \<and> digits_of_nat 1 = ''1'' \<and> digits_of_nat 2 = ''2'' \<and> digits_of_nat 3 = ''3'' \<and> digits_of_nat 4 = ''4'' \<and> digits_of_nat 5 = ''5'' \<and>
   digits_of_nat 6 = ''6'' \<and> digits_of_nat 7 = ''7'' \<and> digits_of_nat 8 = ''8'' \<and> digits_of_nat 9 = ''9'' \<and> digits_of_nat 10 = ''10'' \<and> digits_of_nat 11 = ''11'' \<and>
   digits_of_nat 12 = ''12'' \<and> digits_of_nat 13 = ''13'' \<and> digits_of_nat 14 = ''14'' \<and> digits_of_nat 15 = ''15'' \<and> digits_of_nat 16 = ''16'' \<and> digits_of_nat 17 = ''17'' \<and>
   digits_of_nat 18 = ''18'' \<and> digits_of_nat 19 = ''19'' \<and> digits_of_nat 20 = ''20'' \<and> digits_of_nat 21 = ''21'' \<and> digits_of_nat 22 = ''22'' \<and> digits_of_nat 23 = ''23'' \<and>
   digits_of_nat 24 = ''24'' \<and> digits_of_nat 25 = ''25'' \<and> digits_of_nat 26 = ''26'' \<and> digits_of_nat 27 = ''27'' \<and> digits_of_nat 28 = ''28'' \<and> digits_of_nat 29 = ''29'' \<and>
   digits_of_nat 30 = ''30'' \<and> digits_of_nat 31 = ''31'' \<and> digits_of_nat 32 = ''32'' \<and> digits_of_nat 33 = ''33'' \<and> digits_of_nat 34 = ''34'' \<and> digits_of_nat 35 = ''35'' \<and>
   digits_of_nat 36 = ''36'' \<and> digits_of_nat 37 = ''37'' \<and> digits_of_nat 38 = ''38'' \<and> digits_of_nat 39 = ''39'' \<and> digits_of_nat 40 = ''40'' \<and> digits_of_nat 41 = ''41'' \<and>
   digits_of_nat 42 = ''42'' \<and> digits_of_nat 43 = ''43'' \<and> digits_of_nat 44 = ''44''"
  by code_simp

lemma demo_digits_Suc:
  "digits_of_nat (Suc 0) = ''1'' \<and> digits_of_nat (Suc (Suc 0)) = ''2'' \<and> digits_of_nat (Suc (Suc (Suc 0))) = ''3'' \<and>
   digits_of_nat (Suc (Suc (Suc (Suc 0)))) = ''4'' \<and> digits_of_nat (Suc (Suc (Suc (Suc (Suc 0))))) = ''5'' \<and>
   digits_of_nat (Suc (Suc (Suc (Suc (Suc (Suc 0)))))) = ''6''"
  by code_simp

lemma demo_text:
  "TrimSpace ''acme'' = ''acme'' \<and> TrimSpace ''p'' = ''p'' \<and> TrimSpace ''r1'' = ''r1'' \<and> TrimSpace ''k1'' = ''k1'' \<and> TrimSpace ''f1'' = ''f1'' \<and>
   ToUpper ''USD'' = ''USD'' \<and> currencyPattern ''USD'' \<and> TrimSpace ''unused'' = ''unused'' \<and> TrimSpace ''wire-7'' = ''wire-7''"
  by code_simp

lemma demo_order_text:
  "ToUpper (TrimSpace ''USD'') = ''USD'' \<and> ToUpper (TrimSpace ''US'') = ''US'' \<and> ToLower (TrimSpace ''manual_transfer'') = ''manual_transfer'' \<and> TrimSpace [] = [] \<and>
   ToUpper [] = [] \<and> providerNameOk ''manual_transfer'' \<and> regionOk ''US'' \<and> hashOk ''aaaaaaaaaaaaaaaaaaaaaaaaaaaaaaaaaaaaaaaaaaaaaaaaaaaaaaaaaaaaaaaa''"
  by code_simp

lemma demo_decimals:
  "round12 0 = 0 \<and> round12 1 = 1000000000000 \<and> round12 3 = 3000000000000 \<and> signed_units 8 0 = 0 \<and> rat_of_money 5000000000000 = 5 \<and>
   Decimal_IsPositive ''7'' = Inr True \<and> decimalEqual ''7'' (numericText 7000000000000) \<and> mustFundingRat ''7'' = Inr 7000000000000 \<and>
   columnValue ''7'' = Inr 7000000000000"
  by code_simp

section \<open>The steps between them\<close>

lemma demo_initial: "initial demo_empty"
  by (simp add: initial_def demo_empty_def)

lemma eval_wallet: "createOrganizationWallet ''acme'' demo_empty = Inr ((), demo_wallet)"
  by (simp add: createOrganizationWallet_def createWalletAccounts_def ensureAccount_def newWallet_def run_core run_ledger demo_states demo_digits demo_digits_Suc demo_text cong: bindT_cong thenT_cong)

lemma eval_funded: "CreateWalletTransaction demo_topup demo_wallet = Inr (hd (wallet_transactions demo_funded), demo_funded)"
  by (simp add: CreateWalletTransaction_def writeTransaction_def transactionLines_def run_core run_ledger run_lots demo_states demo_digits demo_text demo_decimals cong: bindT_cong thenT_cong)

lemma eval_reserved: "ReserveFunding demo_reserve demo_priced = Inr ((hd (operations demo_reserved), False), demo_reserved)"
  by (simp add: run_core run_ledger run_lots run_funding walletAdmits_def demo_states demo_digits demo_text demo_decimals cong: bindT_cong thenT_cong)

lemma demo_settle_text: "fundingRat ''2'' = Inr 2000000000000 \<and> mustFundingRat ''0'' = Inr 0 \<and> fundingRat ''0'' = Inr 0"
  by code_simp

lemma demo_price_text: "TrimSpace ''USD'' = ''USD'' \<and> validateRate \<lparr>Input = ''0'', Cached = ''0'', Output = ''0'', Fixed = ''0'', Unit = 1000000, Currency = ''USD''\<rparr> = Inr () \<and>
   validateRate \<lparr>Input = ''2'', Cached = ''1'', Output = ''6'', Fixed = ''0'', Unit = 1000000, Currency = ''USD''\<rparr> = Inr () \<and>
   nonNegative (zeroIfEmpty (numericText 0)) = Inr 0 \<and> nonNegative (zeroIfEmpty (rateText 0)) = Inr 0 \<and> nonNegative (oneIfEmpty (numericText 1000000000000)) = Inr 1 \<and>
   calculateRate \<lparr>Input = ''0'', Cached = ''0'', Output = ''0'', Fixed = ''0'', Unit = 1000000, Currency = ''USD''\<rparr> (tokensOf 1000000 0 0) = Some 0 \<and>
   calculateRate \<lparr>Input = ''2'', Cached = ''1'', Output = ''6'', Fixed = ''0'', Unit = 1000000, Currency = ''USD''\<rparr> (tokensOf 1000000 0 0) = Some 2 \<and>
   FinalAmount (calculateAmounts 0 2 0 0 1) = ''2'' \<and> PromotionAmount (calculateAmounts 0 2 0 0 1) = ''0''"
  by code_simp

lemma demo_tokens: "InputTokens (tokensOf 1000000 0 0) = 1000000" "CachedTokens (tokensOf 1000000 0 0) = 0" "OutputTokens (tokensOf 1000000 0 0) = 0"
  by (simp_all add: tokensOf_def)

lemma eval_settled: "SettleFunding (demo_settle ''u13'' 1000000) demo_reserved = Inr (hd (operations demo_settled), demo_settled)"
  by (simp add: run_core run_ledger run_lots run_funding settlementAmounts_def fundingAmountsForVersion_def versionById_def calculateE_def zeroRate_def
      Calculate_def normalizeCurrency_def wrapE_def demo_price_text demo_settle_text demo_tokens demo_states demo_digits demo_text cong: bindT_cong thenT_cong)

lemma eval_ordered: "CreateRechargeOrder demo_sha demo_order demo_wallet = Inr ((hd (recharge_orders demo_ordered), False), demo_ordered)"
  by (simp add: run_core run_ledger run_lots run_payments normalizeRecharge_def rechargeValid_def rechargeFingerprint_def demo_sha_def demo_order_text
      demo_states demo_digits demo_text demo_decimals cong: bindT_cong thenT_cong)

lemma eval_pending: "MarkRechargePending ''u7'' ''N1'' demo_ordered = Inr (hd (recharge_orders demo_pending), demo_pending)"
  by (simp add: run_core run_payments demo_states demo_digits demo_text demo_decimals cong: bindT_cong thenT_cong)

lemma eval_paid: "MarkRechargePaid ''u7'' ''wire-7'' None demo_pending = Inr (hd (recharge_orders demo_paid), demo_paid)"
  by (simp add: run_core run_payments demo_states demo_digits demo_text demo_decimals cong: bindT_cong thenT_cong)

lemma eval_credited: "CreditPaidRecharge ''u7'' demo_paid = Inr ((hd (recharge_orders demo_credited), False), demo_credited)"
  by (simp add: run_core run_ledger run_lots run_payments demo_states demo_digits demo_text demo_decimals cong: bindT_cong thenT_cong)

lemma eval_refunding: "CreateRefundOrder demo_refund demo_credited = Inr ((hd (refund_orders demo_refunding), False), demo_refunding)"
  by (simp add: run_core run_ledger run_lots run_payments demo_states demo_digits demo_text demo_decimals cong: bindT_cong thenT_cong)

text \<open>All of them are reachable, for any digest and any further checks.\<close>

lemma reachable_step: "reachable sha checks s \<Longrightarrow> perform sha checks c s = t \<Longrightarrow> reachable sha checks t"
  using reachable.called [of sha checks s c] by simp

lemma demo_reachable:
  "reachable demo_sha demo_checks demo_wallet" "reachable demo_sha demo_checks demo_funded" "reachable demo_sha demo_checks demo_priced"
  "reachable demo_sha demo_checks demo_reserved" "reachable demo_sha demo_checks demo_settled" "reachable demo_sha demo_checks demo_paid"
  "reachable demo_sha demo_checks demo_credited" "reachable demo_sha demo_checks demo_refunding"
proof -
  show w: "reachable demo_sha demo_checks demo_wallet"
    by (rule reachable_step [OF reachable.start [OF demo_initial], of _ _ "CallCreateOrganization ''acme''"]) (simp add: eval_wallet commit_def)
  show f: "reachable demo_sha demo_checks demo_funded"
    by (rule reachable_step [OF w, of "CallWalletTransaction demo_topup"]) (simp add: eval_funded commit_def)
  have "elsewhere demo_funded demo_priced"
    by (simp add: elsewhere_def demo_priced_def hist_tables_def lot_tables_def owner_tables_def)
  with f show p: "reachable demo_sha demo_checks demo_priced" by (rule reachable.outside)
  show r: "reachable demo_sha demo_checks demo_reserved"
    by (rule reachable_step [OF p, of "CallReserve demo_reserve"]) (simp add: eval_reserved commit_def)
  show "reachable demo_sha demo_checks demo_settled"
    by (rule reachable_step [OF r, of "CallSettle (demo_settle ''u13'' 1000000)"]) (simp add: eval_settled commit_def)
  have o: "reachable demo_sha demo_checks demo_ordered"
    by (rule reachable_step [OF w, of "CallCreateRecharge demo_order"]) (simp add: eval_ordered commit_def)
  have q: "reachable demo_sha demo_checks demo_pending"
    by (rule reachable_step [OF o, of "CallMarkPending ''u7'' ''N1''"]) (simp add: eval_pending commit_def)
  show a: "reachable demo_sha demo_checks demo_paid"
    by (rule reachable_step [OF q, of "CallMarkPaid ''u7'' ''wire-7'' None"]) (simp add: eval_paid commit_def)
  show c: "reachable demo_sha demo_checks demo_credited"
    by (rule reachable_step [OF a, of "CallCredit ''u7''"]) (simp add: eval_credited commit_def)
  show "reachable demo_sha demo_checks demo_refunding"
    by (rule reachable_step [OF c, of "CallCreateRefund demo_refund"]) (simp add: eval_refunding commit_def)
qed

end
