(* ===== verification/FundingEffects.thy ===== *)
theory FundingEffects
  imports Example
begin

text \<open>
  What the funding operations do, in full: the rows of \<open>funding_operation\<close> and \<open>wallets\<close> after a reservation and after a
  settlement, replays, the recovery pass, late corrections and reversals, and the refinement of a
  hold account by the pair of tables.
\<close>

section \<open>Operations and wallets\<close>

definition ow :: "db \<Rightarrow> FundingOperation list \<times> Wallet list" where
  "ow s = (operations s, wallets s)"

lemma ow_frame:
  "keeps ow uuidT" "keeps ow (writeAuditTx x y z)" "keeps ow (insertWalletTransaction t)"
  "keeps ow (postLinkedJournalTx wi ty k cur ref rc rf ls)" "keeps ow (postJournalTx wi ty k cur ref ls)"
  "keeps ow (reserveCashLotsTx op wi m)" "keeps ow (allocateCashDebitTx wi tx m)"
  "keeps ow (settleCashLotsTx op wi tx m)" "keeps ow (restoreCashAllocationTx wi src rtx m)"
  "keeps ow (reservePromotionTx op org cur m)" "keeps ow (settlePromotionTx op m)" "keeps ow (reversePromotionTx op m)"
  "keeps ow (insertFundingEvent op st m src)" "keeps ow (setUsageStatus op ust)"
  "keeps ow (settlementJournal q a ru ov)" "keeps ow (releaseJournal q rel)" "keeps ow (settleProviderBudget q r)"
  "keeps ow (settlementAmounts q r)" "keeps ow (settlementCharge q ac na jid)" "keeps ow (insertAdjustment ad)" "keeps ow (correctedAmount q lu)"
  by (intro keeps_uuidT keeps_writeAuditTx keeps_insertWalletTransaction keeps_postLinkedJournalTx keeps_postJournalTx keeps_reserveCashLotsTx
        keeps_allocateCashDebitTx keeps_settleCashLotsTx keeps_restoreCashAllocationTx keeps_reservePromotionTx keeps_settlePromotionTx
        keeps_reversePromotionTx keeps_insertFundingEvent keeps_setUsageStatus keeps_settlementJournal keeps_settleProviderBudget
        keeps_settlementAmounts keeps_settlementCharge keeps_insertAdjustment keeps_correctedAmount;
      simp add: ow_def)+

lemma ow_keeps: "keeps ow m \<Longrightarrow> triple (\<lambda>s. ow s = x) m (\<lambda>_ s. ow s = x)"
  by (rule triple_keeps) auto

lemma ow_bind: "keeps ow m \<Longrightarrow> (\<And>y. triple (\<lambda>s. ow s = x) (g y) Q) \<Longrightarrow> triple (\<lambda>s. ow s = x) (bindT m g) Q"
  by (rule triple_bindT [OF ow_keeps])

lemma ow_then: "keeps ow m \<Longrightarrow> triple (\<lambda>s. ow s = x) n Q \<Longrightarrow> triple (\<lambda>s. ow s = x) (thenT m n) Q"
  by (rule triple_thenT [OF ow_keeps])

lemma ow_insertOperation: "triple (\<lambda>s. ow s = (os, ws)) (insertOperation q) (\<lambda>_ s. ow s = (os @ [q], ws) \<and> (\<forall>p \<in> set os. o_id p \<noteq> o_id q))"
  by (rule tripleI) (auto dest: insertOperation_Inr simp: ow_def)

lemma ow_updateWallet: "triple (\<lambda>s. ow s = (os, ws)) (updateWallet wid g) (\<lambda>_ s. ow s = (os, update_where (\<lambda>w. w_id w = wid) g ws))"
  by (rule tripleI) (auto dest: updateWallet_Inr simp: ow_def)

lemma ow_updateWalletReturning:
  "triple (\<lambda>s. ow s = (os, ws)) (updateWalletReturning wid g) (\<lambda>_ s. ow s = (os, update_where (\<lambda>w. w_id w = wid) g ws))"
  unfolding updateWalletReturning_def by (rule triple_thenT, rule ow_updateWallet, rule ow_keeps, rule frame)

lemma ow_updateOperation: "triple (\<lambda>s. ow s = (os, ws)) (updateOperation oid g) (\<lambda>_ s. ow s = (update_where (\<lambda>q. o_id q = oid) g os, ws))"
  by (rule tripleI) (auto dest: updateOperation_Inr simp: ow_def)

section \<open>Reservation\<close>

lemma find_by_key: "distinct (map key t) \<Longrightarrow> x \<in> set t \<Longrightarrow> find (\<lambda>y. key y = key x) t = Some x"
  by (induction t) (auto simp: image_iff)

lemma find_appended: "\<forall>p \<in> set xs. o_id p \<noteq> oid \<Longrightarrow> find (\<lambda>p. o_id p = oid) (xs @ [q]) = (if o_id q = oid then Some q else None)"
  by (induction xs) auto

lemma newOperation_id: "o_id (newOperation rq w oid m p tax ex now) = oid"
  by (simp add: newOperation_def)

definition reservedWallet :: "money \<Rightarrow> Wallet \<Rightarrow> Wallet" where
  "reservedWallet m v = v\<lparr>w_available := w_available v - m, w_reserved := w_reserved v + m, w_version := w_version v + 1\<rparr>"

lemma placeReservation_effect:
  assumes "placeReservation rq w m s = Inr (q, s')"
  shows "operations s' = operations s @ [q]" "wallets s' = update_where (\<lambda>v. w_id v = w_id w) (reservedWallet (round12 m)) (wallets s)"
    "\<forall>p \<in> set (operations s). o_id p \<noteq> o_id q" "o_wallet q = w_id w" "o_status q = F_RESERVED" "o_maximum q = round12 m" "o_settled q = 0"
    "o_key q = fr_key rq" "o_org q = fr_org rq" "o_fingerprint q = fr_fingerprint rq" "o_project q = fr_project rq" "o_api_key q = nullString (fr_api_key rq)"
proof -
  define x where "x = (operations s, wallets s)"
  define Q where "Q q s' \<longleftrightarrow> (\<exists>oid p tax ex now. q = newOperation rq w oid (round12 m) p tax ex now) \<and>
      ow s' = (fst x @ [q], update_where (\<lambda>v. w_id v = w_id w) (reservedWallet (round12 m)) (snd x)) \<and> (\<forall>p \<in> set (fst x). o_id p \<noteq> o_id q)" for q s'
  have "triple (\<lambda>s. ow s = (fst x, snd x)) (placeReservation rq w m) Q"
    unfolding placeReservation_def Let_def
    apply (rule ow_bind, rule ow_frame)
    subgoal for oid
      apply (rule ow_bind, rule frame)
      subgoal for promo
        apply (rule ow_bind, rule frame)
        apply (simp only: split_paired_all prod.case)
        subgoal for tax ex
          apply (rule ow_bind, rule frame)
          subgoal for now
            apply (rule triple_thenT, rule ow_insertOperation)
            apply (simp only: conj_commute [of "ow _ = _"], rule triple_conj)
            apply (rule ow_then, rule ow_frame)
            apply (rule ow_bind, rule ow_frame)
            apply (rule ow_then, rule frame)
            apply (rule ow_then, intro frame ow_frame)
            apply (rule triple_thenT, rule ow_updateWallet)
            apply (rule ow_then, rule ow_frame)
            apply (rule ow_then, rule ow_frame)
            apply (rule triple_post, rule triple_rowT)
            apply (auto simp: Q_def ow_def opById_def find_appended newOperation_id reservedWallet_def [abs_def]; blast)
            done
          done
        done
      done
    done
  then have "Q q s'" by (rule tripleD) (use assms in \<open>simp_all add: ow_def x_def\<close>)
  then show "operations s' = operations s @ [q]" "wallets s' = update_where (\<lambda>v. w_id v = w_id w) (reservedWallet (round12 m)) (wallets s)"
    "\<forall>p \<in> set (operations s). o_id p \<noteq> o_id q" "o_wallet q = w_id w" "o_status q = F_RESERVED" "o_maximum q = round12 m" "o_settled q = 0"
    "o_key q = fr_key rq" "o_org q = fr_org rq" "o_fingerprint q = fr_fingerprint rq" "o_project q = fr_project rq" "o_api_key q = nullString (fr_api_key rq)"
    by (auto simp: Q_def x_def ow_def newOperation_def)
qed

section \<open>Settlement\<close>

lemma writeSettlement_effect:
  assumes "writeSettlement q w r amountText promotionText feeText shadowText s = Inr (u, s')"
  obtains actual consumed fee shadow now where "fundingRat amountText = Inr actual"
    "operations s' = update_where (\<lambda>p. o_id p = o_id q) (settledOperation r actual (o_maximum q - min actual (o_maximum q)) consumed fee shadow now) (operations s)"
    "wallets s' = update_where (\<lambda>v. w_id v = o_wallet q) (settledWallet q w (o_maximum q - min actual (o_maximum q)) (actual - min actual (o_maximum q))) (wallets s)"
  using assms
proof (rule writeSettlement_Inr)
  fix promotion consumed actual fee shadow jid newAvailable s1 s2 s3 s4 s5 s6 s7 s8
  let ?rel = "o_maximum q - min actual (o_maximum q)" and ?ov = "actual - min actual (o_maximum q)"
  assume a: "settlePromotionTx (o_id q) promotion s = Inr (consumed, s1)" "fundingRat amountText = Inr actual"
    "settlementJournal q actual (min actual (o_maximum q)) ?ov s1 = Inr (jid, s2)" "releaseJournal q ?rel s2 = Inr ((), s3)"
    "settleWallet q w ?rel ?ov s3 = Inr (newAvailable, s4)" "settleOperation q r actual ?rel consumed fee shadow s4 = Inr ((), s5)"
    "settlementCharge q actual newAvailable jid s5 = Inr ((), s6)"
    "setUsageStatus (o_id q) (if 0 < actual then U_CHARGED else U_WAIVED) s6 = Inr ((), s7)"
    "writeAuditTx None ''wallet.funding_settled'' (o_id q) s7 = Inr ((), s8)" "settleProviderBudget q r s8 = Inr ((), s')"
  have "ow s1 = ow s" by (rule keepsD [OF ow_frame(11) a(1)])
  moreover have "ow s2 = ow s1" by (rule keepsD [OF ow_frame(15) a(3)])
  moreover have "ow s3 = ow s2" by (rule keepsD [OF ow_frame(16) a(4)])
  moreover have "ow s4 = (operations s3, update_where (\<lambda>v. w_id v = o_wallet q) (settledWallet q w ?rel ?ov) (wallets s3))"
    using a(5) unfolding settleWallet_def by (auto dest!: updateWallet_Inr simp: ow_def)
  moreover obtain now where "ow s5 = (update_where (\<lambda>p. o_id p = o_id q) (settledOperation r actual ?rel consumed fee shadow now) (operations s4), wallets s4)"
  proof -
    have "triple (\<lambda>s. ow s = (operations s4, wallets s4)) (settleOperation q r actual ?rel consumed fee shadow)
      (\<lambda>_ s. \<exists>now. ow s = (update_where (\<lambda>p. o_id p = o_id q) (settledOperation r actual ?rel consumed fee shadow now) (operations s4), wallets s4))"
      unfolding settleOperation_def
      apply (rule ow_bind, rule frame)
      subgoal for now
        apply (rule triple_thenT, rule ow_updateOperation)
        apply (rule triple_post, rule ow_keeps, intro frame ow_frame)
        apply blast
        done
      done
    from tripleD [OF this _ a(6)] that show thesis by (auto simp: ow_def)
  qed
  moreover have "ow s6 = ow s5" by (rule keepsD [OF ow_frame(19) a(7)])
  moreover have "ow s7 = ow s6" by (rule keepsD [OF ow_frame(14) a(8)])
  moreover have "ow s8 = ow s7" by (rule keepsD [OF ow_frame(2) a(9)])
  moreover have "ow s' = ow s8" by (rule keepsD [OF ow_frame(17) a(10)])
  ultimately show thesis using that a(2) by (auto simp: ow_def)
qed

lemma settlement_effect:
  assumes "SettleFunding r s = Inr (p, s')" "opById (fs_operation r) s = Some q" "inFlight q"
  obtains w t1 t2 t3 t4 s1 actual consumed fee shadow now where "walletById (o_wallet q) s = Some w"
    "settlementAmounts q r s = Inr ((t1, t2, t3, t4), s1)" "fundingRat t1 = Inr actual"
    "operations s' = update_where (\<lambda>p. o_id p = o_id q) (settledOperation r actual (o_maximum q - min actual (o_maximum q)) consumed fee shadow now) (operations s)"
    "wallets s' = update_where (\<lambda>v. w_id v = o_wallet q) (settledWallet q w (o_maximum q - min actual (o_maximum q)) (actual - min actual (o_maximum q))) (wallets s)"
    "p = settledOperation r actual (o_maximum q - min actual (o_maximum q)) consumed fee shadow now q"
  using assms(1)
proof (rule SettleFunding_Inr)
  assume "opById (fs_operation r) s = Some p" "isFundingTerminal (o_status p)"
  with assms show thesis by (simp add: inFlight_def)
next
  fix q' w t1 t2 t3 t4 s1
  assume a: "opById (fs_operation r) s = Some q'" "walletById (o_wallet q') s = Some w" "settlementAmounts q' r s = Inr ((t1, t2, t3, t4), s1)"
    "writeSettlement q' w r t1 t2 t3 t4 s1 = Inr ((), s')" "opById (o_id q') s' = Some p"
  have q': "q' = q" using a(1) assms(2) by simp
  have s1: "ow s1 = ow s" by (rule keepsD [OF ow_frame(18) a(3)])
  from a(4) show thesis unfolding q'
  proof (rule writeSettlement_effect)
    fix actual consumed fee shadow now
    let ?g = "settledOperation r actual (o_maximum q - min actual (o_maximum q)) consumed fee shadow now"
    assume f: "fundingRat t1 = Inr actual" and e: "operations s' = update_where (\<lambda>p. o_id p = o_id q) ?g (operations s1)"
      "wallets s' = update_where (\<lambda>v. w_id v = o_wallet q) (settledWallet q w (o_maximum q - min actual (o_maximum q)) (actual - min actual (o_maximum q))) (wallets s1)"
    have "find (\<lambda>p. o_id p = o_id q) (operations s) = Some q"
      using assms(2) find_SomeD [OF assms(2) [unfolded opById_def]] by (simp add: opById_def)
    then have "p = ?g q"
      using a(5) s1 by (simp add: q' opById_def e ow_def find_update_where settledOperation_def)
    with that [OF a(2) [unfolded q'] a(3) [unfolded q'] f] e s1 show thesis by (simp add: ow_def)
  qed
qed

section \<open>Hold accounts\<close>

text \<open>What the two tables promise together: an account with a balance and holds that are opened against it and
  closed with a charge.\<close>

record holdAccount =
  balance :: money
  holds :: "string \<rightharpoonup> money"

definition openHold :: "string \<Rightarrow> money \<Rightarrow> holdAccount \<Rightarrow> holdAccount" where
  "openHold h m a = a\<lparr>balance := balance a - m, holds := (holds a)(h \<mapsto> m)\<rparr>"

definition closeHold :: "string \<Rightarrow> money \<Rightarrow> holdAccount \<Rightarrow> holdAccount" where
  "closeHold h charge a = (case holds a h of None \<Rightarrow> a | Some m \<Rightarrow> a\<lparr>balance := balance a + m - charge, holds := (holds a)(h := None)\<rparr>)"

definition account :: "db \<Rightarrow> string \<Rightarrow> holdAccount" where
  "account s wid = \<lparr>balance = (case walletById wid s of None \<Rightarrow> 0 | Some w \<Rightarrow> w_available w),
     holds = (\<lambda>oid. case opById oid s of None \<Rightarrow> None | Some q \<Rightarrow> if o_wallet q = wid \<and> inFlight q then Some (o_maximum q) else None)\<rparr>"

lemma close_open: "holds a h = None \<Longrightarrow> closeHold h 0 (openHold h m a) = a"
  by (cases a) (auto simp: closeHold_def openHold_def fun_eq_iff)

lemma wallet_update_account:
  assumes "wallets s' = update_where (\<lambda>w. w_id w = wid) g (wallets s)" "\<And>w. w_id (g w) = w_id w"
  shows "walletById v s' = map_option (\<lambda>w. if w_id w = wid then g w else w) (walletById v s)"
  unfolding walletById_def assms(1) by (rule find_update_where) (simp add: assms(2))

lemma walletById_id: "walletById v s = Some w \<Longrightarrow> w_id w = v"
  unfolding walletById_def by (drule find_SomeD) simp

lemma opById_id: "opById v s = Some q \<Longrightarrow> o_id q = v"
  unfolding opById_def by (drule find_SomeD) simp

lemma place_account:
  assumes "placeReservation rq w m s = Inr (q, s')" "walletByOrg (fr_org rq) s = Some w"
  shows "account s' v = (if v = o_wallet q then openHold (o_id q) (o_maximum q) (account s v) else account s v)"
proof -
  note e = placeReservation_effect [OF assms(1)]
  have w: "walletById (o_wallet q) s \<noteq> None"
    using assms(2) unfolding e(4) walletById_def walletByOrg_def by (auto simp: find_None_iff dest: find_SomeD)
  have new: "opById (o_id q) s = None" using e(3) by (simp add: opById_def find_None_iff)
  have o: "opById k s' = (if k = o_id q then Some q else opById k s)" for k
    using new by (auto simp: opById_def e(1) find_append split: option.split)
  have "walletById v s' = map_option (\<lambda>u. if w_id u = w_id w then reservedWallet (round12 m) u else u) (walletById v s)"
    by (rule wallet_update_account [OF e(2)]) (simp add: reservedWallet_def)
  then show ?thesis
    using w new e(4-6) by (auto simp: account_def openHold_def o fun_eq_iff inFlight_def isFundingTerminal_def reservedWallet_def dest: walletById_id
        split: option.splits)
qed

lemma settle_account:
  assumes "SettleFunding r s = Inr (p, s')" "opById (fs_operation r) s = Some q" "inFlight q"
  shows "account s' v = (if v = o_wallet q then closeHold (o_id q) (o_settled p) (account s v) else account s v)"
    "o_released p = o_maximum q - min (o_settled p) (o_maximum q)" "isFundingTerminal (o_status p)" "opById (fs_operation r) s' = Some p"
proof -
  from assms obtain w t1 t2 t3 t4 s1 actual consumed fee shadow now where w: "walletById (o_wallet q) s = Some w"
    and os: "operations s' = update_where (\<lambda>p. o_id p = o_id q) (settledOperation r actual (o_maximum q - min actual (o_maximum q)) consumed fee shadow now) (operations s)"
    and ws: "wallets s' = update_where (\<lambda>v. w_id v = o_wallet q)
      (settledWallet q w (o_maximum q - min actual (o_maximum q)) (actual - min actual (o_maximum q))) (wallets s)"
    and p: "p = settledOperation r actual (o_maximum q - min actual (o_maximum q)) consumed fee shadow now q"
    by (rule settlement_effect)
  let ?rel = "o_maximum q - min actual (o_maximum q)" and ?ov = "actual - min actual (o_maximum q)"
  let ?g = "settledOperation r actual ?rel consumed fee shadow now"
  have id: "fs_operation r = o_id q" using opById_id [OF assms(2)] by simp
  have o: "opById k s' = map_option (\<lambda>u. if o_id u = o_id q then ?g u else u) (opById k s)" for k
    unfolding opById_def os by (rule find_update_where) (simp add: settledOperation_def)
  have final: "isFundingTerminal (o_status (?g u))" for u
    by (simp add: settledOperation_def settlementStatus_def isFundingTerminal_def)
  have ok: "opById k s' = (if k = o_id q then Some p else opById k s)" for k
    using assms(2) by (cases "opById k s") (auto simp: o p id dest: opById_id)
  have wk: "walletById v s' = map_option (\<lambda>u. if w_id u = o_wallet q then settledWallet q w ?rel ?ov u else u) (walletById v s)" for v
    by (rule wallet_update_account [OF ws]) (simp add: settledWallet_def Let_def)
  have fin: "isFundingTerminal (o_status p)" using final [of q] by (simp add: p)
  have settled: "o_settled p = actual" "o_released p = ?rel" by (simp_all add: p settledOperation_def)
  have "holds (account s (o_wallet q)) (o_id q) = Some (o_maximum q)"
    using assms(2,3) by (simp add: account_def id)
  moreover have "balance (account s' v) = (if v = o_wallet q then balance (account s v) + o_maximum q - actual else balance (account s v))" for v
    using w by (auto simp: account_def wk settledWallet_def Let_def dest: walletById_id split: option.split)
  moreover have "holds (account s' v) = (if v = o_wallet q then (holds (account s v))(o_id q := None) else holds (account s v))" for v
    using assms(2) final [of q] by (auto simp: account_def ok id fun_eq_iff p inFlight_def settledOperation_def split: option.split)
  ultimately show "account s' v = (if v = o_wallet q then closeHold (o_id q) (o_settled p) (account s v) else account s v)"
    by (auto simp: settled closeHold_def)
  show "o_released p = o_maximum q - min (o_settled p) (o_maximum q)" "isFundingTerminal (o_status p)" "opById (fs_operation r) s' = Some p"
    using fin by (simp_all add: settled ok id)
qed

section \<open>Properties\<close>

lemma demo_hold: "o_id (hd (operations demo_reserved)) = ''u13''" "o_wallet (hd (operations demo_reserved)) = ''u0''"
  "o_maximum (hd (operations demo_reserved)) = 3000000000000" "o_settled (hd (operations demo_settled)) = 2000000000000"
  "opById ''u13'' demo_reserved = Some (hd (operations demo_reserved))" "inFlight (hd (operations demo_reserved))"
  "fs_operation (demo_settle ''u13'' 1000000) = ''u13''"
  by (simp_all add: demo_reserved_def demo_settled_def demo_settle_def opById_def inFlight_def isFundingTerminal_def)

text \<open>C20. Admission refines the opening of a hold: a reservation that is not a replay takes its maximum from the
  balance of the wallet, opens one hold of that maximum under the new operation and leaves every other wallet alone.\<close>

theorem ReserveFunding_refines:
  assumes "ReserveFunding rq s = Inr ((q, False), s')"
  shows "account s' v = (if v = o_wallet q then openHold (o_id q) (o_maximum q) (account s v) else account s v)"
  using ReserveFunding_Inr [OF assms] place_account by blast

theorem ReserveFunding_refines_witness: "account demo_reserved ''u0'' = openHold ''u13'' 3000000000000 (account demo_priced ''u0'')"
  using ReserveFunding_refines [OF eval_reserved, of "''u0''"] by (simp add: demo_hold)

text \<open>C21. Settlement refines the closing of a hold: settling an operation in flight removes its hold, returns the held
  maximum to the balance less the amount charged, and leaves every other wallet and hold alone.\<close>

theorem SettleFunding_refines:
  assumes "SettleFunding r s = Inr (p, s')" "opById (fs_operation r) s = Some q" "inFlight q"
  shows "account s' v = (if v = o_wallet q then closeHold (o_id q) (o_settled p) (account s v) else account s v)"
  by (rule settle_account(1) [OF assms])

theorem SettleFunding_refines_witness: "account demo_settled ''u0'' = closeHold ''u13'' 2000000000000 (account demo_reserved ''u0'')"
  using SettleFunding_refines [OF eval_settled, of "hd (operations demo_reserved)" "''u0''"] by (simp add: demo_hold)

lemma waived_amounts: "fs_waive r \<Longrightarrow> settlementAmounts q r s = Inr ((t1, t2, t3, t4), s1) \<Longrightarrow> t1 = ''0''"
  by (auto simp: settlementAmounts_def split: option.splits if_splits)

text \<open>C22. A reservation settled without charge leaves no trace on any account: the hold is gone and the balance is what
  it was before the reservation.\<close>

theorem reserve_waive_roundtrip:
  assumes "ReserveFunding rq s = Inr ((q, False), s1)" "SettleFunding r s1 = Inr (p, s2)" "fs_operation r = o_id q" "fs_waive r"
  shows "account s2 v = account s v \<and> o_settled p = 0 \<and> o_released p = o_maximum q"
proof -
  from assms(1) obtain w m where pl: "placeReservation rq w m s = Inr (q, s1)" "walletByOrg (fr_org rq) s = Some w"
    "fr_maximum rq = Some m" "0 \<le> m"
    using ReserveFunding_Inr by blast
  note e = placeReservation_effect [OF pl(1)]
  have q: "opById (fs_operation r) s1 = Some q"
    using e(1,3) by (simp add: opById_def assms(3) find_appended)
  have fl: "inFlight q" by (simp add: inFlight_def isFundingTerminal_def e(5))
  have zero: "o_settled p = 0"
    using assms(2) q fl
  proof (rule settlement_effect)
    fix w t1 t2 t3 t4 s' actual consumed fee shadow now
    assume "settlementAmounts q r s1 = Inr ((t1, t2, t3, t4), s')" "fundingRat t1 = Inr actual"
      "p = settledOperation r actual (o_maximum q - min actual (o_maximum q)) consumed fee shadow now q"
    then show "o_settled p = 0" using waived_amounts [OF assms(4)] demo_settle_text by (auto simp: settledOperation_def)
  qed
  have "holds (account s (o_wallet q)) (o_id q) = None"
    using e(3) by (auto simp: account_def opById_def split: option.split dest: find_SomeD)
  then have "account s2 v = account s v"
    using settle_account(1) [OF assms(2) q fl, of v] place_account [OF pl(1,2), of v] by (auto simp: zero close_open)
  moreover have "0 \<le> o_maximum q" using e(6) pl(4) by (simp add: round12_nonneg)
  ultimately show ?thesis using settle_account(2) [OF assms(2) q fl] by (simp add: zero)
qed

theorem reserve_waive_roundtrip_witness:
  "\<exists>p s2. SettleFunding (demo_settle ''u13'' 1\<lparr>fs_waive := True\<rparr>) demo_reserved = Inr (p, s2) \<and> account s2 ''u0'' = account demo_priced ''u0'' \<and>
     o_released p = 3000000000000"
proof -
  have "case SettleFunding (demo_settle ''u13'' 1\<lparr>fs_waive := True\<rparr>) demo_reserved of Inl e \<Rightarrow> False | Inr x \<Rightarrow> True"
    by (simp add: run_core run_ledger run_lots run_funding settlementAmounts_def demo_settle_text demo_states demo_digits demo_text
        cong: bindT_cong thenT_cong)
  then obtain p s2 where "SettleFunding (demo_settle ''u13'' 1\<lparr>fs_waive := True\<rparr>) demo_reserved = Inr (p, s2)"
    by (auto split: sum.splits)
  then show ?thesis
    using reserve_waive_roundtrip [OF eval_reserved, of "demo_settle ''u13'' 1\<lparr>fs_waive := True\<rparr>" p s2 "''u0''"]
    by (auto simp: demo_hold demo_settle_def)
qed

lemma rat_of_money_add: "rat_of_money (a + b) = rat_of_money a + rat_of_money b"
  by (simp add: rat_of_money_def add_divide_distrib)

lemma round12_le: "x \<le> rat_of_money m \<Longrightarrow> round12 x \<le> m"
  using round12_mono [of x "rat_of_money m"] by simp

text \<open>C23. Admission never overdraws: after a reservation the wallet of the organization has exactly the maximum less
  available and more reserved; a prepaid wallet stays at or above zero and one with an enforced credit line at or
  above minus the line.\<close>

theorem ReserveFunding_admits:
  assumes "ReserveFunding rq s = Inr ((q, False), s')"
  shows "\<exists>w w'. walletByOrg (fr_org rq) s = Some w \<and> walletByOrg (fr_org rq) s' = Some w' \<and> 0 \<le> o_maximum q \<and>
    w_available w' = w_available w - o_maximum q \<and> w_reserved w' = w_reserved w + o_maximum q \<and>
    (w_mode w = PREPAID \<longrightarrow> 0 \<le> w_available w') \<and> (w_mode w \<noteq> PREPAID \<and> w_credit_enforced w \<longrightarrow> - w_credit_limit w \<le> w_available w')"
proof -
  from assms obtain w m where pl: "placeReservation rq w m s = Inr (q, s')" "walletByOrg (fr_org rq) s = Some w" "0 \<le> m" "walletAdmits w m"
    using ReserveFunding_Inr by blast
  note e = placeReservation_effect [OF pl(1)]
  have "walletByOrg (fr_org rq) s' = map_option (\<lambda>v. if w_id v = w_id w then reservedWallet (round12 m) v else v) (walletByOrg (fr_org rq) s)"
    unfolding walletByOrg_def e(2) by (rule find_update_where) (simp add: reservedWallet_def)
  then have w': "walletByOrg (fr_org rq) s' = Some (reservedWallet (o_maximum q) w)" by (simp add: pl(2) e(6))
  have "w_mode w = PREPAID \<longrightarrow> o_maximum q \<le> w_available w"
    using pl(4) by (auto simp: walletAdmits_def Let_def e(6) intro!: round12_le split: if_splits)
  moreover have "w_mode w \<noteq> PREPAID \<and> w_credit_enforced w \<longrightarrow> o_maximum q \<le> w_available w + w_credit_limit w"
    using pl(4) by (auto simp: walletAdmits_def Let_def e(6) rat_of_money_add intro!: round12_le split: if_splits)
  ultimately show ?thesis using pl(2,3) w' by (auto simp: reservedWallet_def e(6) round12_nonneg)
qed

theorem ReserveFunding_admits_witness:
  "\<exists>w w'. walletByOrg ''acme'' demo_priced = Some w \<and> walletByOrg ''acme'' demo_reserved = Some w' \<and> w_available w' = w_available w - 3000000000000"
  using ReserveFunding_admits [OF eval_reserved] by (auto simp: demo_hold demo_reserve_def)

text \<open>C24. Reservations are idempotent: right after a reservation, a request of the same organization under the same key
  returns the same operation and writes nothing if it is the same request, and is refused as a conflict if its
  fingerprint, project or API key differ.\<close>

theorem ReserveFunding_idempotent:
  assumes "ReserveFunding rq s = Inr ((q, b), s')" "fr_org r = fr_org rq" "fr_key r = fr_key rq" "reservationValid r" "fr_maximum r = Some m" "0 \<le> m"
  shows "ReserveFunding r s' = (if fr_fingerprint r = fr_fingerprint rq \<and> fr_project r = fr_project rq \<and> fr_api_key r = fr_api_key rq
    then Inr ((q, True), s') else Inl ErrIdempotencyConflict)"
proof -
  have "find (\<lambda>q. o_org q = fr_org rq \<and> o_key q = fr_key rq) (operations s') = Some q \<and> o_fingerprint q = fr_fingerprint rq \<and>
    o_project q = fr_project rq \<and> (case o_api_key q of None \<Rightarrow> [] | Some k \<Rightarrow> k) = fr_api_key rq \<and> walletByOrg (fr_org rq) s' \<noteq> None"
  proof (cases b)
    case True
    with assms(1) show ?thesis unfolding ReserveFunding_def by (auto split: option.splits if_splits)
  next
    case False
    with assms(1) obtain w m' where pl: "placeReservation rq w m' s = Inr (q, s')" "walletByOrg (fr_org rq) s = Some w"
      "find (\<lambda>q. o_org q = fr_org rq \<and> o_key q = fr_key rq) (operations s) = None"
      using ReserveFunding_Inr by blast
    note e = placeReservation_effect [OF pl(1)]
    have "walletByOrg (fr_org rq) s' = map_option (\<lambda>v. if w_id v = w_id w then reservedWallet (round12 m') v else v) (walletByOrg (fr_org rq) s)"
      unfolding walletByOrg_def e(2) by (rule find_update_where) (simp add: reservedWallet_def)
    then show ?thesis using pl(2,3) e by (auto simp: find_append nullString_def)
  qed
  then show ?thesis
    using assms(2-6) by (auto simp: ReserveFunding_def thenT_def bindT_def unlessT_def liftT_def rowT_def getT_def returnT_def failT_def
        split: option.splits)
qed

theorem ReserveFunding_idempotent_witness:
  "ReserveFunding demo_reserve demo_reserved = Inr ((hd (operations demo_reserved), True), demo_reserved) \<and>
   ReserveFunding (demo_reserve\<lparr>fr_fingerprint := ''f2''\<rparr>) demo_reserved = Inl ErrIdempotencyConflict"
proof -
  have v: "reservationValid demo_reserve" "reservationValid (demo_reserve\<lparr>fr_fingerprint := ''f2''\<rparr>)"
    using demo_text by (simp_all add: reservationValid_def demo_reserve_def, code_simp)
  show ?thesis
    using ReserveFunding_idempotent [OF eval_reserved, of demo_reserve 3] ReserveFunding_idempotent [OF eval_reserved, of "demo_reserve\<lparr>fr_fingerprint := ''f2''\<rparr>" 3] v
    by (simp add: demo_reserve_def)
qed

lemma settle_final:
  assumes "SettleFunding r s = Inr (p, s')"
  shows "isFundingTerminal (o_status p)" "opById (fs_operation r) s' = Some p"
proof -
  have "isFundingTerminal (o_status p) \<and> opById (fs_operation r) s' = Some p"
    using assms
  proof (rule SettleFunding_Inr)
    fix q
    assume "opById (fs_operation r) s = Some q" "inFlight q"
    then show ?thesis using settle_account(3,4) [OF assms] by blast
  qed simp
  then show "isFundingTerminal (o_status p)" "opById (fs_operation r) s' = Some p" by simp_all
qed

text \<open>C25. A charge happens once: whatever settlement returns is final, and settling the same operation again, with any
  usage, returns it unchanged and writes nothing.\<close>

theorem SettleFunding_once:
  assumes "SettleFunding r s = Inr (p, s')" "fs_operation r' = fs_operation r"
    "0 \<le> fs_input r'" "0 \<le> fs_cached r'" "0 \<le> fs_output r'" "fs_cached r' \<le> fs_input r'" "0 \<le> fs_observed r'"
  shows "isFundingTerminal (o_status p) \<and> SettleFunding r' s' = Inr (p, s')"
  using assms settle_final [OF assms(1)]
  by (simp add: SettleFunding_def thenT_def bindT_def unlessT_def rowT_def returnT_def)

theorem SettleFunding_once_witness: "SettleFunding (demo_settle ''u13'' 999) demo_settled = Inr (hd (operations demo_settled), demo_settled)"
  using SettleFunding_once [OF eval_settled, of "demo_settle ''u13'' 999"] by (simp add: demo_settle_def)

end
