(* ===== verification/Recovery.thy ===== *)
theory Recovery
  imports FundingEffects
begin

text \<open>
  The recovery pass over stale funding operations (\<^verbatim>\<open>Store.RecoverStaleFunding\<close>): which errors a settlement
  can return, and what a pass that reports no error has done.
\<close>

section \<open>Errors a transaction cannot return\<close>

definition avoids :: "'e \<Rightarrow> ('s, 'e, 'a) tx \<Rightarrow> bool" where
  "avoids e m \<longleftrightarrow> (\<forall>s. m s \<noteq> Inl e)"

named_theorems avoid

lemma avoids_returnT [avoid]: "avoids e (returnT x)"
  by (simp add: avoids_def returnT_def)

lemma avoids_failT [avoid]: "e' \<noteq> e \<Longrightarrow> avoids e (failT e')"
  by (simp add: avoids_def failT_def)

lemma avoids_bindT [avoid]: "avoids e m \<Longrightarrow> (\<And>x. avoids e (f x)) \<Longrightarrow> avoids e (bindT m f)"
  by (auto simp: avoids_def bindT_def split: sum.splits)

lemma avoids_thenT [avoid]: "avoids e m \<Longrightarrow> avoids e n \<Longrightarrow> avoids e (thenT m n)"
  unfolding thenT_def by (rule avoids_bindT)

lemma avoids_getT [avoid]: "avoids e (getT f)"
  by (simp add: avoids_def getT_def)

lemma avoids_modifyT [avoid]: "avoids e (modifyT f)"
  by (simp add: avoids_def modifyT_def)

lemma avoids_unlessT [avoid]: "e' \<noteq> e \<Longrightarrow> avoids e (unlessT b e')"
  by (simp add: avoids_def unlessT_def)

lemma avoids_whenT [avoid]: "avoids e m \<Longrightarrow> avoids e (whenT b m)"
  by (simp add: avoids_def whenT_def)

lemma avoids_liftT [avoid]: "r \<noteq> Inl e \<Longrightarrow> avoids e (liftT r)"
  by (auto simp: avoids_def liftT_def split: sum.splits)

lemma avoids_rowT [avoid]: "e' \<noteq> e \<Longrightarrow> avoids e (rowT e' q)"
  by (auto simp: avoids_def rowT_def split: option.splits)

lemma avoids_checkT [avoid]: "e' \<noteq> e \<Longrightarrow> avoids e (checkT p e')"
  by (simp add: avoids_def checkT_def)

lemma avoids_uuidT [avoid]: "avoids e uuidT"
  by (simp add: avoids_def uuidT_def)

lemma avoids_if [avoid]: "avoids e m \<Longrightarrow> avoids e n \<Longrightarrow> avoids e (if b then m else n)"
  by simp

lemma avoids_option [avoid]: "avoids e m \<Longrightarrow> (\<And>x. avoids e (f x)) \<Longrightarrow> avoids e (case y of None \<Rightarrow> m | Some x \<Rightarrow> f x)"
  by (cases y) simp_all

lemma avoids_prod [avoid]: "(\<And>x y. avoids e (f x y)) \<Longrightarrow> avoids e (case p of (x, y) \<Rightarrow> f x y)"
  by (cases p) simp

lemma avoids_forT [avoid]: "(\<And>x. avoids e (f x)) \<Longrightarrow> avoids e (forT xs f)"
  by (induction xs) (auto intro!: avoid)

lemma avoids_greedyT [avoid]: "(\<And>x m. avoids e (step x m)) \<Longrightarrow> avoids e (greedyT cap step xs r)"
  by (induction xs arbitrary: r) (auto simp: Let_def intro!: avoid)

lemma avoids_spreadT [avoid]: "(\<And>x m. avoids e (step x m)) \<Longrightarrow> avoids e (spreadT cap step xs r)"
  by (induction xs arbitrary: r) (auto simp: Let_def intro!: avoid)

lemma funding_errors:
  "fundingRat t \<noteq> Inl ErrFundingTerminal" "mustFundingRat t \<noteq> Inl ErrFundingTerminal" "calculateE c r k p x y \<noteq> Inl ErrFundingTerminal"
  by (simp_all add: fundingRat_def mustFundingRat_def calculateE_def split: sum.splits option.splits)

lemma avoids_ledger: "avoids ErrFundingTerminal (postJournalTx wi ty k cur ref ls)"
  unfolding postJournalTx_def postLinkedJournalTx_def insertJournal_def postLine_def insertEntry_def numericT_def postDraft_def
  by (intro avoid) simp_all

lemma avoids_lots: "avoids ErrFundingTerminal (settleCashLotsTx op wi tx m)"
  unfolding settleCashLotsTx_def settleHold_def returnToLot_def debitRow_def insertCashAllocation_def numericT_def settleFundingCash_def
    allocateCashDebitTx_def debitFromLot_def takeFromLot_def Let_def
  by (intro avoid) simp_all

lemma avoids_promotion: "avoids ErrFundingTerminal (settlePromotionTx op m)"
  unfolding settlePromotionTx_def settleCredit_def updatePromotionAllocation_def updateCredit_def Let_def
  by (intro avoid) simp_all

lemma avoids_amounts: "avoids ErrFundingTerminal (settlementAmounts q r)"
  unfolding settlementAmounts_def fundingAmountsForVersion_def byokCharges_def byokShadowFee_def Let_def
  by (intro avoid) (simp_all add: funding_errors)

lemma avoids_SettleFunding: "avoids ErrFundingTerminal (SettleFunding r)"
  unfolding SettleFunding_def writeSettlement_def settlementJournal_def releaseJournal_def settleWallet_def updateWallet_def settleOperation_def
    updateOperation_def insertFundingEvent_def numericT_def settlementCharge_def insertWalletTransaction_def setUsageStatus_def writeAuditTx_def
    settleProviderBudget_def actualProviderCost_def Let_def
  by (intro avoid avoids_ledger avoids_lots avoids_promotion avoids_amounts) (simp_all add: funding_errors)

section \<open>A pass\<close>

definition inFlightCount :: "db \<Rightarrow> nat" where
  "inFlightCount s = length (filter inFlight (operations s))"

lemma count_update:
  assumes "distinct (map o_id t)" "q \<in> set t" "inFlight q" "\<not> inFlight (g q)"
  shows "Suc (length (filter inFlight (update_where (\<lambda>p. o_id p = o_id q) g t))) = length (filter inFlight t)"
  using assms
proof (induction t)
  case (Cons p t)
  show ?case
  proof (cases "p = q")
    case True
    with Cons.prems(1) have "update_where (\<lambda>p. o_id p = o_id q) g t = t"
      by (intro update_where_none) (auto simp: image_iff)
    then show ?thesis using Cons.prems True by simp
  next
    case False
    then have "q \<in> set t" "o_id p \<noteq> o_id q" using Cons.prems by auto
    then show ?thesis using Cons by simp
  qed
qed simp

lemma count_heartbeat: "length (filter inFlight (update_where p (\<lambda>q. q\<lparr>o_heartbeat := now\<rparr>) t)) = length (filter inFlight t)"
  by (induction t) (auto simp: inFlight_def)

lemma settle_count:
  assumes "SettleFunding r s = Inr (p, s')" "opById (fs_operation r) s = Some q" "inFlight q" "distinct (map o_id (operations s))"
  shows "Suc (inFlightCount s') = inFlightCount s" "map o_id (operations s') = map o_id (operations s)"
    "k \<noteq> fs_operation r \<Longrightarrow> opById k s' = opById k s"
proof -
  from assms(1-3) obtain actual rel consumed fee shadow now where
    os: "operations s' = update_where (\<lambda>p. o_id p = o_id q) (settledOperation r actual rel consumed fee shadow now) (operations s)"
    by (rule settlement_effect)
  have q: "q \<in> set (operations s)" "o_id q = fs_operation r" using assms(2) by (auto simp: opById_def dest: find_SomeD)
  have "\<not> inFlight (settledOperation r actual rel consumed fee shadow now q)"
    by (simp add: inFlight_def isFundingTerminal_def settledOperation_def settlementStatus_def)
  with count_update [OF assms(4) q(1) assms(3)] show "Suc (inFlightCount s') = inFlightCount s"
    by (simp add: inFlightCount_def os)
  show "map o_id (operations s') = map o_id (operations s)"
    unfolding os by (rule map_update_where) (simp add: settledOperation_def)
  assume k: "k \<noteq> fs_operation r"
  have "opById k s' = map_option (\<lambda>u. if o_id u = o_id q then settledOperation r actual rel consumed fee shadow now u else u) (opById k s)"
    unfolding opById_def os by (rule find_update_where) (simp add: settledOperation_def)
  with k q(2) show "opById k s' = opById k s" by (cases "opById k s") (auto dest: opById_id)
qed

definition finalIn :: "db \<Rightarrow> string \<Rightarrow> bool" where
  "finalIn s oid \<longleftrightarrow> (\<exists>p. opById oid s = Some p \<and> isFundingTerminal (o_status p))"

lemma settleStale_progress:
  assumes "settleStale items recovered s = (n, err, s')" "distinct (map o_id items)" "distinct (map o_id (operations s))"
    "\<forall>x \<in> set items. \<exists>q. opById (o_id x) s = Some q \<and> inFlight q"
  shows "\<exists>k \<le> length items. n = recovered + int k \<and> inFlightCount s' + k = inFlightCount s \<and> (err = None \<longrightarrow> k = length items) \<and>
    (\<forall>x \<in> set (take k items). finalIn s' (o_id x)) \<and> (\<forall>oid. oid \<notin> o_id ` set items \<longrightarrow> opById oid s' = opById oid s)"
  using assms
proof (induction items arbitrary: recovered s)
  case Nil
  then show ?case by auto
next
  case (Cons x items)
  from Cons.prems(4) obtain q where q: "opById (fs_operation (recoveryRequest x)) s = Some q" "inFlight q"
    by (auto simp: recoveryRequest_def)
  show ?case
  proof (cases "SettleFunding (recoveryRequest x) s")
    case (Inl e)
    moreover have "e \<noteq> ErrFundingTerminal" using avoids_SettleFunding Inl by (metis avoids_def)
    ultimately show ?thesis using Cons.prems(1) by (auto simp: commit_def)
  next
    case (Inr r)
    obtain p t where pt: "SettleFunding (recoveryRequest x) s = Inr (p, t)" using Inr by (cases r) auto
    note c = settle_count [OF pt q Cons.prems(3)]
    have id: "fs_operation (recoveryRequest x) = o_id x" by (simp add: recoveryRequest_def)
    have rest: "settleStale items (recovered + 1) t = (n, err, s')" using Cons.prems(1) pt by (simp add: commit_def)
    have "\<forall>y \<in> set items. opById (o_id y) t = opById (o_id y) s"
      using Cons.prems(2) by (auto simp: image_iff intro!: c(3) simp: id)
    then have "\<forall>y \<in> set items. \<exists>q. opById (o_id y) t = Some q \<and> inFlight q"
      using Cons.prems(4) by simp
    with Cons.IH [OF rest] Cons.prems(2,3) c(2) obtain k where k: "k \<le> length items" "n = recovered + 1 + int k" "inFlightCount s' + k = inFlightCount t"
      "err = None \<longrightarrow> k = length items" "\<forall>x \<in> set (take k items). finalIn s' (o_id x)" "\<forall>oid. oid \<notin> o_id ` set items \<longrightarrow> opById oid s' = opById oid t"
      by auto
    have "finalIn s' (o_id x)"
      using settle_final [OF pt] k(6) Cons.prems(2) by (auto simp: finalIn_def id)
    then show ?thesis using k c(1,3) by (intro exI [of _ "Suc k"]) (auto simp: id)
  qed
qed

text \<open>C26. A recovery pass over the stale operations, oldest heartbeat first and at most 200 of them, terminates with a
  measure: the number it reports is the number of operations it took out of flight, they are final afterwards, and a
  pass that reports no error has finished every operation it picked.\<close>

theorem RecoverStaleFunding_progress:
  assumes "reachable sha checks s" "RecoverStaleFunding staleBefore limit s = (n, err, s')"
  shows "\<exists>k \<le> length (staleOperations staleBefore (clamp limit) s). n = int k \<and> k \<le> 200 \<and> inFlightCount s' + k = inFlightCount s \<and>
    (err = None \<longrightarrow> k = length (staleOperations staleBefore (clamp limit) s)) \<and>
    (\<forall>q \<in> set (take k (staleOperations staleBefore (clamp limit) s)). finalIn s' (o_id q))"
proof -
  let ?items = "staleOperations staleBefore (clamp limit) s"
  let ?s = "s\<lparr>operations := update_where (\<lambda>q. o_id q \<in> set (map o_id ?items)) (\<lambda>q. q\<lparr>o_heartbeat := clk s\<rparr>) (operations s)\<rparr>"
  have d: "distinct (map o_id (operations s))"
    using reachable_inv [OF assms(1)] by (simp add: store_inv_def books_ok_def balanced_def books_def tables_wf_def)
  have items: "set ?items \<subseteq> {q \<in> set (operations s). inFlight q}"
    by (auto simp: staleOperations_def inFlight_def isFundingTerminal_def dest!: in_set_takeD)
  have di: "distinct (map o_id ?items)"
    using d by (auto simp: staleOperations_def take_map [symmetric] distinct_map intro!: distinct_take inj_on_subset [of o_id "set (operations s)"])
  have op: "opById k ?s = map_option (\<lambda>u. if o_id u \<in> set (map o_id ?items) then u\<lparr>o_heartbeat := clk s\<rparr> else u) (opById k s)" for k
    unfolding opById_def by simp (rule find_update_where, simp)
  have own: "opById (o_id x) s = Some x" if "x \<in> set (operations s)" for x
    unfolding opById_def by (rule find_by_key [OF d that])
  have same: "\<exists>q. opById (o_id x) ?s = Some q \<and> inFlight q" if "x \<in> set ?items" for x
  proof -
    have "x \<in> set (operations s)" "inFlight x" using that items by auto
    then show ?thesis unfolding op own [OF \<open>x \<in> set (operations s)\<close>] by (simp add: inFlight_def)
  qed
  have count: "inFlightCount ?s = inFlightCount s"
    using count_heartbeat by (simp add: inFlightCount_def)
  have run: "settleStale ?items 0 ?s = (n, err, s')" using assms(2) by (simp add: RecoverStaleFunding_def Let_def)
  have "clamp limit \<le> 200" by (auto simp: clamp_def nat_le_iff)
  then have "length ?items \<le> 200" by (simp add: staleOperations_def)
  moreover have "distinct (map o_id (operations ?s))"
    using d map_update_where [of "\<lambda>q. o_id q \<in> set (map o_id ?items)" o_id "\<lambda>q. q\<lparr>o_heartbeat := clk s\<rparr>" "operations s"] by simp
  moreover have "\<forall>x \<in> set ?items. \<exists>q. opById (o_id x) ?s = Some q \<and> inFlight q" using same by blast
  ultimately show ?thesis
    using settleStale_progress [OF run di] unfolding count by fastforce
qed

definition demo_recover :: "int \<times> store_error option \<times> db" where
  "demo_recover = RecoverStaleFunding 1700000001 0 demo_reserved"

theorem RecoverStaleFunding_progress_witness:
  "\<exists>k \<le> length (staleOperations 1700000001 (clamp 0) demo_reserved). fst demo_recover = int k \<and> inFlightCount (snd (snd demo_recover)) + k = 1"
  using RecoverStaleFunding_progress [OF demo_reachable(4), of 1700000001 0 "fst demo_recover" "fst (snd demo_recover)" "snd (snd demo_recover)"]
  by (auto simp: demo_recover_def inFlightCount_def demo_reserved_def inFlight_def isFundingTerminal_def)

end
