(* ===== verification/Invariants.thy ===== *)
theory Invariants
  imports Recovery
begin

text \<open>
  What holds in every state the calls can lead to, whatever their order and their failures, and what
  no call undoes.
\<close>

section \<open>The books\<close>

lemma demo_row: "hd (wallets demo_reserved) \<in> set (wallets demo_reserved)" "w_reserved (hd (wallets demo_reserved)) = 3000000000000"
    "w_id (hd (wallets demo_reserved)) = ''u0''" "w_available (hd (wallets demo_reserved)) = 2000000000000"
    "hd (cash_lots demo_reserved) \<in> set (cash_lots demo_reserved)" "l_original (hd (cash_lots demo_reserved)) = 5000000000000"
    "l_id (hd (cash_lots demo_reserved)) = ''u11''" "l_remaining (hd (cash_lots demo_reserved)) = 2000000000000"
    "last (journals demo_reserved) \<in> set (journals demo_reserved)" "j_posted (last (journals demo_reserved))"
    "j_id (last (journals demo_reserved)) = ''u15''"
  by (simp_all add: demo_reserved_def demo_states)

text \<open>C27. The two balances of every wallet are what replaying the posted ledger gives. The reserved balance is the sum
  of the maxima of the operations in flight plus \<open>strayReserved\<close>, the net of what the entries of reversal journals
  moved on the wallet's reserved account (reversing a reservation or a settlement journal moves money there without
  an operation in flight); so it is exactly the maxima in flight while no reversal journal touches that account.\<close>

theorem reachable_balances:
  assumes "reachable sha checks s" "w \<in> set (wallets s)"
  shows "w_available w = ledgerBalance s (walletAccountKey (w_id w) ''available'') \<and>
    w_reserved w = ledgerBalance s (walletAccountKey (w_id w) ''reserved'') \<and>
    w_reserved w = heldMaximum (w_id w) (operations s) + strayReserved s (w_id w) \<and>
    ((\<forall>e \<in> set (entries s). isReversal s (e_journal e) \<longrightarrow> accountKey s e \<noteq> Some (walletAccountKey (w_id w) ''reserved'')) \<longrightarrow>
      w_reserved w = heldMaximum (w_id w) (operations s))"
proof -
  have "strayReserved s (w_id w) = 0"
    if "\<forall>e \<in> set (entries s). isReversal s (e_journal e) \<longrightarrow> accountKey s e \<noteq> Some (walletAccountKey (w_id w) ''reserved'')"
    unfolding strayReserved_def reservedKey_def by (rule column_sum_zero) (use that in auto)
  then show ?thesis using reachable_inv [OF assms(1)] assms(2)
    by (auto simp: store_inv_def books_ok_def balanced_def books_def off_def availableKey_def reservedKey_def)
qed

lemma demo_reserved_unreversed: "\<forall>e \<in> set (entries demo_reserved). isReversal demo_reserved (e_journal e) \<longrightarrow>
    accountKey demo_reserved e \<noteq> Some (walletAccountKey ''u0'' ''reserved'')"
proof -
  have "\<forall>j \<in> set (journals demo_reserved). j_reversal_of j = None" by (simp add: demo_reserved_def demo_states)
  then show ?thesis by (auto simp: isReversal_def list_ex_iff)
qed

theorem reachable_balances_witness:
  "ledgerBalance demo_reserved (walletAccountKey ''u0'' ''available'') = 2000000000000 \<and>
   ledgerBalance demo_reserved (walletAccountKey ''u0'' ''reserved'') = 3000000000000 \<and>
   heldMaximum ''u0'' (operations demo_reserved) = 3000000000000"
  using reachable_balances [OF demo_reachable(4) demo_row(1)] demo_reserved_unreversed by (simp add: demo_row)

text \<open>C28. No cash is lost or made up: of every cash lot, what was paid in is what remains, what is held for requests and
  refunds, and what was spent and not restored; and what remains is never negative.\<close>

theorem reachable_lots:
  assumes "reachable sha checks s" "l \<in> set (cash_lots s)"
  shows "l_original l = l_remaining l + lotHeld s (l_id l) + lotSpent s (l_id l) \<and> 0 \<le> l_remaining l"
  using reachable_inv [OF assms(1)] assms(2)
  by (auto simp: store_inv_def cash_state_def cash_at_def cash_inv_def lot_sound_def)

theorem reachable_lots_witness: "lotHeld demo_reserved ''u11'' + lotSpent demo_reserved ''u11'' = 3000000000000"
  using reachable_lots [OF demo_reachable(4) demo_row(5)] by (simp add: demo_row)

text \<open>C29. Every posted journal is balanced and moves money.\<close>

theorem reachable_journals:
  assumes "reachable sha checks s" "j \<in> set (journals s)" "j_posted j"
  shows "sideTotal (j_id j) DEBIT (entries s) = sideTotal (j_id j) CREDIT (entries s) \<and> sideTotal (j_id j) DEBIT (entries s) \<noteq> 0"
  using reachable_inv [OF assms(1)] assms(2,3)
  by (auto simp: store_inv_def books_ok_def balanced_def books_def tables_wf_def journals_balanced_def)

theorem reachable_journals_witness: "sideTotal ''u15'' DEBIT (entries demo_reserved) = sideTotal ''u15'' CREDIT (entries demo_reserved)"
  using reachable_journals [OF demo_reachable(4) demo_row(9,10)] by (simp add: demo_row)

text \<open>C30. No call undoes evidence: journals, entries, transactions, funding events, usage corrections and the audit log only
  grow at their end, entries are never added to an old journal, and an operation that is final stays final, with
  its wallet, key, fingerprint and maximum.\<close>

theorem perform_append_only:
  "prefix (journals s) (journals (perform sha checks c s)) \<and> prefix (entries s) (entries (perform sha checks c s)) \<and>
   prefix (wallet_transactions s) (wallet_transactions (perform sha checks c s)) \<and> prefix (op_events s) (op_events (perform sha checks c s)) \<and>
   prefix (adjustments s) (adjustments (perform sha checks c s)) \<and> prefix (audit_log s) (audit_log (perform sha checks c s)) \<and>
   (\<forall>q \<in> set (operations s). \<exists>p \<in> set (operations (perform sha checks c s)). o_id p = o_id q \<and> o_wallet p = o_wallet q \<and> o_key p = o_key q \<and>
      o_fingerprint p = o_fingerprint q \<and> o_maximum p = o_maximum q \<and> (isFundingTerminal (o_status q) \<longrightarrow> isFundingTerminal (o_status p))) \<and>
   (\<forall>e \<in> set (drop (length (entries s)) (entries (perform sha checks c s))). \<forall>j \<in> set (journals s). e_journal e \<noteq> j_id j)"
proof -
  have ev: "evolves s (perform sha checks c s)" by (rule perform_evolves)
  then have "\<forall>q \<in> set (operations s). \<exists>p \<in> set (operations (perform sha checks c s)). opEvolves q p" by (simp add: evolves_def)
  then have "\<forall>q \<in> set (operations s). \<exists>p \<in> set (operations (perform sha checks c s)). o_id p = o_id q \<and> o_wallet p = o_wallet q \<and> o_key p = o_key q \<and>
      o_fingerprint p = o_fingerprint q \<and> o_maximum p = o_maximum q \<and> (isFundingTerminal (o_status q) \<longrightarrow> isFundingTerminal (o_status p))"
    unfolding opEvolves_def by blast
  with ev show ?thesis by (auto simp: evolves_def ledger_extends_def)
qed

theorem perform_append_only_witness: "prefix (journals demo_priced) (journals demo_reserved) \<and> prefix (entries demo_priced) (entries demo_reserved)"
  using perform_append_only [of demo_priced demo_sha demo_checks "CallReserve demo_reserve"] by (simp add: eval_reserved commit_def)

section \<open>Reconciliation of a sound store\<close>

lemma mapE_all: "\<forall>x \<in> set xs. \<exists>y. f x = Inr y \<and> P y \<Longrightarrow> \<exists>ys. mapE f xs = Inr ys \<and> list_all P ys \<and> length ys = length xs"
  by (induction xs) auto

lemma linked_matched:
  assumes "reachable sha checks s" "r \<in> set (recharge_orders s)" "ro_status r \<in> creditedStatuses"
  shows "rechargeMatched s r = Some True"
proof -
  have inv: "orders_ok s" "ledger_wf s" "journals_balanced s"
    using reachable_inv [OF assms(1)] by (auto simp: store_inv_def books_ok_def balanced_def books_def tables_wf_def)
  then have "ro_tx r \<noteq> None" "linkedOrder s r" using assms(2,3) by (auto simp: orders_ok_def rechargeChecks_def)
  then obtain t j where tj: "t \<in> set (wallet_transactions s)" "j \<in> set (journals s)" "ro_tx r = Some (t_id t)" "ro_journal r = Some (j_id j)"
    "t_recharge t = Some (ro_id r)" "t_amount t = ro_amount r" "j_posted j" by (auto simp: linkedOrder_def)
  have "find (\<lambda>u. t_id u = t_id t) (wallet_transactions s) = Some t"
    using tj(1) inv(1) by (intro find_by_key) (auto simp: orders_ok_def)
  moreover have "find (\<lambda>k. j_id k = j_id j) (journals s) = Some j"
    using tj(2) inv(2) by (intro find_by_key) (auto simp: ledger_wf_def)
  ultimately show ?thesis using tj inv(3) by (simp add: rechargeMatched_def journals_balanced_def)
qed

text \<open>C31. The nightly check of recharges against the wallet finds nothing: in every reachable state, on every day, it
  succeeds and reports every credited order as matched.\<close>

theorem rechargeToWallet_clean:
  assumes "reachable sha checks s"
  shows "\<exists>cs. rechargeToWallet day s = Inr cs \<and> list_all cd_matched cs"
proof -
  have "\<forall>r \<in> set (filter (\<lambda>r. (case ro_credited_at r of Some t \<Rightarrow> onDay day t | None \<Rightarrow> False) \<and> ro_status r \<in> creditedStatuses) (recharge_orders s)).
    \<exists>c. rechargeCandidate s r = Inr c \<and> cd_matched c"
    using linked_matched [OF assms] by (auto simp: rechargeCandidate_def)
  from mapE_all [OF this] show ?thesis by (auto simp: rechargeToWallet_def)
qed

theorem rechargeToWallet_clean_witness: "\<exists>cs. rechargeToWallet 19675 demo_credited = Inr cs \<and> list_all cd_matched cs"
  by (rule rechargeToWallet_clean [OF demo_reachable(7)])

end
