(* ===== verification/Spec2Isabelle.thy ===== *)
theory Spec2Isabelle
  imports Pricing Settlement Scheduler Invariants
begin

text \<open>
  A verification development of ModelDock, a commercial gateway to model providers: the money core
  (exact decimals, pricing, supplier settlement, the funding ledger, cash lots, wallets, payments)
  and the admission core (rate limits, credential scheduling).

  Parts, in the order of the theories:

  \<^item> \<open>Prelude\<close>: Go strings, fallible computations and transactions, tables.
  \<^item> \<open>Decimal\<close>: \<^verbatim>\<open>internal/domain/domain.go\<close> (\<open>Decimal\<close>) and the store's decimal helpers.
\<close>

end
